(* ===== verification/Mule_Prelude.thy ===== *)
theory Mule_Prelude
  imports Main "HOL-Library.Word" "HOL-Library.AList"
begin

text \<open>
  Prelude of the mule development: the types that every component shares (bytes, Go strings,
  Go maps, results), the result monad that translates Go's \<open>if err != nil { return err }\<close>,
  the loop \<open>each\<close> that translates a range loop with an early error return, and the generic
  lemmas about them. Nothing here is specific to a component.

  Two collections carry the component proofs: \<open>result_iff\<close> says when a computation returns a
  given result, \<open>go_defs\<close> collects the small definitions that proofs routinely unfold.
\<close>

named_theorems result_iff
named_theorems go_defs

section \<open>Bytes and strings\<close>

text \<open>
  A Go string is an immutable byte sequence. The model writes it as a \<^typ>\<open>string\<close> (a list of
  8-bit characters, so that \<open>length\<close> is Go's \<open>len\<close>) and converts it where the source
  converts between \<open>string\<close> and \<open>[]byte\<close>.
\<close>

type_synonym byte = "8 word"
type_synonym bytes = "byte list"

definition byte_of_char :: "char \<Rightarrow> byte" where
  "byte_of_char c = word_of_nat (of_char c)"

definition char_of_byte :: "byte \<Rightarrow> char" where
  "char_of_byte b = char_of (unat b)"

definition bytes_of_string :: "string \<Rightarrow> bytes" where
  "bytes_of_string s = map byte_of_char s"

definition string_of_bytes :: "bytes \<Rightarrow> string" where
  "string_of_bytes b = map char_of_byte b"

lemma char_of_byte_of_char [simp]: "char_of_byte (byte_of_char c) = c"
proof -
  have "of_char c < (256::nat)"
    by simp
  then have "unat (word_of_nat (of_char c) :: byte) = of_char c"
    by (simp add: unat_of_nat take_bit_nat_eq_self)
  then show ?thesis
    by (simp add: char_of_byte_def byte_of_char_def)
qed

lemma byte_of_char_of_byte [simp]: "byte_of_char (char_of_byte b) = b"
proof -
  have "unat b < 256"
    using unsigned_less [of b] by simp
  then have "of_char (char_of (unat b)) = unat b"
    by (simp add: of_char_of)
  then show ?thesis
    by (simp add: char_of_byte_def byte_of_char_def)
qed

lemma string_of_bytes_of_string [simp]: "string_of_bytes (bytes_of_string s) = s"
  by (simp add: string_of_bytes_def bytes_of_string_def comp_def)

lemma bytes_of_string_of_bytes [simp]: "bytes_of_string (string_of_bytes b) = b"
  by (simp add: string_of_bytes_def bytes_of_string_def comp_def)

lemma length_bytes_of_string [simp]: "length (bytes_of_string s) = length s"
  by (simp add: bytes_of_string_def)

lemma length_string_of_bytes [simp]: "length (string_of_bytes b) = length b"
  by (simp add: string_of_bytes_def)

section \<open>Results\<close>

text \<open>
  A Go function that returns \<open>(T, error)\<close> returns \<open>Inl e\<close> for a non-nil error and \<open>Inr x\<close>
  otherwise; \<open>bind_result\<close> is the sequence
  \<open>x, err := m; if err != nil { return err }; ...\<close>.
\<close>

definition bind_result :: "'e + 'a \<Rightarrow> ('a \<Rightarrow> 'e + 'b) \<Rightarrow> 'e + 'b" where
  "bind_result m f = (case m of Inl e \<Rightarrow> Inl e | Inr x \<Rightarrow> f x)"

definition map_error :: "('e \<Rightarrow> 'f) \<Rightarrow> 'e + 'a \<Rightarrow> 'f + 'a" where
  "map_error g m = (case m of Inl e \<Rightarrow> Inl (g e) | Inr x \<Rightarrow> Inr x)"

definition is_ok :: "'e + 'a \<Rightarrow> bool" where
  "is_ok m = (case m of Inl _ \<Rightarrow> False | Inr _ \<Rightarrow> True)"

definition ensure :: "bool \<Rightarrow> 'e \<Rightarrow> 'e + unit" where
  "ensure b e = (if b then Inr () else Inl e)"

lemma bind_result_simps [simp]:
  "bind_result (Inl e) f = Inl e"
  "bind_result (Inr x) f = f x"
  by (simp_all add: bind_result_def)

lemma map_error_simps [simp]:
  "map_error g (Inl e) = Inl (g e)"
  "map_error g (Inr x) = Inr x"
  by (simp_all add: map_error_def)

lemma is_ok_simps [simp]:
  "\<not> is_ok (Inl e)"
  "is_ok (Inr x)"
  by (simp_all add: is_ok_def)

lemma ensure_simps [simp]:
  "ensure True e = Inr ()"
  "ensure False e = Inl e"
  by (simp_all add: ensure_def)

lemma bind_result_Inr_iff [result_iff]:
  "bind_result m f = Inr y \<longleftrightarrow> (\<exists>x. m = Inr x \<and> f x = Inr y)"
  by (cases m) auto

lemma bind_result_assoc: "bind_result (bind_result r f) g = bind_result r (\<lambda>x. bind_result (f x) g)"
  by (cases r) simp_all

lemma map_error_Inr_iff [result_iff]: "map_error g m = Inr y \<longleftrightarrow> m = Inr y"
  by (cases m) auto

lemma ensure_Inr_iff [result_iff]: "ensure b e = Inr u \<longleftrightarrow> b"
  by (cases b) auto

lemma ensure_Inl_iff [result_iff]: "ensure b e = Inl e' \<longleftrightarrow> \<not> b \<and> e' = e"
  by (cases b) auto

lemma is_ok_iff: "is_ok m \<longleftrightarrow> (\<exists>x. m = Inr x)"
  by (cases m) auto

lemma is_ok_bind [simp]: "is_ok (bind_result m f) \<longleftrightarrow> (\<exists>x. m = Inr x \<and> is_ok (f x))"
  by (cases m) auto

lemma is_ok_map_error [simp]: "is_ok (map_error g m) = is_ok m"
  by (cases m) auto

lemma is_ok_ensure [simp]: "is_ok (ensure b e) = b"
  by (cases b) auto

lemma is_ok_unit: "is_ok m \<longleftrightarrow> m = Inr ()" for m :: "'e + unit"
  by (cases m) auto

section \<open>Range loops with an early error return\<close>

text \<open>\<open>for _, x := range xs { if err := f(x); err != nil { return err } }\<close>\<close>

fun each :: "('a \<Rightarrow> 'e + unit) \<Rightarrow> 'a list \<Rightarrow> 'e + unit" where
  "each f [] = Inr ()"
| "each f (x # xs) = bind_result (f x) (\<lambda>_. each f xs)"

lemma each_Inr_iff [result_iff]: "each f xs = Inr u \<longleftrightarrow> (\<forall>x\<in>set xs. f x = Inr ())"
proof (induction xs)
  case (Cons x xs)
  then show ?case by (cases "f x") auto
qed simp

lemma is_ok_each [simp]: "is_ok (each f xs) \<longleftrightarrow> (\<forall>x\<in>set xs. is_ok (f x))"
proof (induction xs)
  case (Cons x xs)
  then show ?case by (cases "f x") auto
qed simp

lemma each_Inl: "each f xs = Inl e \<Longrightarrow> \<exists>x\<in>set xs. f x = Inl e"
proof (induction xs)
  case (Cons x xs)
  then show ?case by (cases "f x") auto
qed simp

text \<open>
  A loop that also checks for duplicates keeps the keys seen so far
  (\<open>seen := make(map[string]struct{})\<close>).
\<close>

fun each_distinct :: "('a \<Rightarrow> string) \<Rightarrow> ('a \<Rightarrow> 'e + unit) \<Rightarrow> (string \<Rightarrow> 'e) \<Rightarrow>
    string list \<Rightarrow> 'a list \<Rightarrow> 'e + unit" where
  "each_distinct k f dup seen [] = Inr ()"
| "each_distinct k f dup seen (x # xs) =
     bind_result (f x) (\<lambda>_.
       if k x \<in> set seen then Inl (dup (k x))
       else each_distinct k f dup (k x # seen) xs)"

lemma each_distinct_iff:
  "each_distinct k f dup seen xs = Inr () \<longleftrightarrow>
     (\<forall>x\<in>set xs. f x = Inr ()) \<and> distinct (map k xs) \<and> set seen \<inter> k ` set xs = {}"
proof (induction xs arbitrary: seen)
  case (Cons x xs)
  then show ?case by (cases "f x") auto
qed simp

section \<open>Go maps\<close>

text \<open>
  A Go map is an association list with distinct keys, listed in the order in which a particular
  range loop visits it. Go leaves that order unspecified, so a property of a map must not
  depend on it: \<open>same_map\<close> says that two lists are enumerations of the same map.
\<close>

type_synonym 'v gomap = "(string \<times> 'v) list"

definition wf_map :: "'v gomap \<Rightarrow> bool" where
  "wf_map m \<longleftrightarrow> distinct (map fst m)"

definition same_map :: "'v gomap \<Rightarrow> 'v gomap \<Rightarrow> bool" where
  "same_map m m' \<longleftrightarrow> wf_map m \<and> wf_map m' \<and> set m = set m'"

definition has_key :: "string \<Rightarrow> 'v gomap \<Rightarrow> bool" where
  "has_key k m = (map_of m k \<noteq> None)"

lemma has_key_iff: "has_key k m \<longleftrightarrow> k \<in> fst ` set m"
  by (simp add: has_key_def map_of_eq_None_iff)

lemma wf_map_Nil [simp]: "wf_map []"
  by (simp add: wf_map_def)

lemma wf_map_update [simp]: "wf_map m \<Longrightarrow> wf_map (AList.update k v m)"
  by (simp add: wf_map_def distinct_update)

lemma wf_map_delete [simp]: "wf_map m \<Longrightarrow> wf_map (AList.delete k m)"
  by (simp add: wf_map_def distinct_delete)

lemma map_of_update [simp]: "map_of (AList.update k v m) = (map_of m)(k \<mapsto> v)"
  by (simp add: update_conv')

lemma map_of_delete [simp]: "map_of (AList.delete k m) = (map_of m)(k := None)"
  by (simp add: delete_conv')

lemma same_map_of: "same_map m m' \<Longrightarrow> map_of m = map_of m'"
  by (simp add: same_map_def wf_map_def map_of_inject_set)

lemma same_map_set: "same_map m m' \<Longrightarrow> set m = set m'"
  by (simp add: same_map_def)

lemma map_of_wf_iff: "wf_map m \<Longrightarrow> map_of m k = Some v \<longleftrightarrow> (k, v) \<in> set m"
  by (simp add: wf_map_def)

section \<open>Lists\<close>

lemma take_eq_imp_append: "take n xs = ys \<Longrightarrow> n \<le> length xs \<Longrightarrow> xs = ys @ drop n xs"
  by (metis append_take_drop_id)

lemma length2_conv: "length xs = 2 \<longleftrightarrow> (\<exists>a b. xs = [a, b])"
  by (auto simp: numeral_2_eq_2 length_Suc_conv)

lemma list_nth2: "2 \<le> length xs \<Longrightarrow> xs = xs ! 0 # xs ! 1 # drop 2 xs"
  by (cases xs; cases "tl xs") auto

lemma list_nth3: "3 \<le> length xs \<Longrightarrow> xs = xs ! 0 # xs ! 1 # xs ! 2 # drop 3 xs"
  by (cases xs; cases "tl xs"; cases "tl (tl xs)") (auto simp: numeral_3_eq_3 numeral_2_eq_2)

end
