(* ===== verification/Go_Strings.thy ===== *)
theory Go_Strings
  imports Mule_Prelude
begin

text \<open>
  The string routines of Go's standard library that mule calls: \<open>strings.Cut\<close> and
  \<open>strings.Contains\<close> with a one-character separator, \<open>strings.TrimSpace\<close>, \<open>strconv.Atoi\<close>,
  \<open>%d\<close> formatting and \<open>net.SplitHostPort\<close>. Each is written the way the library computes it;
  the lemmas give the characterisation that the components use.
\<close>

section \<open>Searching and cutting\<close>

text \<open>\<open>strings.Cut(s, sep)\<close>: the text before and after the first separator, and whether it occurs.\<close>

fun Cut :: "char \<Rightarrow> string \<Rightarrow> string \<times> string \<times> bool" where
  "Cut c [] = ([], [], False)"
| "Cut c (x # xs) =
     (if x = c then ([], xs, True)
      else case Cut c xs of (before, after, ok) \<Rightarrow> (x # before, after, ok))"

lemma Cut_found: "Cut c s = (b, a, True) \<longleftrightarrow> s = b @ c # a \<and> c \<notin> set b"
proof (induction s arbitrary: b a)
  case (Cons x xs)
  show ?case
  proof (cases "x = c")
    case True
    then show ?thesis by (cases b) auto
  next
    case False
    obtain b' a' ok where C: "Cut c xs = (b', a', ok)" by (cases "Cut c xs") auto
    show ?thesis
      using False Cons.IH [of "tl b" a] C by (cases b) auto
  qed
qed simp

lemma Cut_not_found: "Cut c s = (b, a, False) \<longleftrightarrow> b = s \<and> a = [] \<and> c \<notin> set s"
proof (induction s arbitrary: b a)
  case (Cons x xs)
  obtain b' a' ok where C: "Cut c xs = (b', a', ok)" by (cases "Cut c xs") auto
  show ?case
  proof (cases ok)
    case True
    with C have "xs = b' @ c # a'" by (simp add: Cut_found)
    with C True show ?thesis by auto
  next
    case False
    with C Cons.IH [of b' a'] show ?thesis by auto
  qed
qed auto

lemma Cut_append [simp]: "c \<notin> set b \<Longrightarrow> Cut c (b @ c # a) = (b, a, True)"
  by (simp add: Cut_found)

lemma Cut_no_sep [simp]: "c \<notin> set s \<Longrightarrow> Cut c s = (s, [], False)"
  by (simp add: Cut_not_found)

fun IndexByte :: "char \<Rightarrow> string \<Rightarrow> nat option" where
  "IndexByte c [] = None"
| "IndexByte c (x # xs) = (if x = c then Some 0 else map_option Suc (IndexByte c xs))"

fun LastIndexByte :: "char \<Rightarrow> string \<Rightarrow> nat option" where
  "LastIndexByte c [] = None"
| "LastIndexByte c (x # xs) =
     (case LastIndexByte c xs of
        Some i \<Rightarrow> Some (Suc i)
      | None \<Rightarrow> if x = c then Some 0 else None)"

lemma IndexByte_None: "IndexByte c s = None \<longleftrightarrow> c \<notin> set s"
  by (induction s) auto

lemma LastIndexByte_None: "LastIndexByte c s = None \<longleftrightarrow> c \<notin> set s"
  by (induction s) (auto split: option.splits)

lemma IndexByte_append: "c \<notin> set b \<Longrightarrow> IndexByte c (b @ c # a) = Some (length b)"
  by (induction b) auto

lemma LastIndexByte_append: "c \<notin> set a \<Longrightarrow> LastIndexByte c (b @ c # a) = Some (length b)"
  by (induction b) (auto simp: LastIndexByte_None split: option.splits)

lemma IndexByte_Some:
  assumes "IndexByte c s = Some i"
  shows "s = take i s @ c # drop (Suc i) s" "c \<notin> set (take i s)" "i < length s"
proof -
  from assms have "c \<in> set s"
    using IndexByte_None [of c s] by auto
  then obtain b a where s: "s = b @ c # a" "c \<notin> set b"
    by (meson split_list_first)
  with assms IndexByte_append [OF s(2), of a] have "i = length b" by simp
  with s show "s = take i s @ c # drop (Suc i) s" "c \<notin> set (take i s)" "i < length s" by auto
qed

lemma LastIndexByte_Some:
  assumes "LastIndexByte c s = Some i"
  shows "s = take i s @ c # drop (Suc i) s" "c \<notin> set (drop (Suc i) s)" "i < length s"
proof -
  from assms have "c \<in> set s"
    using LastIndexByte_None [of c s] by auto
  then obtain b a where s: "s = b @ c # a" "c \<notin> set a"
    by (meson split_list_last)
  with assms LastIndexByte_append [OF s(2), of b] have "i = length b" by simp
  with s show "s = take i s @ c # drop (Suc i) s" "c \<notin> set (drop (Suc i) s)" "i < length s" by auto
qed

text \<open>\<open>strings.Split(s, sep)\<close> with a one-character separator: never empty.\<close>

fun Split :: "char \<Rightarrow> string \<Rightarrow> string list" where
  "Split c [] = [[]]"
| "Split c (x # xs) =
     (if x = c then [] # Split c xs
      else case Split c xs of [] \<Rightarrow> [[x]] | p # ps \<Rightarrow> (x # p) # ps)"

lemma Split_no_sep: "c \<notin> set s \<Longrightarrow> Split c s = [s]"
  by (induction s) auto

lemma Split_append: "c \<notin> set s \<Longrightarrow> Split c (s @ c # t) = s # Split c t"
  by (induction s) auto

section \<open>Decimal numbers\<close>

definition is_digit :: "char \<Rightarrow> bool" where
  "is_digit c \<longleftrightarrow> 48 \<le> (of_char c :: nat) \<and> (of_char c :: nat) \<le> 57"

definition digit_value :: "char \<Rightarrow> int" where
  "digit_value c = of_char c - 48"

definition digits_value :: "string \<Rightarrow> int" where
  "digits_value s = foldl (\<lambda>n c. 10 * n + digit_value c) 0 s"

text \<open>
  \<open>strconv.Atoi\<close> on a 64-bit platform: an optional sign, one or more decimal digits, a value
  that fits in an \<open>int\<close>. Callers only test whether it failed, so the kind of failure (syntax or
  range) is not kept.
\<close>

definition parse_digits :: "string \<Rightarrow> int option" where
  "parse_digits s = (if s \<noteq> [] \<and> list_all is_digit s then Some (digits_value s) else None)"

definition Atoi :: "string \<Rightarrow> int option" where
  "Atoi s =
     (case s of
        [] \<Rightarrow> None
      | c # cs \<Rightarrow>
          (case parse_digits (if c = CHR ''-'' \<or> c = CHR ''+'' then cs else s) of
             None \<Rightarrow> None
           | Some n \<Rightarrow>
               if c = CHR ''-'' then (if n \<le> 9223372036854775808 then Some (- n) else None)
               else (if n \<le> 9223372036854775807 then Some n else None)))"

text \<open>\<open>%d\<close> of an unsigned and of a signed integer.\<close>

fun nat_dec :: "nat \<Rightarrow> string" where
  "nat_dec n = (if n < 10 then [char_of (48 + n)] else nat_dec (n div 10) @ [char_of (48 + n mod 10)])"

declare nat_dec.simps [simp del]

definition int_dec :: "int \<Rightarrow> string" where
  "int_dec i = (if i < 0 then CHR ''-'' # nat_dec (nat (- i)) else nat_dec (nat i))"

lemma digit_char [simp]:
  "d < 10 \<Longrightarrow> is_digit (char_of (48 + d))"
  "d < 10 \<Longrightarrow> digit_value (char_of (48 + d)) = int d"
proof -
  assume d: "d < 10"
  then have c: "of_char (char_of (48 + d)) = 48 + d" by simp
  show "is_digit (char_of (48 + d))"
    using d c by (simp add: is_digit_def)
  have "of_char (char_of (48 + d)) = int (of_char (char_of (48 + d)))"
    by (rule of_nat_of_char [symmetric])
  with c show "digit_value (char_of (48 + d)) = int d"
    by (simp add: digit_value_def)
qed

lemma digits_value_snoc [simp]: "digits_value (s @ [c]) = 10 * digits_value s + digit_value c"
  by (simp add: digits_value_def)

lemma digits_value_single [simp]: "digits_value [c] = digit_value c"
  by (simp add: digits_value_def)

lemma digits_value_nonneg: "list_all is_digit s \<Longrightarrow> 0 \<le> digits_value s"
proof (induction s rule: rev_induct)
  case (snoc c s)
  then have "48 \<le> (of_char c :: nat)"
    by (simp add: is_digit_def)
  then have "48 \<le> (of_char c :: int)"
    by (metis of_nat_of_char of_nat_le_iff of_nat_numeral)
  with snoc show ?case
    by (simp add: digit_value_def)
qed (simp add: digits_value_def)

lemma nat_dec_digits: "nat_dec n \<noteq> [] \<and> list_all is_digit (nat_dec n) \<and> digits_value (nat_dec n) = int n"
proof (induction n rule: nat_dec.induct)
  case (1 n)
  have "10 * int (n div 10) + int (n mod 10) = int n"
    by (simp add: zdiv_int zmod_int)
  with 1 show ?case
    by (cases "n < 10") (auto simp: nat_dec.simps [of n])
qed

lemma parse_digits_nat_dec [simp]: "parse_digits (nat_dec n) = Some (int n)"
  using nat_dec_digits [of n] by (simp add: parse_digits_def)

lemma nat_dec_no_sign: "\<exists>c cs. nat_dec n = c # cs \<and> is_digit c"
  using nat_dec_digits [of n] by (cases "nat_dec n") auto

lemma sign_not_digit [simp]: "\<not> is_digit (CHR ''-'')" "\<not> is_digit (CHR ''+'')"
  "\<not> is_digit (CHR '':'')"
  by (simp_all add: is_digit_def)

lemma Atoi_nat_dec: "n < 2 ^ 63 \<Longrightarrow> Atoi (nat_dec n) = Some (int n)"
proof -
  assume n: "n < 2 ^ 63"
  obtain c cs where c: "nat_dec n = c # cs" "is_digit c"
    using nat_dec_no_sign by blast
  then have "c \<noteq> CHR ''-''" "c \<noteq> CHR ''+''" by auto
  moreover have "parse_digits (c # cs) = Some (int n)"
    using parse_digits_nat_dec [of n] c by simp
  ultimately show ?thesis
    using c n by (simp add: Atoi_def)
qed

lemma length_nat_dec: "n < 10 ^ k \<Longrightarrow> 0 < k \<Longrightarrow> length (nat_dec n) \<le> k"
proof (induction n arbitrary: k rule: nat_dec.induct)
  case (1 n)
  show ?case
  proof (cases "n < 10")
    case False
    obtain j where j: "k = Suc j" using 1(3) gr0_implies_Suc by blast
    with False 1(2) have "0 < j" by (cases j) auto
    moreover have "n div 10 < 10 ^ j" using 1(2) j by (simp add: less_mult_imp_div_less mult.commute)
    ultimately show ?thesis using 1(1) [OF False] False j by (simp add: nat_dec.simps [of n])
  qed (use 1(3) in \<open>simp add: nat_dec.simps [of n]\<close>)
qed

lemma nat_dec_inj: "nat_dec m = nat_dec n \<Longrightarrow> m = n"
  by (metis nat_dec_digits of_nat_eq_iff)

lemma nat_dec_chars: "c \<in> set (nat_dec n) \<Longrightarrow> is_digit c"
  using nat_dec_digits [of n] by (simp add: list_all_iff)

section \<open>net.SplitHostPort\<close>

datatype addr_error =
    MissingPort | TooManyColons | MissingBracket | UnexpectedOpenBracket | UnexpectedCloseBracket

definition SplitHostPort :: "string \<Rightarrow> addr_error + (string \<times> string)" where
  "SplitHostPort hostport =
     (case LastIndexByte (CHR '':'') hostport of
        None \<Rightarrow> Inl MissingPort
      | Some i \<Rightarrow>
          bind_result
            (if hostport ! 0 = CHR ''['' then
               (case IndexByte (CHR '']'') hostport of
                  None \<Rightarrow> Inl MissingBracket
                | Some e \<Rightarrow>
                    if Suc e = length hostport then Inl MissingPort
                    else if Suc e = i then Inr (take (e - 1) (drop 1 hostport), 1, Suc e)
                    else if hostport ! Suc e = CHR '':'' then Inl TooManyColons
                    else Inl MissingPort)
             else
               let host = take i hostport in
               if IndexByte (CHR '':'') host \<noteq> None then Inl TooManyColons
               else Inr (host, 0, 0))
            (\<lambda>(host, j, k).
               if IndexByte (CHR ''['') (drop j hostport) \<noteq> None then Inl UnexpectedOpenBracket
               else if IndexByte (CHR '']'') (drop k hostport) \<noteq> None then Inl UnexpectedCloseBracket
               else Inr (host, drop (Suc i) hostport)))"

text \<open>
  The addresses it accepts: a host without colons or brackets, a colon and a port; or a bracketed
  host (which may contain colons), a colon and a port.
\<close>

definition plain_chars :: "string \<Rightarrow> bool" where
  "plain_chars s \<longleftrightarrow> CHR '':'' \<notin> set s \<and> CHR ''['' \<notin> set s \<and> CHR '']'' \<notin> set s"

definition host_port_text :: "string \<Rightarrow> string \<Rightarrow> string \<Rightarrow> bool" where
  "host_port_text s h p \<longleftrightarrow> plain_chars p \<and>
     (plain_chars h \<and> s = h @ CHR '':'' # p \<or>
      CHR ''['' \<notin> set h \<and> CHR '']'' \<notin> set h \<and> s = CHR ''['' # h @ CHR '']'' # CHR '':'' # p)"

lemma SplitHostPort_text:
  assumes "host_port_text s h p"
  shows "SplitHostPort s = Inr (h, p)"
  using assms unfolding host_port_text_def
proof (elim conjE disjE)
  assume p: "plain_chars p" and h: "plain_chars h" and s: "s = h @ CHR '':'' # p"
  have "LastIndexByte (CHR '':'') s = Some (length h)"
    using p by (simp add: s plain_chars_def LastIndexByte_append)
  moreover have "s ! 0 \<noteq> CHR ''[''"
    using h by (cases h) (auto simp: s plain_chars_def)
  ultimately show ?thesis
    using p h by (simp add: SplitHostPort_def s plain_chars_def IndexByte_None)
next
  assume p: "plain_chars p" and h: "CHR ''['' \<notin> set h" "CHR '']'' \<notin> set h"
    and s: "s = CHR ''['' # h @ CHR '']'' # CHR '':'' # p"
  have "LastIndexByte (CHR '':'') ((CHR ''['' # h @ [CHR '']'']) @ CHR '':'' # p) =
    Some (length (CHR ''['' # h @ [CHR '']'']))"
    using p by (intro LastIndexByte_append) (simp add: plain_chars_def)
  then have i: "LastIndexByte (CHR '':'') s = Some (Suc (Suc (length h)))"
    by (simp add: s)
  have "IndexByte (CHR '']'') ((CHR ''['' # h) @ CHR '']'' # CHR '':'' # p) =
    Some (length (CHR ''['' # h))"
    using h by (intro IndexByte_append) simp
  then have e: "IndexByte (CHR '']'') s = Some (Suc (length h))"
    by (simp add: s)
  have "drop (Suc (Suc (length h))) s = CHR '':'' # p"
    by (simp add: s)
  then show ?thesis
    using i e p h by (simp add: SplitHostPort_def s plain_chars_def IndexByte_None)
qed

lemma SplitHostPort_Inr:
  assumes "SplitHostPort s = Inr (h, p)"
  shows "host_port_text s h p"
proof -
  from assms obtain i where i: "LastIndexByte (CHR '':'') s = Some i"
    by (auto simp: SplitHostPort_def split: option.splits)
  note li = LastIndexByte_Some [OF i]
  show ?thesis
  proof (cases "s ! 0 = CHR ''[''")
    case True
    with assms i obtain e where e: "IndexByte (CHR '']'') s = Some e"
      by (auto simp: SplitHostPort_def split: option.splits)
    note ie = IndexByte_Some [OF e]
    from assms i e True have ei: "Suc e = i" and h: "h = take (e - 1) (drop 1 s)"
      and p: "p = drop (Suc i) s"
      and no: "CHR ''['' \<notin> set (drop 1 s)" "CHR '']'' \<notin> set (drop i s)"
      by (auto simp: SplitHostPort_def IndexByte_None split: if_splits)
    have "e \<noteq> 0"
    proof
      assume "e = 0"
      with ie(1) have "s ! 0 = CHR '']''" by (metis append_Nil nth_Cons_0 take0)
      with True show False by simp
    qed
    have "s = take e s @ CHR '']'' # drop i s"
      using ie(1) ei by simp
    also have "drop i s = CHR '':'' # p"
      using li(1,3) p by (metis append_take_drop_id same_append_eq)
    also have "take e s = CHR ''['' # h"
      using True \<open>e \<noteq> 0\<close> ie(3) by (cases s; cases e) (auto simp: h)
    finally have s: "s = CHR ''['' # h @ CHR '']'' # CHR '':'' # p" by simp
    have "CHR ''['' \<notin> set h \<and> CHR ''['' \<notin> set p"
      using no(1) by (subst (asm) s) auto
    moreover have "CHR '']'' \<notin> set h"
      using ie(2) \<open>take e s = CHR ''['' # h\<close> by simp
    moreover have "CHR '']'' \<notin> set p"
      using no(2) \<open>drop i s = CHR '':'' # p\<close> by simp
    moreover have "CHR '':'' \<notin> set p"
      using li(2) p by simp
    ultimately show ?thesis
      using s by (simp add: host_port_text_def plain_chars_def)
  next
    case False
    with assms i have h: "h = take i s" and p: "p = drop (Suc i) s"
      and no: "CHR '':'' \<notin> set (take i s)" "CHR ''['' \<notin> set s" "CHR '']'' \<notin> set s"
      by (auto simp: SplitHostPort_def Let_def IndexByte_None split: if_splits)
    have "s = h @ CHR '':'' # p"
      using li(1) h p by simp
    moreover have "plain_chars h" "plain_chars p"
      using no li(2) by (auto simp: plain_chars_def h p dest: in_set_takeD in_set_dropD)
    ultimately show ?thesis
      by (simp add: host_port_text_def)
  qed
qed

lemma SplitHostPort_iff: "SplitHostPort s = Inr (h, p) \<longleftrightarrow> host_port_text s h p"
  using SplitHostPort_text SplitHostPort_Inr by blast

end
