(* ===== verification/Go_Time.thy ===== *)
theory Go_Time
  imports Go_Strings Complex_Main
begin

text \<open>
  \<open>time.ParseDuration\<close>, translated from Go's standard library: a signed sequence of decimal numbers
  with units, in nanoseconds, with its overflow checks. The value of a fraction is computed in
  double precision there; \<open>float64\<close> rounds a rational to the nearest double (ties to even, the
  operands here stay inside the normal range).
\<close>

type_synonym duration = int

definition Nanosecond :: duration where "Nanosecond = 1"
definition Millisecond :: duration where "Millisecond = 1000000"
definition Second :: duration where "Second = 1000000000"
definition Minute :: duration where "Minute = 60 * Second"

lemmas time_defs = Nanosecond_def Millisecond_def Second_def Minute_def

section \<open>Double precision\<close>

function bitlen :: "int \<Rightarrow> int" where
  "bitlen n = (if n \<le> 0 then 0 else 1 + bitlen (n div 2))"
  by pat_completeness auto
termination
  by (relation "measure nat") auto

declare bitlen.simps [simp del]

definition pow2 :: "int \<Rightarrow> rat" where
  "pow2 e = (if 0 \<le> e then 2 ^ nat e else 1 / 2 ^ nat (- e))"

definition half_even :: "rat \<Rightarrow> int" where
  "half_even r =
     (let n = \<lfloor>r\<rfloor>; d = r - of_int n in
      if d < 1 / 2 then n else if 1 / 2 < d then n + 1 else if even n then n else n + 1)"

definition float64 :: "rat \<Rightarrow> rat" where
  "float64 r =
     (if r \<le> 0 then 0
      else
        case quotient_of r of (p, q) \<Rightarrow>
          let k = bitlen p - bitlen q;
              e = (if r < pow2 k then k - 53 else k - 52)
          in of_int (half_even (r / pow2 e)) * pow2 e)"

section \<open>Parsing\<close>

fun leadingInt :: "int \<Rightarrow> string \<Rightarrow> (int \<times> string) option" where
  "leadingInt x [] = Some (x, [])"
| "leadingInt x (c # cs) =
     (if \<not> is_digit c then Some (x, c # cs)
      else if 922337203685477580 < x then None
      else let x' = 10 * x + digit_value c in
        if 9223372036854775808 < x' then None else leadingInt x' cs)"

fun leadingFraction :: "int \<Rightarrow> rat \<Rightarrow> bool \<Rightarrow> string \<Rightarrow> int \<times> rat \<times> string" where
  "leadingFraction f scale overflow [] = (f, scale, [])"
| "leadingFraction f scale overflow (c # cs) =
     (if \<not> is_digit c then (f, scale, c # cs)
      else if overflow then leadingFraction f scale overflow cs
      else if 922337203685477580 < f then leadingFraction f scale True cs
      else let y = 10 * f + digit_value c in
        if 9223372036854775808 < y then leadingFraction f scale True cs
        else leadingFraction y (10 * scale) overflow cs)"

definition unitMap :: "duration gomap" where
  "unitMap = [(''ns'', 1), (''us'', 1000), ([CHR 0xC2, CHR 0xB5, CHR ''s''], 1000),
     ([CHR 0xCE, CHR 0xBC, CHR ''s''], 1000), (''ms'', 1000000), (''s'', 1000000000),
     (''m'', 60000000000), (''h'', 3600000000000)]"

definition numeric :: "char \<Rightarrow> bool" where
  "numeric c \<longleftrightarrow> c = CHR ''.'' \<or> is_digit c"

text \<open>The optional fraction: its digits, their scale, the rest and whether there were any.\<close>

definition fracPart :: "string \<Rightarrow> int \<times> rat \<times> string \<times> bool" where
  "fracPart s =
     (case s of
        [] \<Rightarrow> (0, 1, s, False)
      | c # s' \<Rightarrow>
          if c = CHR ''.''
          then (case leadingFraction 0 1 False s' of (f, scale, t) \<Rightarrow> (f, scale, t, length t \<noteq> length s'))
          else (0, 1, s, False))"

text \<open>One turn of the loop: a number, its fraction and its unit, and the rest of the text.\<close>

definition parseUnit :: "string \<Rightarrow> (int \<times> string) option" where
  "parseUnit s =
     (if s = [] \<or> \<not> numeric (hd s) then None
      else
        (case leadingInt 0 s of
           None \<Rightarrow> None
         | Some (v, s1) \<Rightarrow>
             (case fracPart s1 of (f, scale, s2, post) \<Rightarrow>
                if length s1 = length s \<and> \<not> post then None
                else
                  let u = takeWhile (\<lambda>c. \<not> numeric c) s2; t = dropWhile (\<lambda>c. \<not> numeric c) s2 in
                  if u = [] then None
                  else
                    (case map_of unitMap u of
                       None \<Rightarrow> None
                     | Some unit \<Rightarrow>
                         if 9223372036854775808 div unit < v then None
                         else
                           let v1 = v * unit;
                               v2 = (if 0 < f
                                 then v1 + \<lfloor>float64 (float64 (of_int f) * float64 (of_int unit / scale))\<rfloor> else v1)
                           in if 0 < f \<and> 9223372036854775808 < v2 then None else Some (v2, t)))))"

lemma leadingInt_length: "leadingInt x s = Some (v, t) \<Longrightarrow> length t \<le> length s"
proof (induction x s rule: leadingInt.induct)
  case (2 x c cs)
  then show ?case by (fastforce simp: Let_def split: if_splits)
qed simp

lemma leadingFraction_length: "leadingFraction f scale o1 s = (f', scale', t) \<Longrightarrow> length t \<le> length s"
proof (induction f scale o1 s rule: leadingFraction.induct)
  case (2 f scale o1 c cs)
  then show ?case by (fastforce simp: Let_def split: if_splits)
qed simp

lemma fracPart_length: "fracPart s = (f, scale, t, post) \<Longrightarrow> length t \<le> length s"
  by (auto simp: fracPart_def split: list.splits prod.splits if_splits dest: leadingFraction_length)

lemma parseUnit_shorter:
  assumes "parseUnit s = Some (v, t)"
  shows "length t < length s"
proof -
  obtain v1 s1 where 1: "leadingInt 0 s = Some (v1, s1)"
    using assms by (auto simp: parseUnit_def split: option.splits if_splits)
  obtain f scale s2 post where 2: "fracPart s1 = (f, scale, s2, post)" by (metis prod_cases4)
  have u: "takeWhile (\<lambda>c. \<not> numeric c) s2 \<noteq> []" "t = dropWhile (\<lambda>c. \<not> numeric c) s2"
    using assms by (auto simp: parseUnit_def 1 2 Let_def split: option.splits if_splits)
  have "length (takeWhile (\<lambda>c. \<not> numeric c) s2) + length t = length s2"
    unfolding u(2) by (metis length_append takeWhile_dropWhile_id)
  with u(1) leadingInt_length [OF 1] fracPart_length [OF 2] show ?thesis
    by (cases "takeWhile (\<lambda>c. \<not> numeric c) s2") auto
qed

function parseUnits :: "int \<Rightarrow> string \<Rightarrow> int option" where
  "parseUnits d s =
     (if s = [] then Some d
      else
        (case parseUnit s of
           None \<Rightarrow> None
         | Some (v, t) \<Rightarrow> if 9223372036854775808 < d + v then None else parseUnits (d + v) t))"
  by pat_completeness auto
termination
  by (relation "measure (\<lambda>(d, s). length s)") (auto dest: parseUnit_shorter)

declare parseUnits.simps [simp del]

definition ParseDuration :: "string \<Rightarrow> duration option" where
  "ParseDuration s =
     (let neg = (s \<noteq> [] \<and> hd s = CHR ''-'');
          s = (if s \<noteq> [] \<and> (hd s = CHR ''-'' \<or> hd s = CHR ''+'') then tl s else s)
      in if s = ''0'' then Some 0
         else if s = [] then None
         else
           (case parseUnits 0 s of
              None \<Rightarrow> None
            | Some d \<Rightarrow>
                if neg then Some (- d)
                else if 9223372036854775807 < d then None else Some d))"

end
