(* ===== verification/Config.thy ===== *)
theory Config
  imports Go_Time
begin

text \<open>
  \<open>internal/config/config.go\<close>: identifier and address validation, the \<open>name=value\<close> flag
  syntax, and the normalisation of listen and route tables. Maps are enumerated in the order of a
  range loop (see \<open>same_map\<close>), so the theorems about normalisation show that neither the verdict
  nor the resulting table depends on Go's iteration order. The YAML decoder is a parameter of
  \<open>DecodeYAMLStrict\<close>.
\<close>

section \<open>Data\<close>

definition DefaultRoute :: string where "DefaultRoute = ''default''"

record Common =
  SecretFile :: string
  LogFormat :: string
  LogLevel :: string
  MetricsListen :: string
  ShutdownTimeout :: duration

record RouteListen =
  Route :: string
  Address :: string

record Client =
  ClientID :: string
  ClientSecretFile :: string

text \<open>The fields of \<open>Forward\<close> and \<open>Exit\<close>; both embed \<open>Common\<close>.\<close>

record ForwardCfg = Common +
  ListenTCP :: string
  Listens :: "RouteListen list"
  Peer :: string
  ForwardID :: string
  SendClientAddr :: bool
  ConnectTimeout :: duration
  HandshakeTimeout :: duration
  IdleTimeout :: duration
  MaxConnections :: int
  KeepAlive :: duration

record ExitCfg = Common +
  ListenUDP :: string
  Target :: string
  Routes :: "string gomap"
  Clients :: "Client list"
  ClientRoutes :: "string gomap gomap"
  ExitDialTimeout :: duration
  ExitHandshakeTimeout :: duration
  ExitIdleTimeout :: duration
  MaxStreams :: int
  MaxPendingDials :: int
  ExitKeepAlive :: duration

datatype config_error =
    InvalidRouteID string
  | InvalidForwardID string
  | InvalidClientID string
  | BadMapping string
  | BadClientRoute string
  | InvalidAddress string addr_error
  | HostRequired string
  | PortOutOfRange string
  | NoListenAddress
  | DuplicateListenRoute string
  | SimpleRoutesInMultiClientMode
  | DuplicateRoute string
  | NoTargetRoute
  | NoClients
  | MixedModes
  | EmptyClientSecretFile string
  | DuplicateClient string
  | RouteForUnknownClient string
  | ClientHasNoRoutes string
  | InvalidLogFormat string
  | InvalidLogLevel string

section \<open>Identifiers\<close>

definition alnum :: "char \<Rightarrow> bool" where
  "alnum c = (let n = (of_char c :: nat) in
     48 \<le> n \<and> n \<le> 57 \<or> 65 \<le> n \<and> n \<le> 90 \<or> 97 \<le> n \<and> n \<le> 122)"

definition routeIDPattern :: "string \<Rightarrow> bool" where
  "routeIDPattern s \<longleftrightarrow> 1 \<le> length s \<and> length s \<le> 64 \<and>
     list_all (\<lambda>c. alnum c \<or> c \<in> set ''_.-'') s"

definition forwardIDPattern :: "string \<Rightarrow> bool" where
  "forwardIDPattern s \<longleftrightarrow> 1 \<le> length s \<and> length s \<le> 128 \<and>
     list_all (\<lambda>c. alnum c \<or> c \<in> set ''_.:-'') s"

definition clientIDPattern :: "string \<Rightarrow> bool" where
  "clientIDPattern s \<longleftrightarrow> 1 \<le> length s \<and> length s \<le> 63 \<and>
     list_all (\<lambda>c. alnum c \<or> c = CHR ''-'') s"

definition ValidateRouteID :: "string \<Rightarrow> config_error + unit" where
  "ValidateRouteID route = ensure (routeIDPattern route) (InvalidRouteID route)"

definition ValidateForwardID :: "string \<Rightarrow> config_error + unit" where
  "ValidateForwardID i =
     (if i = [] then Inr () else ensure (forwardIDPattern i) (InvalidForwardID i))"

definition ValidateClientID :: "string \<Rightarrow> config_error + unit" where
  "ValidateClientID i = ensure (clientIDPattern i) (InvalidClientID i)"

section \<open>Addresses\<close>

definition validateHostPort :: "string \<Rightarrow> bool \<Rightarrow> config_error + unit" where
  "validateHostPort addr allowEmptyHost =
     bind_result (map_error (InvalidAddress addr) (SplitHostPort addr)) (\<lambda>(host, portText).
       if host = [] \<and> \<not> allowEmptyHost then Inl (HostRequired addr)
       else (case Atoi portText of
               None \<Rightarrow> Inl (PortOutOfRange addr)
             | Some port \<Rightarrow> if port < 1 \<or> 65535 < port then Inl (PortOutOfRange addr) else Inr ()))"

definition ValidateTCPAddress :: "string \<Rightarrow> config_error + unit" where
  "ValidateTCPAddress addr = validateHostPort addr False"

definition ValidateListenAddress :: "string \<Rightarrow> config_error + unit" where
  "ValidateListenAddress addr = validateHostPort addr True"

definition ValidateUDPAddress :: "string \<Rightarrow> config_error + unit" where
  "ValidateUDPAddress addr = validateHostPort addr True"

definition ValidateLogFormat :: "string \<Rightarrow> config_error + unit" where
  "ValidateLogFormat v = ensure (v = ''text'' \<or> v = ''json'') (InvalidLogFormat v)"

definition ValidateLogLevel :: "string \<Rightarrow> config_error + unit" where
  "ValidateLogLevel v =
     ensure (v = ''debug'' \<or> v = ''info'' \<or> v = ''warn'' \<or> v = ''error'') (InvalidLogLevel v)"

section \<open>Flag syntax\<close>

definition splitMapping :: "string \<Rightarrow> config_error + (string \<times> string)" where
  "splitMapping v =
     (case Cut (CHR ''='') v of (route, address, ok) \<Rightarrow>
        if \<not> ok \<or> route = [] \<or> address = [] then Inl (BadMapping v) else Inr (route, address))"

definition ParseRouteListen :: "string \<Rightarrow> config_error + RouteListen" where
  "ParseRouteListen v =
     bind_result (splitMapping v) (\<lambda>(route, address).
     bind_result (ValidateRouteID route) (\<lambda>_.
     bind_result (ValidateListenAddress address) (\<lambda>_.
       Inr \<lparr>Route = route, Address = address\<rparr>)))"

definition ParseRouteTarget :: "string \<Rightarrow> config_error + (string \<times> string)" where
  "ParseRouteTarget v =
     bind_result (splitMapping v) (\<lambda>(route, target).
     bind_result (ValidateRouteID route) (\<lambda>_.
     bind_result (ValidateTCPAddress target) (\<lambda>_.
       Inr (route, target))))"

definition ParseClient :: "string \<Rightarrow> config_error + Client" where
  "ParseClient v =
     bind_result (splitMapping v) (\<lambda>(i, path).
     bind_result (ValidateClientID i) (\<lambda>_.
       Inr \<lparr>ClientID = i, ClientSecretFile = path\<rparr>))"

definition ParseClientRouteTarget :: "string \<Rightarrow> config_error + (string \<times> string \<times> string)" where
  "ParseClientRouteTarget v =
     bind_result (splitMapping v) (\<lambda>(left, target).
       case Cut (CHR '':'') left of (clientID, route, ok) \<Rightarrow>
         if \<not> ok \<or> clientID = [] \<or> route = [] then Inl (BadClientRoute v)
         else
           bind_result (ValidateClientID clientID) (\<lambda>_.
           bind_result (ValidateRouteID route) (\<lambda>_.
           bind_result (ValidateTCPAddress target) (\<lambda>_.
             Inr (clientID, route, target)))))"

section \<open>Normalisation\<close>

definition MultiClientMode :: "'a ExitCfg_scheme \<Rightarrow> bool" where
  "MultiClientMode cfg \<longleftrightarrow> 0 < length (Clients cfg) \<or> 0 < length (ClientRoutes cfg)"

definition NormalizeForwardListens :: "'a ForwardCfg_scheme \<Rightarrow> config_error + RouteListen list" where
  "NormalizeForwardListens cfg =
     (let out = (if ListenTCP cfg \<noteq> [] then [\<lparr>Route = DefaultRoute, Address = ListenTCP cfg\<rparr>] else [])
            @ Listens cfg
      in if length out = 0 then Inl NoListenAddress
         else
           bind_result
             (each_distinct Route
                (\<lambda>listen. bind_result (ValidateRouteID (Route listen))
                   (\<lambda>_. ValidateListenAddress (Address listen)))
                DuplicateListenRoute [] out)
             (\<lambda>_. Inr out))"

fun addRoutes :: "string gomap \<Rightarrow> string gomap \<Rightarrow> config_error + string gomap" where
  "addRoutes routes [] = Inr routes"
| "addRoutes routes ((route, target) # rs) =
     (if has_key route routes then Inl (DuplicateRoute route)
      else addRoutes (AList.update route target routes) rs)"

definition checkRoute :: "string \<times> string \<Rightarrow> config_error + unit" where
  "checkRoute rt =
     bind_result (ValidateRouteID (fst rt)) (\<lambda>_. ValidateTCPAddress (snd rt))"

definition NormalizeExitRoutes :: "'a ExitCfg_scheme \<Rightarrow> config_error + string gomap" where
  "NormalizeExitRoutes cfg =
     (if MultiClientMode cfg then Inl SimpleRoutesInMultiClientMode
      else
        let routes = (if Target cfg \<noteq> [] then [(DefaultRoute, Target cfg)] else []) in
        bind_result (addRoutes routes (Routes cfg)) (\<lambda>routes.
          if length routes = 0 then Inl NoTargetRoute
          else bind_result (each checkRoute routes) (\<lambda>_. Inr routes)))"

text \<open>
  The inner loop of \<open>NormalizeClientRoutes\<close> copies the routes of one client, the outer loop
  does so for every client.
\<close>

fun copyRoutes :: "string gomap \<Rightarrow> string gomap \<Rightarrow> config_error + string gomap" where
  "copyRoutes out [] = Inr out"
| "copyRoutes out ((route, target) # rs) =
     bind_result (checkRoute (route, target)) (\<lambda>_. copyRoutes (AList.update route target out) rs)"

fun copyClientRoutes :: "string list \<Rightarrow> string gomap gomap \<Rightarrow> string gomap gomap \<Rightarrow>
    config_error + string gomap gomap" where
  "copyClientRoutes seenClients out [] = Inr out"
| "copyClientRoutes seenClients out ((clientID, routes) # rest) =
     (if clientID \<notin> set seenClients then Inl (RouteForUnknownClient clientID)
      else if length routes = 0 then Inl (ClientHasNoRoutes clientID)
      else bind_result (copyRoutes [] routes) (\<lambda>copied.
             copyClientRoutes seenClients (AList.update clientID copied out) rest))"

definition NormalizeClientRoutes :: "'a ExitCfg_scheme \<Rightarrow> config_error + string gomap gomap" where
  "NormalizeClientRoutes cfg =
     (if length (Clients cfg) = 0 then Inl NoClients
      else if SecretFile cfg \<noteq> [] \<or> Target cfg \<noteq> [] \<or> 0 < length (Routes cfg) then Inl MixedModes
      else
        bind_result
          (each_distinct ClientID
             (\<lambda>c. bind_result (ValidateClientID (ClientID c)) (\<lambda>_.
                ensure (ClientSecretFile c \<noteq> []) (EmptyClientSecretFile (ClientID c))))
             DuplicateClient [] (Clients cfg))
          (\<lambda>_.
        bind_result (copyClientRoutes (map ClientID (Clients cfg)) [] (ClientRoutes cfg)) (\<lambda>out.
        bind_result
          (each (\<lambda>c. ensure (case map_of out (ClientID c) of None \<Rightarrow> False | Some rs \<Rightarrow> length rs \<noteq> 0)
             (ClientHasNoRoutes (ClientID c))) (Clients cfg))
          (\<lambda>_. Inr out))))"

section \<open>Strict YAML\<close>

text \<open>
  The decoder of \<open>gopkg.in/yaml.v3\<close> is a parameter: \<open>decode1\<close> decodes the first document into
  the target with unknown fields rejected and returns what is left, \<open>decode2\<close> tries to decode
  another document from the rest. Both report the end of the input as \<open>YamlEOF\<close>.
\<close>

datatype 'y yaml_error = YamlEOF | YamlErr 'y | NotExactlyOneDocument

definition DecodeYAMLStrict :: "('d \<Rightarrow> 'y yaml_error + ('a \<times> 'r)) \<Rightarrow> ('r \<Rightarrow> 'y yaml_error + unit) \<Rightarrow>
    'd \<Rightarrow> 'y yaml_error + 'a" where
  "DecodeYAMLStrict decode1 decode2 data =
     bind_result (decode1 data) (\<lambda>(out, rest).
       case decode2 rest of
         Inr _ \<Rightarrow> Inl NotExactlyOneDocument
       | Inl YamlEOF \<Rightarrow> Inr out
       | Inl e \<Rightarrow> Inl e)"

section \<open>Separators\<close>

text \<open>
  The flag syntax and the TLS server names put identifiers next to each other with a separator.
  That is unambiguous because no identifier contains the separator that follows it.
\<close>

locale separated =
  fixes ident :: "string \<Rightarrow> bool"
    and sep :: char
  assumes sep_free: "ident s \<Longrightarrow> sep \<notin> set s"
begin

lemma cut_print: "ident s \<Longrightarrow> Cut sep (s @ sep # t) = (s, t, True)"
  by (simp add: sep_free)

lemma print_inj:
  assumes "ident s" "ident s'" "s @ sep # t = s' @ sep # t'"
  shows "s = s' \<and> t = t'"
  using cut_print [OF assms(1)] cut_print [OF assms(2)] assms(3) by (metis prod.inject)

end

lemma pattern_char_free:
  "\<not> alnum (CHR ''='')" "\<not> alnum (CHR '':'')" "\<not> alnum (CHR ''.'')"
  by (simp_all add: alnum_def)

interpretation route_eq: separated routeIDPattern "CHR ''=''"
  by unfold_locales (auto simp: routeIDPattern_def list_all_iff pattern_char_free)

interpretation route_colon: separated routeIDPattern "CHR '':''"
  by unfold_locales (auto simp: routeIDPattern_def list_all_iff pattern_char_free)

interpretation client_eq: separated clientIDPattern "CHR ''=''"
  by unfold_locales (auto simp: clientIDPattern_def list_all_iff pattern_char_free)

interpretation client_colon: separated clientIDPattern "CHR '':''"
  by unfold_locales (auto simp: clientIDPattern_def list_all_iff pattern_char_free)

interpretation client_dot: separated clientIDPattern "CHR ''.''"
  by unfold_locales (auto simp: clientIDPattern_def list_all_iff pattern_char_free)

lemma pattern_nonempty: "routeIDPattern s \<Longrightarrow> s \<noteq> []" "clientIDPattern s \<Longrightarrow> s \<noteq> []"
  by (auto simp: routeIDPattern_def clientIDPattern_def)

section \<open>Lemmas on validation\<close>

lemma ValidateRouteID_iff [result_iff]: "ValidateRouteID r = Inr u \<longleftrightarrow> routeIDPattern r"
  by (simp add: ValidateRouteID_def result_iff)

lemma ValidateClientID_iff [result_iff]: "ValidateClientID r = Inr u \<longleftrightarrow> clientIDPattern r"
  by (simp add: ValidateClientID_def result_iff)

lemma validateHostPort_iff:
  "validateHostPort a allow = Inr u \<longleftrightarrow>
     (\<exists>h p n. host_port_text a h p \<and> (h \<noteq> [] \<or> allow) \<and> Atoi p = Some n \<and> 1 \<le> n \<and> n \<le> 65535)"
  by (fastforce simp: validateHostPort_def bind_result_Inr_iff map_error_Inr_iff SplitHostPort_iff
      split: option.splits if_splits)

lemma validateHostPort_nonempty: "validateHostPort a allow = Inr u \<Longrightarrow> a \<noteq> []"
  by (auto simp: validateHostPort_iff host_port_text_def)

lemma validateHostPort_mono: "validateHostPort a False = Inr u \<Longrightarrow> validateHostPort a True = Inr u"
  by (fastforce simp: validateHostPort_iff)

lemma Atoi_port:
  assumes "1 \<le> n" "n \<le> 65535"
  shows "Atoi p = Some n \<longleftrightarrow>
    (\<exists>ds. (p = ds \<or> p = CHR ''+'' # ds) \<and> ds \<noteq> [] \<and> list_all is_digit ds \<and> digits_value ds = n)"
proof (cases p)
  case (Cons c cs)
  consider "c = CHR ''-''" | "c = CHR ''+''" | "c \<noteq> CHR ''-''" "c \<noteq> CHR ''+''" by blast
  then show ?thesis
  proof cases
    case 1
    then show ?thesis
      using assms Cons digits_value_nonneg [of cs]
      by (auto simp: Atoi_def parse_digits_def split: if_splits)
  next
    case 2
    then show ?thesis
      using assms Cons by (auto simp: Atoi_def parse_digits_def split: if_splits)
  next
    case 3
    then show ?thesis
      using assms Cons by (auto simp: Atoi_def parse_digits_def split: if_splits)
  qed
qed (auto simp: Atoi_def)

lemma splitMapping_iff:
  "splitMapping v = Inr (r, a) \<longleftrightarrow> v = r @ CHR ''='' # a \<and> CHR ''='' \<notin> set r \<and> r \<noteq> [] \<and> a \<noteq> []"
proof
  assume "splitMapping v = Inr (r, a)"
  then have "Cut (CHR ''='') v = (r, a, True)" "r \<noteq> []" "a \<noteq> []"
    by (auto simp: splitMapping_def split: prod.splits if_splits)
  then show "v = r @ CHR ''='' # a \<and> CHR ''='' \<notin> set r \<and> r \<noteq> [] \<and> a \<noteq> []"
    by (simp add: Cut_found)
qed (simp add: splitMapping_def)

lemma update_fresh: "k \<notin> fst ` set m \<Longrightarrow> AList.update k v m = m @ [(k, v)]"
  by (induction m) auto

lemma addRoutes_Inr_iff:
  "wf_map rs \<Longrightarrow> addRoutes m rs = Inr out \<longleftrightarrow>
     (\<forall>k \<in> fst ` set rs. \<not> has_key k m) \<and> out = m @ rs"
proof (induction m rs rule: addRoutes.induct)
  case (2 routes route target rs)
  then show ?case
    by (auto simp: has_key_iff update_fresh wf_map_def)
qed auto

lemma copyRoutes_Inr_iff:
  "wf_map rs \<Longrightarrow> fst ` set m \<inter> fst ` set rs = {} \<Longrightarrow>
   copyRoutes m rs = Inr out \<longleftrightarrow> (\<forall>rt \<in> set rs. checkRoute rt = Inr ()) \<and> out = m @ rs"
proof (induction m rs rule: copyRoutes.induct)
  case (2 out' route target rs)
  have "copyRoutes (AList.update route target out') rs = Inr out \<longleftrightarrow>
    (\<forall>rt \<in> set rs. checkRoute rt = Inr ()) \<and> out = AList.update route target out' @ rs"
    if "checkRoute (route, target) = Inr ()"
    using "2.prems" that by (intro "2.IH") (auto simp: wf_map_def update_fresh)
  moreover have "AList.update route target out' = out' @ [(route, target)]"
    using "2.prems" by (intro update_fresh) auto
  ultimately show ?case
    by (cases "checkRoute (route, target)") auto
qed auto

definition wf_routes :: "string gomap gomap \<Rightarrow> bool" where
  "wf_routes m \<longleftrightarrow> wf_map m \<and> (\<forall>(c, rs) \<in> set m. wf_map rs)"

lemma copyClientRoutes_Inr_iff:
  "wf_routes crs \<Longrightarrow> fst ` set m \<inter> fst ` set crs = {} \<Longrightarrow>
   copyClientRoutes seen m crs = Inr out \<longleftrightarrow>
     (\<forall>(c, rs) \<in> set crs. c \<in> set seen \<and> rs \<noteq> [] \<and> (\<forall>rt \<in> set rs. checkRoute rt = Inr ())) \<and>
     out = m @ crs"
proof (induction seen m crs rule: copyClientRoutes.induct)
  case (2 seen m c rs rest)
  have wf: "wf_map rs" and m: "AList.update c rs m = m @ [(c, rs)]"
    using "2.prems" by (auto simp: wf_routes_def intro: update_fresh)
  have IH: "copyClientRoutes seen (AList.update c rs m) rest = Inr out \<longleftrightarrow>
    (\<forall>(c, rs) \<in> set rest. c \<in> set seen \<and> rs \<noteq> [] \<and> (\<forall>rt \<in> set rs. checkRoute rt = Inr ())) \<and>
     out = AList.update c rs m @ rest"
    if "c \<in> set seen" "rs \<noteq> []"
    using "2.prems" that by (intro "2.IH") (auto simp: wf_routes_def wf_map_def m)
  show ?case
    using IH copyRoutes_Inr_iff [OF wf, of "[]"]
    by (auto simp: bind_result_Inr_iff m)
qed auto

section \<open>Properties of the configuration layer\<close>

text \<open>C28: The addresses mule accepts, as a grammar: \<open>host:port\<close> with a host free of colons and
  brackets, or \<open>[host]:port\<close>; the port is decimal digits, optionally after a plus sign, with a
  value from 1 to 65535; the host may be empty only where a listen address is expected.\<close>

theorem validateHostPort_grammar:
  "validateHostPort addr allowEmptyHost = Inr () \<longleftrightarrow>
     (\<exists>host port ds. host_port_text addr host port \<and> (0 < length host \<or> allowEmptyHost) \<and>
        (port = ds \<or> port = CHR ''+'' # ds) \<and> 0 < length ds \<and> list_all is_digit ds \<and>
        1 \<le> digits_value ds \<and> digits_value ds \<le> 65535)" (is "?L \<longleftrightarrow> ?R")
proof
  assume ?L
  then obtain h p n where a: "host_port_text addr h p" "h \<noteq> [] \<or> allowEmptyHost"
    and p: "Atoi p = Some n" and n: "1 \<le> n" "n \<le> 65535"
    by (auto simp: validateHostPort_iff)
  from p obtain ds where "p = ds \<or> p = CHR ''+'' # ds" "ds \<noteq> []" "list_all is_digit ds"
    "digits_value ds = n"
    by (auto simp: Atoi_port [OF n])
  with a n show ?R
    by (intro exI [of _ h] exI [of _ p] exI [of _ ds]) auto
next
  assume ?R
  then obtain h p ds where a: "host_port_text addr h p" "h \<noteq> [] \<or> allowEmptyHost"
    and ds: "p = ds \<or> p = CHR ''+'' # ds" "ds \<noteq> []" "list_all is_digit ds"
    and n: "1 \<le> digits_value ds" "digits_value ds \<le> 65535"
    by auto
  have "Atoi p = Some (digits_value ds)"
    using ds by (auto simp: Atoi_port [OF n])
  with a n show ?L
    unfolding validateHostPort_iff by blast
qed

lemma checkRoute_iff [result_iff]:
  "checkRoute rt = Inr u \<longleftrightarrow> routeIDPattern (fst rt) \<and> ValidateTCPAddress (snd rt) = Inr ()"
  by (simp add: checkRoute_def result_iff)

lemma ValidateTCPAddress_nonempty: "ValidateTCPAddress t = Inr u \<Longrightarrow> t \<noteq> []"
  by (auto simp: ValidateTCPAddress_def dest: validateHostPort_nonempty)

text \<open>The \<open>client:route=target\<close> flag is parsed exactly: it is accepted with parts
  \<open>c\<close>, \<open>r\<close>, \<open>t\<close> if and only if it is their concatenation with the separators and each part is
  valid, so no flag has two readings and no part swallows a separator.\<close>

lemma ParseClientRouteTarget_exact:
  "ParseClientRouteTarget v = Inr (c, r, t) \<longleftrightarrow>
     v = c @ CHR '':'' # r @ CHR ''='' # t \<and>
     clientIDPattern c \<and> routeIDPattern r \<and> ValidateTCPAddress t = Inr ()" (is "?L \<longleftrightarrow> ?R")
proof
  assume ?L
  then obtain left t' where l: "splitMapping v = Inr (left, t')"
    by (auto simp: ParseClientRouteTarget_def bind_result_Inr_iff)
  obtain c' r' ok where cut: "Cut (CHR '':'') left = (c', r', ok)"
    by (cases "Cut (CHR '':'') left") auto
  from \<open>?L\<close> l cut have "ok" "c' = c" "r' = r" "t' = t"
    and v: "clientIDPattern c" "routeIDPattern r" "ValidateTCPAddress t = Inr ()"
    by (auto simp: ParseClientRouteTarget_def result_iff split: if_splits)
  with l cut show ?R
    by (auto simp: splitMapping_iff Cut_found)
next
  assume R: ?R
  then have "splitMapping v = Inr (c @ CHR '':'' # r, t)"
    using client_eq.sep_free route_eq.sep_free ValidateTCPAddress_nonempty [of t]
    by (auto simp: splitMapping_iff)
  with R show ?L
    using client_colon.cut_print [of c r]
    by (auto simp: ParseClientRouteTarget_def result_iff dest: pattern_nonempty)
qed

lemma ParseRouteTarget_exact:
  "ParseRouteTarget v = Inr (r, t) \<longleftrightarrow>
     v = r @ CHR ''='' # t \<and> routeIDPattern r \<and> ValidateTCPAddress t = Inr ()"
  using route_eq.sep_free [of r] pattern_nonempty(1) [of r] ValidateTCPAddress_nonempty [of t]
  by (auto simp: ParseRouteTarget_def result_iff splitMapping_iff)

lemma ParseRouteListen_exact:
  "ParseRouteListen v = Inr l \<longleftrightarrow>
     v = Route l @ CHR ''='' # Address l \<and> routeIDPattern (Route l) \<and>
     ValidateListenAddress (Address l) = Inr ()"
  using route_eq.sep_free [of "Route l"] pattern_nonempty(1) [of "Route l"]
    validateHostPort_nonempty [of "Address l" True]
  by (cases l) (auto simp: ParseRouteListen_def result_iff splitMapping_iff ValidateListenAddress_def)

lemma ParseClient_exact:
  "ParseClient v = Inr c \<longleftrightarrow>
     v = ClientID c @ CHR ''='' # ClientSecretFile c \<and> clientIDPattern (ClientID c) \<and>
     ClientSecretFile c \<noteq> []"
  using client_eq.sep_free [of "ClientID c"] pattern_nonempty(2) [of "ClientID c"]
  by (cases c) (auto simp: ParseClient_def result_iff splitMapping_iff)

text \<open>\<open>NormalizeForwardListens\<close> succeeds exactly when there is a listener, every listener has a
  valid route and listen address and no route occurs twice (the default listener included); the
  result is the default listener followed by the configured ones, in order.\<close>

lemma NormalizeForwardListens_exact:
  "NormalizeForwardListens cfg = Inr out \<longleftrightarrow>
     out = (if ListenTCP cfg = [] then [] else [\<lparr>Route = ''default'', Address = ListenTCP cfg\<rparr>]) @ Listens cfg \<and>
     0 < length out \<and> distinct (map Route out) \<and>
     list_all (\<lambda>l. routeIDPattern (Route l) \<and> ValidateListenAddress (Address l) = Inr ()) out"
  by (auto simp: NormalizeForwardListens_def Let_def DefaultRoute_def result_iff each_distinct_iff
      list_all_iff)

lemma NormalizeExitRoutes_iff:
  assumes "wf_map (Routes cfg)"
  shows "NormalizeExitRoutes cfg = Inr out \<longleftrightarrow>
    \<not> MultiClientMode cfg \<and> \<not> (Target cfg \<noteq> [] \<and> has_key DefaultRoute (Routes cfg)) \<and>
    out = (if Target cfg \<noteq> [] then [(DefaultRoute, Target cfg)] else []) @ Routes cfg \<and>
    out \<noteq> [] \<and> (\<forall>rt \<in> set out. checkRoute rt = Inr ())"
  by (auto simp: NormalizeExitRoutes_def Let_def bind_result_Inr_iff addRoutes_Inr_iff [OF assms]
      each_Inr_iff has_key_iff rev_image_eqI)

text \<open>C29: The verdict of \<open>NormalizeExitRoutes\<close> and the table it returns do not depend on the order
  in which Go ranges over the configured routes: two enumerations of the same routes are both
  accepted, with the same table, or both refused.\<close>

theorem NormalizeExitRoutes_order:
  assumes "same_map (Routes cfg) rs"
  shows "is_ok (NormalizeExitRoutes cfg) = is_ok (NormalizeExitRoutes (cfg\<lparr>Routes := rs\<rparr>)) \<and>
    (\<forall>out out'. NormalizeExitRoutes cfg = Inr out \<longrightarrow>
       NormalizeExitRoutes (cfg\<lparr>Routes := rs\<rparr>) = Inr out' \<longrightarrow> same_map out out')"
proof -
  have wf: "wf_map (Routes cfg)" "wf_map (Routes (cfg\<lparr>Routes := rs\<rparr>))" and set: "set (Routes cfg) = set rs"
    using assms by (auto simp: same_map_def)
  note iff = NormalizeExitRoutes_iff [OF wf(1)] NormalizeExitRoutes_iff [OF wf(2)]
  have "(\<exists>out. NormalizeExitRoutes cfg = Inr out) \<longleftrightarrow>
    (\<exists>out. NormalizeExitRoutes (cfg\<lparr>Routes := rs\<rparr>) = Inr out)"
    using set by (auto simp: iff has_key_iff MultiClientMode_def simp flip: set_empty)
  moreover have "same_map out out'"
    if "NormalizeExitRoutes cfg = Inr out" "NormalizeExitRoutes (cfg\<lparr>Routes := rs\<rparr>) = Inr out'" for out out'
    using that set wf by (auto simp: iff same_map_def wf_map_def has_key_iff)
  ultimately show ?thesis
    by (auto simp: is_ok_iff)
qed

definition sampleExit :: ExitCfg where
  "sampleExit = \<lparr>SecretFile = ''k'', LogFormat = ''text'', LogLevel = ''info'', MetricsListen = [],
     ShutdownTimeout = 30, ListenUDP = '':4400'', Target = ''127.0.0.1:80'',
     Routes = [(''ssh'', ''10.0.0.1:22''), (''db'', ''[::1]:5432'')], Clients = [], ClientRoutes = [],
     ExitDialTimeout = 1, ExitHandshakeTimeout = 1, ExitIdleTimeout = 1, MaxStreams = 1,
     MaxPendingDials = 1, ExitKeepAlive = 1\<rparr>"

theorem NormalizeExitRoutes_order_witness:
  "is_ok (NormalizeExitRoutes (sampleExit\<lparr>Routes := [(''db'', ''[::1]:5432''), (''ssh'', ''10.0.0.1:22'')]\<rparr>))"
proof -
  have "same_map (Routes sampleExit) [(''db'', ''[::1]:5432''), (''ssh'', ''10.0.0.1:22'')]"
    by (auto simp: same_map_def wf_map_def sampleExit_def)
  note order = NormalizeExitRoutes_order [OF this]
  have "is_ok (NormalizeExitRoutes sampleExit)"
    by code_simp
  with order show ?thesis by simp
qed

text \<open>C30: In multi-client mode \<open>NormalizeClientRoutes\<close> accepts exactly the configurations in which
  every client has a valid, unique identifier and a secret file, every client has at least one
  route, every route belongs to a configured client and every route is valid; it then returns the
  configured table unchanged.\<close>

theorem NormalizeClientRoutes_exact:
  assumes "wf_routes (ClientRoutes cfg)"
  shows "NormalizeClientRoutes cfg = Inr out \<longleftrightarrow>
    Clients cfg \<noteq> [] \<and> SecretFile cfg = [] \<and> Target cfg = [] \<and> Routes cfg = [] \<and>
    distinct (map ClientID (Clients cfg)) \<and>
    (\<forall>c \<in> set (Clients cfg). clientIDPattern (ClientID c) \<and> ClientSecretFile c \<noteq> []) \<and>
    fst ` set (ClientRoutes cfg) = ClientID ` set (Clients cfg) \<and>
    (\<forall>(c, rs) \<in> set (ClientRoutes cfg). rs \<noteq> [] \<and>
       (\<forall>(r, t) \<in> set rs. routeIDPattern r \<and> ValidateTCPAddress t = Inr ())) \<and>
    out = ClientRoutes cfg"
proof -
  define valid where "valid \<longleftrightarrow> (\<forall>(c, rs) \<in> set (ClientRoutes cfg). rs \<noteq> [] \<and>
    (\<forall>(r, t) \<in> set rs. routeIDPattern r \<and> ValidateTCPAddress t = Inr ()))"
  have "copyClientRoutes ids [] (ClientRoutes cfg) = Inr m \<longleftrightarrow>
    (\<forall>(c, rs) \<in> set (ClientRoutes cfg). c \<in> set ids \<and> rs \<noteq> [] \<and>
       (\<forall>(r, t) \<in> set rs. routeIDPattern r \<and> ValidateTCPAddress t = Inr ())) \<and>
    m = ClientRoutes cfg" for ids m
    by (subst copyClientRoutes_Inr_iff [OF assms]) (simp_all add: result_iff case_prod_beta)
  then have copy: "copyClientRoutes ids [] (ClientRoutes cfg) = Inr m \<longleftrightarrow>
    fst ` set (ClientRoutes cfg) \<subseteq> set ids \<and> valid \<and> m = ClientRoutes cfg" for ids m
    by (auto simp: valid_def)
  have present: "(case map_of (ClientRoutes cfg) k of None \<Rightarrow> False | Some rs \<Rightarrow> length rs \<noteq> 0) \<longleftrightarrow>
    k \<in> fst ` set (ClientRoutes cfg)"
    if "valid" for k
  proof (cases "map_of (ClientRoutes cfg) k")
    case None
    then have "k \<notin> fst ` set (ClientRoutes cfg)" by (simp only: map_of_eq_None_iff simp_thms)
    with None show ?thesis by simp
  next
    case (Some rs)
    then have "(k, rs) \<in> set (ClientRoutes cfg)" by (rule map_of_SomeD)
    with that Some show ?thesis by (auto simp: rev_image_eqI valid_def)
  qed
  have all: "each (\<lambda>c. ensure (case map_of (ClientRoutes cfg) (ClientID c) of None \<Rightarrow> False
      | Some rs \<Rightarrow> length rs \<noteq> 0) (ClientHasNoRoutes (ClientID c))) (Clients cfg) = Inr u \<longleftrightarrow>
    ClientID ` set (Clients cfg) \<subseteq> fst ` set (ClientRoutes cfg)" if "valid" for u
    unfolding each_Inr_iff ensure_Inr_iff present [OF that] by blast
  show ?thesis
  proof (cases valid)
    case True
    show ?thesis
      unfolding NormalizeClientRoutes_def valid_def [symmetric]
      by (auto simp: bind_result_Inr_iff ensure_Inr_iff ValidateClientID_iff each_distinct_iff copy all [OF True] True)
  next
    case False
    then have "copyClientRoutes ids [] (ClientRoutes cfg) \<noteq> Inr m" for ids m
      by (simp add: copy)
    then have "NormalizeClientRoutes cfg \<noteq> Inr out"
      unfolding NormalizeClientRoutes_def by (simp add: bind_result_Inr_iff)
    with False show ?thesis unfolding valid_def [symmetric] by blast
  qed
qed

definition sampleMulti :: ExitCfg where
  "sampleMulti = sampleExit\<lparr>SecretFile := [], Target := [], Routes := [],
     Clients := [\<lparr>ClientID = ''a-1'', ClientSecretFile = ''/k''\<rparr>],
     ClientRoutes := [(''a-1'', [(''web'', ''127.0.0.1:80'')])]\<rparr>"

theorem NormalizeClientRoutes_exact_witness:
  "NormalizeClientRoutes sampleMulti = Inr [(''a-1'', [(''web'', ''127.0.0.1:80'')])]"
proof -
  have wf: "wf_routes (ClientRoutes sampleMulti)"
    by (simp add: wf_routes_def wf_map_def sampleMulti_def)
  have v: "clientIDPattern ''a-1''" "routeIDPattern ''web''"
    by (simp_all add: clientIDPattern_def routeIDPattern_def alnum_def)
  have t: "ValidateTCPAddress ''127.0.0.1:80'' = Inr ()"
    by code_simp
  show ?thesis
    unfolding NormalizeClientRoutes_exact [OF wf]
    by (simp add: sampleMulti_def sampleExit_def v t)
qed

end
