(* ===== verification/Go_Encoding.thy ===== *)
theory Go_Encoding
  imports Go_Strings
begin

text \<open>
  The decoders that \<open>internal/auth\<close> applies to a secret: \<open>strings.TrimSpace\<close>,
  \<open>encoding/hex\<close> and \<open>encoding/base64\<close> (\<open>StdEncoding\<close> with padding and \<open>RawStdEncoding\<close>
  without), as Go's library computes them, with the round trips that key generation relies on.
\<close>

section \<open>strings.TrimSpace\<close>

text \<open>
  White space is what \<open>unicode.IsSpace\<close> accepts, in UTF-8: six ASCII characters, U+0085 and
  U+00A0 (two bytes), and U+1680, U+2000 to U+200A, U+2028, U+2029, U+202F, U+205F and U+3000
  (three bytes).
\<close>

definition ascii_space :: "char \<Rightarrow> bool" where
  "ascii_space c \<longleftrightarrow> (of_char c :: nat) \<in> {9, 10, 11, 12, 13, 32}"

definition space2 :: "char \<Rightarrow> char \<Rightarrow> bool" where
  "space2 a b \<longleftrightarrow> (of_char a :: nat) = 194 \<and> ((of_char b :: nat) = 133 \<or> (of_char b :: nat) = 160)"

definition space3 :: "char \<Rightarrow> char \<Rightarrow> char \<Rightarrow> bool" where
  "space3 a b c = (let x = (of_char a :: nat); y = (of_char b :: nat); z = (of_char c :: nat) in
     x = 225 \<and> y = 154 \<and> z = 128 \<or>
     x = 226 \<and> y = 128 \<and> (128 \<le> z \<and> z \<le> 138 \<or> z = 168 \<or> z = 169 \<or> z = 175) \<or>
     x = 226 \<and> y = 129 \<and> z = 159 \<or>
     x = 227 \<and> y = 128 \<and> z = 128)"

fun trimLeft :: "string \<Rightarrow> string" where
  "trimLeft [] = []"
| "trimLeft (a # s) =
     (if ascii_space a then trimLeft s
      else case s of
          b # t \<Rightarrow>
            if space2 a b then trimLeft t
            else (case t of c # u \<Rightarrow> if space3 a b c then trimLeft u else a # s | [] \<Rightarrow> a # s)
        | [] \<Rightarrow> a # s)"

text \<open>The same from the end, on the reversed string.\<close>

fun trimRev :: "string \<Rightarrow> string" where
  "trimRev [] = []"
| "trimRev (a # s) =
     (if ascii_space a then trimRev s
      else case s of
          b # t \<Rightarrow>
            if space2 b a then trimRev t
            else (case t of c # u \<Rightarrow> if space3 c b a then trimRev u else a # s | [] \<Rightarrow> a # s)
        | [] \<Rightarrow> a # s)"

definition TrimSpace :: "string \<Rightarrow> string" where
  "TrimSpace s = rev (trimRev (rev (trimLeft s)))"

text \<open>A string whose first and last characters are printable ASCII is left alone.\<close>

definition graphic :: "char \<Rightarrow> bool" where
  "graphic c \<longleftrightarrow> 33 \<le> (of_char c :: nat) \<and> (of_char c :: nat) \<le> 126"

lemma graphic_not_space:
  "graphic a \<Longrightarrow> \<not> ascii_space a" "graphic a \<Longrightarrow> \<not> space2 a b" "graphic a \<Longrightarrow> \<not> space2 b a"
  "graphic a \<Longrightarrow> \<not> space3 a b c" "graphic a \<Longrightarrow> \<not> space3 c b a"
  by (auto simp: graphic_def ascii_space_def space2_def space3_def Let_def)

lemma trimLeft_graphic: "graphic a \<Longrightarrow> trimLeft (a # s) = a # s"
  by (simp add: graphic_not_space split: list.split)

lemma trimRev_graphic: "graphic a \<Longrightarrow> trimRev (a # s) = a # s"
  by (simp add: graphic_not_space split: list.split)

lemma TrimSpace_graphic:
  assumes "list_all graphic s" "list_all ascii_space w" "s \<noteq> []"
  shows "TrimSpace (s @ w) = s"
proof -
  obtain a t where s: "s = a # t" using assms(3) by (cases s) auto
  obtain b u where r: "rev s = b # u" using assms(3) by (cases "rev s") auto
  have "graphic a" using assms(1) by (simp add: s)
  then have "trimLeft (s @ w) = s @ w" by (simp add: s trimLeft_graphic del: trimLeft.simps)
  moreover have "b \<in> set s" using r by (metis list.set_intros(1) set_rev)
  then have "graphic b" using assms(1) by (simp add: list_all_iff)
  then have "trimRev (rev s) = rev s" by (simp add: r trimRev_graphic del: trimRev.simps)
  moreover have "trimRev (v @ rev s) = trimRev (rev s)" if "list_all ascii_space v" for v
    using that by (induction v) auto
  ultimately show ?thesis
    using assms(2) by (simp add: TrimSpace_def list_all_iff)
qed

section \<open>Hexadecimal\<close>

definition fromHexChar :: "char \<Rightarrow> nat option" where
  "fromHexChar c = (let n = (of_char c :: nat) in
     if 48 \<le> n \<and> n \<le> 57 then Some (n - 48)
     else if 97 \<le> n \<and> n \<le> 102 then Some (n - 87)
     else if 65 \<le> n \<and> n \<le> 70 then Some (n - 55)
     else None)"

fun hex_DecodeString :: "string \<Rightarrow> bytes option" where
  "hex_DecodeString [] = Some []"
| "hex_DecodeString [a] = None"
| "hex_DecodeString (a # b # s) =
     (case (fromHexChar a, fromHexChar b, hex_DecodeString s) of
        (Some h, Some l, Some bs) \<Rightarrow> Some (word_of_nat (16 * h + l) # bs)
      | _ \<Rightarrow> None)"

definition hexDigit :: "nat \<Rightarrow> char" where
  "hexDigit n = ''0123456789abcdef'' ! n"

definition hex_EncodeToString :: "bytes \<Rightarrow> string" where
  "hex_EncodeToString bs = concat (map (\<lambda>b. [hexDigit (unat b div 16), hexDigit (unat b mod 16)]) bs)"

lemma fromHexChar_hexDigit: "n < 16 \<Longrightarrow> fromHexChar (hexDigit n) = Some n"
proof -
  have "\<forall>n \<in> set [0..<16]. fromHexChar (hexDigit n) = Some n"
    by (simp add: upt_rec fromHexChar_def hexDigit_def)
  then show "n < 16 \<Longrightarrow> fromHexChar (hexDigit n) = Some n" by simp
qed

lemma hex_roundtrip: "hex_DecodeString (hex_EncodeToString bs) = Some bs"
proof (induction bs)
  case (Cons b bs)
  have "unat b < 256" using unsigned_less [of b] by simp
  then have "unat b div 16 < 16" "unat b mod 16 < 16" by auto
  with Cons show ?case
    by (simp add: hex_EncodeToString_def fromHexChar_hexDigit)
qed (simp add: hex_EncodeToString_def)

lemma length_hex_EncodeToString [simp]: "length (hex_EncodeToString bs) = 2 * length bs"
  by (induction bs) (simp_all add: hex_EncodeToString_def)

lemma hex_DecodeString_length: "hex_DecodeString s = Some bs \<Longrightarrow> length s = 2 * length bs"
  by (induction s arbitrary: bs rule: hex_DecodeString.induct) (auto split: option.splits)

lemma hex_DecodeString_chars:
  "hex_DecodeString s = Some bs \<Longrightarrow> c \<in> set s \<Longrightarrow> fromHexChar c \<noteq> None"
  by (induction s arbitrary: bs rule: hex_DecodeString.induct) (auto split: option.splits)

section \<open>Base64\<close>

definition b64_alphabet :: string where
  "b64_alphabet = ''ABCDEFGHIJKLMNOPQRSTUVWXYZabcdefghijklmnopqrstuvwxyz0123456789+/''"

definition b64_char :: "nat \<Rightarrow> char" where
  "b64_char n = b64_alphabet ! n"

definition b64_value :: "char \<Rightarrow> nat option" where
  "b64_value c = (let n = (of_char c :: nat) in
     if 65 \<le> n \<and> n \<le> 90 then Some (n - 65)
     else if 97 \<le> n \<and> n \<le> 122 then Some (n - 71)
     else if 48 \<le> n \<and> n \<le> 57 then Some (n + 4)
     else if n = 43 then Some 62
     else if n = 47 then Some 63
     else None)"

fun b64_encode :: "bytes \<Rightarrow> string" where
  "b64_encode [] = []"
| "b64_encode [a] =
     (let v = unat a * 65536 in [b64_char (v div 262144), b64_char (v div 4096 mod 64), CHR ''='', CHR ''=''])"
| "b64_encode [a, b] =
     (let v = unat a * 65536 + unat b * 256
      in [b64_char (v div 262144), b64_char (v div 4096 mod 64), b64_char (v div 64 mod 64), CHR ''=''])"
| "b64_encode (a # b # c # r) =
     (let v = unat a * 65536 + unat b * 256 + unat c
      in [b64_char (v div 262144), b64_char (v div 4096 mod 64), b64_char (v div 64 mod 64),
          b64_char (v mod 64)] @ b64_encode r)"

definition b64_bytes :: "nat \<Rightarrow> nat \<Rightarrow> nat \<Rightarrow> nat \<Rightarrow> bytes" where
  "b64_bytes w x y z =
     (let v = w * 262144 + x * 4096 + y * 64 + z
      in [word_of_nat (v div 65536), word_of_nat (v div 256), word_of_nat v])"

text \<open>
  One quantum is four characters. Padding ends the input. Without padding (\<open>padded = False\<close>)
  the last quantum may have two or three characters and the pad character is an error. Trailing
  bits of a short quantum are ignored, as in Go's non-strict mode.
\<close>

fun b64_quanta :: "bool \<Rightarrow> string \<Rightarrow> bytes option" where
  "b64_quanta padded [] = Some []"
| "b64_quanta padded [a] = None"
| "b64_quanta padded [a, b] =
     (if padded then None
      else case (b64_value a, b64_value b) of
          (Some w, Some x) \<Rightarrow> Some (take 1 (b64_bytes w x 0 0))
        | _ \<Rightarrow> None)"
| "b64_quanta padded [a, b, c] =
     (if padded then None
      else case (b64_value a, b64_value b, b64_value c) of
          (Some w, Some x, Some y) \<Rightarrow> Some (take 2 (b64_bytes w x y 0))
        | _ \<Rightarrow> None)"
| "b64_quanta padded (a # b # c # d # r) =
     (case (b64_value a, b64_value b, b64_value c, b64_value d) of
        (Some w, Some x, Some y, Some z) \<Rightarrow> map_option (\<lambda>bs. b64_bytes w x y z @ bs) (b64_quanta padded r)
      | (Some w, Some x, Some y, None) \<Rightarrow>
          if padded \<and> d = CHR ''='' \<and> r = [] then Some (take 2 (b64_bytes w x y 0)) else None
      | (Some w, Some x, None, _) \<Rightarrow>
          if padded \<and> c = CHR ''='' \<and> d = CHR ''='' \<and> r = [] then Some (take 1 (b64_bytes w x 0 0)) else None
      | _ \<Rightarrow> None)"

text \<open>Line breaks are skipped wherever they occur.\<close>

definition b64_decode :: "bool \<Rightarrow> string \<Rightarrow> bytes option" where
  "b64_decode padded s = b64_quanta padded (filter (\<lambda>c. c \<noteq> CHR 0x0A \<and> c \<noteq> CHR 0x0D) s)"

lemma b64_value_char: "n < 64 \<Longrightarrow> b64_value (b64_char n) = Some n"
proof -
  have "\<forall>n \<in> set [0..<64]. b64_value (b64_char n) = Some n"
    by (simp add: upt_rec b64_value_def b64_char_def b64_alphabet_def)
  then show "n < 64 \<Longrightarrow> b64_value (b64_char n) = Some n" by simp
qed

lemma sextets:
  "v div 262144 * 262144 + v div 4096 mod 64 * 4096 + v div 64 mod 64 * 64 + v mod 64 = v"
  for v :: nat
proof -
  have e: "v div 64 div 64 = v div 4096" "v div 4096 div 64 = v div 262144"
    by (simp_all flip: div_mult2_eq)
  from div_mult_mod_eq [of v 64] div_mult_mod_eq [of "v div 64" 64, unfolded e]
    div_mult_mod_eq [of "v div 4096" 64, unfolded e]
  show ?thesis by linarith
qed

lemma b64_bytes_sextets:
  fixes a b c :: byte
  defines "v \<equiv> unat a * 65536 + unat b * 256 + unat c"
  shows "b64_bytes (v div 262144) (v div 4096 mod 64) (v div 64 mod 64) (v mod 64) = [a, b, c]"
    and "v div 262144 < 64"
proof -
  have lt: "unat a < 256" "unat b < 256" "unat c < 256"
    using unsigned_less [of a] unsigned_less [of b] unsigned_less [of c] by simp_all
  have "v div 65536 = unat a" "v div 256 = unat a * 256 + unat b"
    using lt by (simp_all add: v_def)
  moreover have "v = 256 * (unat a * 256 + unat b) + unat c"
    by (simp add: v_def)
  then have "v mod 256 = unat c"
    using lt by (simp only: mod_mult_self4 mod_less)
  moreover have "(unat a * 256 + unat b) mod 256 = unat b"
    using lt by simp
  moreover have "unat (word_of_nat n :: byte) = n mod 256" for n
    by (simp add: unat_of_nat take_bit_eq_mod)
  ultimately have "unat (word_of_nat (v div 65536) :: byte) = unat a"
    "unat (word_of_nat (v div 256) :: byte) = unat b" "unat (word_of_nat v :: byte) = unat c"
    using lt by (simp_all only: mod_less)
  then show "b64_bytes (v div 262144) (v div 4096 mod 64) (v div 64 mod 64) (v mod 64) = [a, b, c]"
    unfolding b64_bytes_def sextets Let_def by (simp only: word_unat_eq_iff list.inject simp_thms)
  show "v div 262144 < 64"
    using lt by (simp add: v_def)
qed

lemma b64_char_not_pad: "n < 64 \<Longrightarrow> b64_char n \<noteq> CHR ''=''"
  using b64_value_char [of n] by (auto simp: b64_value_def)

lemma b64_pad_value [simp]: "b64_value (CHR ''='') = None"
  by (simp add: b64_value_def)

lemma b64_quanta_encode: "b64_quanta True (b64_encode bs) = Some bs"
proof (induction bs rule: b64_encode.induct)
  case (2 a)
  show ?case
    using b64_bytes_sextets [of a 0 0] by (simp add: Let_def b64_value_char)
next
  case (3 a b)
  have "(unat a * 65536 + unat b * 256) mod 64 = 0"
    by presburger
  then show ?case
    using b64_bytes_sextets [of a b 0] by (simp add: Let_def b64_value_char)
next
  case (4 a b c r)
  then show ?case
    using b64_bytes_sextets [of a b c] by (simp add: Let_def b64_value_char)
qed simp

lemma graphic_b64_char: "n < 64 \<Longrightarrow> graphic (b64_char n)"
  using b64_value_char [of n] by (auto simp: b64_value_def graphic_def Let_def split: if_splits)

lemma graphic_pad: "graphic (CHR ''='')"
  by (simp add: graphic_def)

lemma b64_encode_graphic: "list_all graphic (b64_encode bs)"
proof (induction bs rule: b64_encode.induct)
  case (2 a)
  then show ?case
    using b64_bytes_sextets(2) [of a 0 0] by (simp add: Let_def graphic_b64_char graphic_pad)
next
  case (3 a b)
  then show ?case
    using b64_bytes_sextets(2) [of a b 0] by (simp add: Let_def graphic_b64_char graphic_pad)
next
  case (4 a b c r)
  then show ?case
    using b64_bytes_sextets(2) [of a b c] by (simp add: Let_def graphic_b64_char)
qed simp

lemma b64_encode_no_newline:
  "filter (\<lambda>c. c \<noteq> CHR 0x0A \<and> c \<noteq> CHR 0x0D) (b64_encode bs) = b64_encode bs"
proof -
  have "graphic c \<Longrightarrow> c \<noteq> CHR 0x0A \<and> c \<noteq> CHR 0x0D" for c
    by (auto simp: graphic_def)
  with b64_encode_graphic [of bs] show ?thesis
    by (auto simp: filter_id_conv list_all_iff)
qed

lemma b64_roundtrip: "b64_decode True (b64_encode bs) = Some bs"
  by (simp add: b64_decode_def b64_encode_no_newline b64_quanta_encode)

text \<open>An encoding whose length is not a multiple of three ends with the pad character.\<close>

lemma b64_encode_pad: "length bs mod 3 \<noteq> 0 \<Longrightarrow> CHR ''='' \<in> set (b64_encode bs)"
  by (induction bs rule: b64_encode.induct) (simp_all add: Let_def mod_Suc split: if_splits)

lemma b64_encode_nonempty: "bs \<noteq> [] \<Longrightarrow> b64_encode bs \<noteq> []"
  by (cases bs rule: b64_encode.cases) (simp_all add: Let_def)

text \<open>What is left of an encoding when its last pad character is cut off still decodes.\<close>

lemma length_b64_encode: "length (b64_encode bs) = 4 * ((length bs + 2) div 3)"
proof (induction bs rule: b64_encode.induct)
  case (4 a b c r)
  have "(5 + length r) div 3 = Suc ((2 + length r) div 3)" by presburger
  with 4 show ?case by (simp add: Let_def)
qed (simp_all add: Let_def)

lemma b64_quanta_unpadded:
  "length bs mod 3 = 2 \<Longrightarrow> b64_quanta False (butlast (b64_encode bs)) = Some bs"
proof (induction bs rule: b64_encode.induct)
  case (3 a b)
  have "(unat a * 65536 + unat b * 256) mod 64 = 0"
    by presburger
  then show ?case
    using b64_bytes_sextets [of a b 0] by (simp add: Let_def b64_value_char)
next
  case (4 a b c r)
  then have "r \<noteq> []" "length r mod 3 = 2"
    by (auto simp: mod_Suc split: if_splits)
  with 4 b64_encode_nonempty [of r] show ?case
    using b64_bytes_sextets [of a b c] by (simp add: Let_def b64_value_char)
qed simp_all

lemma b64_quanta_length: "b64_quanta p s = Some bs \<Longrightarrow> 4 * length bs \<le> 3 * length s"
proof (induction p s arbitrary: bs rule: b64_quanta.induct)
  case (5 p a b c d r)
  then show ?case
    by (fastforce simp: b64_bytes_def Let_def split: option.splits if_splits)
qed (auto simp: b64_bytes_def Let_def split: option.splits if_splits)

lemma b64_quanta_padded: "b64_quanta True s = Some bs \<Longrightarrow> length s mod 4 = 0"
proof (induction True s arbitrary: bs rule: b64_quanta.induct)
  case (5 a b c d r)
  then show ?case
    by (auto split: option.splits if_splits)
qed auto

lemma b64_decode_length: "b64_decode p s = Some bs \<Longrightarrow> 4 * length bs \<le> 3 * length s"
  using b64_quanta_length length_filter_le unfolding b64_decode_def
  by (meson le_trans mult_le_mono2)

end
