(* ===== verification/Secret.thy ===== *)
theory Secret
  imports Go_Encoding
begin

unbundle bit_operations_syntax

text \<open>
  \<open>internal/auth/secret.go\<close>: loading, decoding and generating the shared secret of an agent.
  The operating system appears as a record: the files with their type, permission bits and
  content, the platform, the file creation mask and the outcome of the system calls that can
  fail. The theorems show what an accepted secret guarantees, that a generated secret loads back,
  and that generation never overwrites a file.
\<close>

section \<open>The operating system\<close>

record file_entry =
  openable :: bool
  statable :: bool
  regular :: bool
  mode :: "32 word"
  readable :: bool
  content :: string

record os =
  goos :: string
  files :: "string \<Rightarrow> file_entry option"
  umask :: "32 word"

datatype secret_error =
    OpenSecretFile
  | StatSecretFile
  | NotRegularFile
  | PermissionsTooOpen "32 word"
  | ReadSecretFile
  | ErrSecretTooShort
  | ErrSecretEncoding
  | RandomFailed
  | CreateSecretFile
  | WriteSecretFile
  | CloseSecretFile

section \<open>Decoding\<close>

definition MinSecretBytes :: nat where "MinSecretBytes = 32"

definition validateSecret :: "bytes \<Rightarrow> secret_error + bytes" where
  "validateSecret secret =
     (if length secret < MinSecretBytes then Inl ErrSecretTooShort else Inr secret)"

definition DecodeSecret :: "string \<Rightarrow> secret_error + bytes" where
  "DecodeSecret s =
     (let s = TrimSpace s in
      if s = [] then Inl ErrSecretTooShort
      else case hex_DecodeString s of
          Some out \<Rightarrow> validateSecret out
        | None \<Rightarrow>
            (case b64_decode True s of
               Some out \<Rightarrow> validateSecret out
             | None \<Rightarrow>
                 (case b64_decode False s of
                    Some out \<Rightarrow> validateSecret out
                  | None \<Rightarrow> Inl ErrSecretEncoding)))"

section \<open>Loading and generating\<close>

text \<open>Permission bits in hexadecimal: octal 077 is \<open>0x3F\<close>, 0600 is \<open>0x180\<close>, 0400 is \<open>0x100\<close>.\<close>

definition LoadSecretFile :: "os \<Rightarrow> string \<Rightarrow> secret_error + bytes" where
  "LoadSecretFile env path =
     (case files env path of
        None \<Rightarrow> Inl OpenSecretFile
      | Some f \<Rightarrow>
          if \<not> openable f then Inl OpenSecretFile
          else if \<not> statable f then Inl StatSecretFile
          else if \<not> regular f then Inl NotRegularFile
          else if goos env \<noteq> ''windows'' \<and> mode f AND 0x3F \<noteq> 0 then Inl (PermissionsTooOpen (mode f))
          else if \<not> readable f then Inl ReadSecretFile
          else DecodeSecret (content f))"

text \<open>
  The outcomes of the calls that \<open>GenerateSecretFile\<close> makes: the bytes with which \<open>rand.Read\<close> fills a buffer (or a failure),
  whether the directory lets the file be created, how much of the text was written before a
  write error, and whether closing succeeds.
\<close>

record keygen_env =
  random :: "(nat \<Rightarrow> byte) option"
  can_create :: bool
  write_fails_after :: "nat option"
  close_fails :: bool

definition newSecretFile :: "os \<Rightarrow> string \<Rightarrow> file_entry" where
  "newSecretFile env text =
     (let m = 0x180 AND NOT (umask env) in
      \<lparr>openable = (m AND 0x100 \<noteq> 0), statable = True, regular = True, mode = m, readable = True,
       content = text\<rparr>)"

text \<open>\<open>make([]byte, MinSecretBytes)\<close>, filled.\<close>

definition freshSecret :: "(nat \<Rightarrow> byte) \<Rightarrow> bytes" where
  "freshSecret fill = map fill [0..<MinSecretBytes]"

definition GenerateSecretFile :: "keygen_env \<Rightarrow> os \<Rightarrow> string \<Rightarrow> secret_error option \<times> os" where
  "GenerateSecretFile g env path =
     (case random g of
        None \<Rightarrow> (Some RandomFailed, env)
      | Some fill \<Rightarrow>
          let encoded = b64_encode (freshSecret fill) @ [CHR 0x0A] in
          if \<not> can_create g \<or> files env path \<noteq> None then (Some CreateSecretFile, env)
          else (case write_fails_after g of
              Some k \<Rightarrow>
                (Some WriteSecretFile,
                 env\<lparr>files := (files env)(path \<mapsto> newSecretFile env (take k encoded))\<rparr>)
            | None \<Rightarrow>
                (if close_fails g then Some CloseSecretFile else None,
                 env\<lparr>files := (files env)(path \<mapsto> newSecretFile env encoded)\<rparr>)))"

section \<open>Lemmas\<close>

lemma validateSecret_iff [result_iff]:
  "validateSecret b = Inr s \<longleftrightarrow> s = b \<and> 32 \<le> length b"
  by (auto simp: validateSecret_def MinSecretBytes_def)

lemma DecodeSecret_Inr:
  "DecodeSecret t = Inr s \<Longrightarrow> 32 \<le> length s \<and>
     (hex_DecodeString (TrimSpace t) = Some s \<or> b64_decode True (TrimSpace t) = Some s \<or>
      b64_decode False (TrimSpace t) = Some s)"
  by (auto simp: DecodeSecret_def Let_def result_iff split: if_splits option.splits)

lemma hex_not_pad: "hex_DecodeString s = Some b \<Longrightarrow> CHR ''='' \<notin> set s"
  using hex_DecodeString_chars [of s b "CHR ''=''"] by (auto simp: fromHexChar_def)

lemma DecodeSecret_b64:
  assumes "length s mod 3 \<noteq> 0" "32 \<le> length s" "list_all ascii_space w"
  shows "DecodeSecret (b64_encode s @ w) = Inr s"
proof -
  have ne: "b64_encode s \<noteq> []"
    using assms(2) by (intro b64_encode_nonempty) auto
  then have "TrimSpace (b64_encode s @ w) = b64_encode s"
    using assms(3) b64_encode_graphic by (intro TrimSpace_graphic)
  moreover have "hex_DecodeString (b64_encode s) = None"
    using hex_not_pad b64_encode_pad [OF assms(1)] by (cases "hex_DecodeString (b64_encode s)") auto
  ultimately show ?thesis
    using ne assms(2) by (simp add: DecodeSecret_def b64_roundtrip validateSecret_def MinSecretBytes_def)
qed

lemma hexDigit_graphic: "n < 16 \<Longrightarrow> graphic (hexDigit n)"
  using fromHexChar_hexDigit [of n] by (auto simp: fromHexChar_def graphic_def Let_def split: if_splits)

lemma DecodeSecret_hex:
  assumes "32 \<le> length s" "list_all ascii_space w"
  shows "DecodeSecret (hex_EncodeToString s @ w) = Inr s"
proof -
  have "list_all graphic (hex_EncodeToString s)"
  proof (induction s)
    case (Cons b s)
    have "unat b < 256" using unsigned_less [of b] by simp
    then have "unat b div 16 < 16" "unat b mod 16 < 16" by auto
    with Cons show ?case by (simp add: hex_EncodeToString_def hexDigit_graphic)
  qed (simp add: hex_EncodeToString_def)
  moreover have ne: "hex_EncodeToString s \<noteq> []"
    using assms(1) length_hex_EncodeToString [of s] by fastforce
  ultimately have "TrimSpace (hex_EncodeToString s @ w) = hex_EncodeToString s"
    using assms(2) by (intro TrimSpace_graphic)
  with ne assms(1) show ?thesis
    by (simp add: DecodeSecret_def hex_roundtrip validateSecret_def MinSecretBytes_def)
qed

lemma length_freshSecret: "length (freshSecret fill) = 32"
  by (simp add: freshSecret_def MinSecretBytes_def)

lemma newSecretFile_private: "mode (newSecretFile env t) AND 0x3F = 0"
proof -
  have "(0x180 AND NOT (umask env)) AND 0x3F = (0x180 AND 0x3F) AND NOT (umask env)"
    by (simp only: ac_simps)
  also have "\<dots> = 0" by simp
  finally show ?thesis by (simp add: newSecretFile_def Let_def)
qed

lemma newSecretFile_openable:
  assumes "umask env AND 0x100 = 0"
  shows "openable (newSecretFile env t)"
proof -
  have "(0x180 AND NOT (umask env)) AND 0x100 = 0x100 AND NOT (umask env)"
    by (simp only: ac_simps) simp
  also have "\<dots> = (0x100 AND NOT (umask env)) OR (0x100 AND umask env)"
    using assms by (simp add: ac_simps)
  also have "\<dots> = 0x100"
    by (simp flip: bit.conj_disj_distrib)
  finally show ?thesis by (simp add: newSecretFile_def Let_def)
qed

text \<open>A prefix of a generated key file is refused or holds the same secret.\<close>

lemma DecodeSecret_prefix:
  assumes len: "length s = 32" and ok: "DecodeSecret (take k (b64_encode s @ [CHR 0x0A])) = Inr s'"
  shows "s' = s"
proof -
  have enc: "length (b64_encode s) = 44"
    by (simp add: length_b64_encode len)
  show ?thesis
  proof (cases "k < 44")
    case False
    then have "take k (b64_encode s @ [CHR 0x0A]) = b64_encode s @ take (k - 44) [CHR 0x0A]"
      by (simp add: enc)
    moreover have "list_all ascii_space (take (k - 44) [CHR 0x0A])"
      by (cases "k - 44") (simp_all add: ascii_space_def)
    ultimately show ?thesis
      using ok DecodeSecret_b64 [of s "take (k - 44) [CHR 0x0A]"] len by simp
  next
    case True
    then have t: "take k (b64_encode s @ [CHR 0x0A]) = take k (b64_encode s)"
      by (simp add: enc)
    have g: "list_all graphic (take k (b64_encode s))"
      using b64_encode_graphic [of s] by (auto simp: list_all_iff dest: in_set_takeD)
    have ne: "take k (b64_encode s) \<noteq> []"
    proof
      assume "take k (b64_encode s) = []"
      with ok t show False by (simp add: DecodeSecret_def TrimSpace_def)
    qed
    have trim: "TrimSpace (take k (b64_encode s)) = take k (b64_encode s)"
      using TrimSpace_graphic [OF g _ ne, of "[]"] by simp
    have alt: "32 \<le> length s'" "hex_DecodeString (take k (b64_encode s)) = Some s' \<or>
      b64_decode True (take k (b64_encode s)) = Some s' \<or>
      b64_decode False (take k (b64_encode s)) = Some s'"
      using DecodeSecret_Inr [OF ok [unfolded t]] by (simp_all add: trim)
    have "length (take k (b64_encode s)) = k"
      using True by (simp add: enc)
    then have "length s' = 32 \<and> k = 43"
      using alt hex_DecodeString_length [of "take k (b64_encode s)" s']
        b64_decode_length [of True "take k (b64_encode s)" s']
        b64_decode_length [of False "take k (b64_encode s)" s'] True
      by auto
    then have k: "k = 43" and but: "take k (b64_encode s) = butlast (b64_encode s)"
      by (simp_all add: butlast_conv_take enc)
    have nl: "filter (\<lambda>c. c \<noteq> CHR 0x0A \<and> c \<noteq> CHR 0x0D) (take k (b64_encode s)) = take k (b64_encode s)"
      using b64_encode_no_newline [of s] by (auto simp: filter_id_conv dest: in_set_takeD)
    have raw: "b64_decode False (take k (b64_encode s)) = Some s"
      using b64_quanta_unpadded [of s] len by (simp add: b64_decode_def nl) (simp add: but)
    have "b64_decode True (take k (b64_encode s)) \<noteq> Some s'"
      using b64_quanta_padded [of "take k (b64_encode s)" s'] unfolding b64_decode_def nl
      by (auto simp: enc k)
    moreover have "hex_DecodeString (take k (b64_encode s)) \<noteq> Some s'"
      using hex_DecodeString_length [of "take k (b64_encode s)"] by (auto simp: enc k) presburger
    ultimately show ?thesis
      using alt raw by simp
  qed
qed

section \<open>Properties of secret handling\<close>

definition sampleSecret :: bytes where
  "sampleSecret = map word_of_nat [0..<32]"

definition sampleOS :: os where
  "sampleOS = \<lparr>goos = ''linux'', files = [''/etc/mule/a.key'' \<mapsto>
       \<lparr>openable = True, statable = True, regular = True, mode = 0x180, readable = True,
        content = hex_EncodeToString sampleSecret\<rparr>],
     umask = 0x12\<rparr>"

lemma sampleOS_loads: "LoadSecretFile sampleOS ''/etc/mule/a.key'' = Inr sampleSecret"
proof -
  have "DecodeSecret (hex_EncodeToString sampleSecret) = Inr sampleSecret"
    using DecodeSecret_hex [of sampleSecret "[]"] by (simp add: sampleSecret_def)
  then show ?thesis
    by (simp add: LoadSecretFile_def sampleOS_def)
qed

text \<open>C21: Whatever \<open>LoadSecretFile\<close> accepts is a secret of at least 32 bytes, decoded from the
  content of a regular file that, except on Windows, grants nothing to group or others.\<close>

theorem LoadSecretFile_guarantee:
  assumes "LoadSecretFile env path = Inr s"
  shows "32 \<le> length s \<and> (\<exists>f. files env path = Some f \<and> regular f \<and>
    (goos env = ''windows'' \<or> mode f AND 0x3F = 0) \<and> DecodeSecret (content f) = Inr s)"
proof -
  from assms obtain f where f: "files env path = Some f" "DecodeSecret (content f) = Inr s"
    "regular f" "goos env = ''windows'' \<or> mode f AND 0x3F = 0"
    by (auto simp: LoadSecretFile_def split: option.splits if_splits)
  with DecodeSecret_Inr [OF f(2)] show ?thesis by blast
qed

theorem LoadSecretFile_guarantee_witness:
  "32 \<le> length sampleSecret \<and> (\<exists>f. files sampleOS ''/etc/mule/a.key'' = Some f \<and> regular f \<and>
    (goos sampleOS = ''windows'' \<or> mode f AND 0x3F = 0) \<and> DecodeSecret (content f) = Inr sampleSecret)"
  by (rule LoadSecretFile_guarantee [OF sampleOS_loads])

text \<open>C31: A key that \<open>mule keygen\<close> reports as written loads back as exactly the random bytes it was
  made from, on the same machine, as long as the file creation mask leaves the owner's read
  permission; its file is private and did not exist before.\<close>

theorem keygen_roundtrip:
  assumes "GenerateSecretFile g env path = (None, env')" and "random g = Some fill"
    and "umask env AND 0x100 = 0"
  shows "LoadSecretFile env' path = Inr (freshSecret fill) \<and> files env path = None \<and>
    (\<exists>f. files env' path = Some f \<and> mode f AND 0x3F = 0)"
proof -
  define s where "s = freshSecret fill"
  let ?f = "newSecretFile env (b64_encode s @ [CHR 0x0A])"
  from assms(1,2) have env': "env' = env\<lparr>files := (files env)(path \<mapsto> ?f)\<rparr>"
    and new: "files env path = None"
    by (auto simp: GenerateSecretFile_def Let_def s_def split: if_splits option.splits)
  have "DecodeSecret (b64_encode s @ [CHR 0x0A]) = Inr s"
    using length_freshSecret [of fill, folded s_def] by (intro DecodeSecret_b64) (simp_all add: ascii_space_def)
  then have "LoadSecretFile env' path = Inr s"
    using newSecretFile_private [of env] newSecretFile_openable [OF assms(3)]
    by (simp add: LoadSecretFile_def env') (simp add: newSecretFile_def Let_def)
  with new newSecretFile_private [of env] show ?thesis
    by (simp add: env' s_def)
qed

definition sampleKeygen :: keygen_env where
  "sampleKeygen = \<lparr>random = Some word_of_nat, can_create = True, write_fails_after = None,
     close_fails = False\<rparr>"

theorem keygen_roundtrip_witness:
  "LoadSecretFile (snd (GenerateSecretFile sampleKeygen sampleOS ''/new'')) ''/new'' = Inr sampleSecret"
proof -
  have 1: "GenerateSecretFile sampleKeygen sampleOS ''/new'' =
    (None, snd (GenerateSecretFile sampleKeygen sampleOS ''/new''))"
    by (simp add: GenerateSecretFile_def sampleKeygen_def sampleOS_def Let_def)
  have 2: "random sampleKeygen = Some word_of_nat" "umask sampleOS AND 0x100 = 0"
    by (simp_all add: sampleKeygen_def sampleOS_def)
  show ?thesis
    using keygen_roundtrip [OF 1 2] by (simp add: sampleSecret_def freshSecret_def MinSecretBytes_def)
qed

text \<open>C32: \<open>GenerateSecretFile\<close> never touches an existing file, whatever fails: every file that was
  there is there unchanged afterwards, and the path itself can only gain a file.\<close>

theorem keygen_preserves_files:
  assumes "files env q = Some f"
  shows "files (snd (GenerateSecretFile g env path)) q = Some f"
  using assms by (auto simp: GenerateSecretFile_def Let_def split: option.splits)

theorem keygen_preserves_files_witness:
  "files (snd (GenerateSecretFile sampleKeygen sampleOS ''/etc/mule/a.key'')) ''/etc/mule/a.key'' =
     files sampleOS ''/etc/mule/a.key''"
  using keygen_preserves_files [of sampleOS "''/etc/mule/a.key''"] by (simp add: sampleOS_def)

text \<open>C33: An interrupted key generation cannot be mistaken for another key: whatever part of the
  file was written before the error, loading it later is refused or gives the very secret that was
  being written.\<close>

theorem keygen_torn_write:
  assumes "random g = Some fill" and "files env path = None"
    and "LoadSecretFile (snd (GenerateSecretFile g env path)) path = Inr s'"
  shows "s' = freshSecret fill"
proof -
  from assms(3) obtain f where f: "files (snd (GenerateSecretFile g env path)) path = Some f"
    "DecodeSecret (content f) = Inr s'"
    by (auto simp: LoadSecretFile_def split: option.splits if_splits)
  let ?text = "b64_encode (freshSecret fill) @ [CHR 0x0A]"
  have "content f =
    take (case write_fails_after g of None \<Rightarrow> length ?text | Some k \<Rightarrow> k) ?text"
    using f(1) assms(1,2)
    by (auto simp: GenerateSecretFile_def Let_def newSecretFile_def split: option.splits if_splits)
  with f(2) show ?thesis
    using DecodeSecret_prefix [OF length_freshSecret] by simp
qed

theorem keygen_torn_write_witness:
  "LoadSecretFile (snd (GenerateSecretFile (sampleKeygen\<lparr>write_fails_after := Some 44\<rparr>) sampleOS
     ''/new'')) ''/new'' = Inr sampleSecret"
proof -
  let ?g = "sampleKeygen\<lparr>write_fails_after := Some 44\<rparr>"
  let ?e = "snd (GenerateSecretFile ?g sampleOS ''/new'')"
  have h: "random ?g = Some word_of_nat" "files sampleOS ''/new'' = None"
    by (simp_all add: sampleKeygen_def sampleOS_def)
  have s: "freshSecret word_of_nat = sampleSecret" "length sampleSecret = 32"
    by (simp_all add: sampleSecret_def freshSecret_def MinSecretBytes_def)
  have "is_ok (DecodeSecret (b64_encode sampleSecret))"
    using DecodeSecret_b64 [of sampleSecret "[]"] by (simp add: s)
  moreover have "files ?e ''/new'' = Some (newSecretFile sampleOS (b64_encode sampleSecret))"
    using length_b64_encode [of sampleSecret] by (simp add: GenerateSecretFile_def h s(1) Let_def)
      (simp add: sampleKeygen_def sampleSecret_def sampleOS_def)
  moreover have "goos ?e = ''linux''"
    by (simp add: GenerateSecretFile_def h Let_def) (simp add: sampleOS_def sampleKeygen_def)
  ultimately have "is_ok (LoadSecretFile ?e ''/new'')"
    by (simp add: LoadSecretFile_def) (simp add: newSecretFile_def sampleOS_def)
  then obtain s' where s': "LoadSecretFile ?e ''/new'' = Inr s'"
    by (auto simp: is_ok_iff)
  then show ?thesis
    using keygen_torn_write [OF h s'] by (simp add: s)
qed

end
