(* ===== verification/File_Config.thy ===== *)
theory File_Config
  imports Config Secret
begin

text \<open>
  What the two \<open>LoadConfig\<close> functions share: reading the file, strict YAML decoding, and duration
  fields that stay zero when they are absent.
\<close>

datatype 'y load_error = ReadFailed string | DecodeFailed "'y yaml_error" | BadDuration string

definition ReadFile :: "os \<Rightarrow> string \<Rightarrow> string option" where
  "ReadFile env path =
     (case files env path of
        None \<Rightarrow> None
      | Some f \<Rightarrow> if openable f \<and> regular f \<and> readable f then Some (content f) else None)"

text \<open>\<open>if fc.X != "" { cfg.X, errp = time.ParseDuration(fc.X); if errp != nil { return ... } }\<close>\<close>

definition optDuration :: "string \<Rightarrow> 'y load_error + duration" where
  "optDuration text =
     (if text = [] then Inr 0
      else case ParseDuration text of None \<Rightarrow> Inl (BadDuration text) | Some d \<Rightarrow> Inr d)"

definition orDefault :: "int \<Rightarrow> int \<Rightarrow> int" where
  "orDefault x d = (if x = 0 then d else x)"

lemma orDefault_idem [simp]: "orDefault (orDefault x d) d = orDefault x d"
  by (simp add: orDefault_def)

end
