(* ===== verification/Server_Config.thy ===== *)
theory Server_Config
  imports File_Config
begin

text \<open>
  The configuration of the server (\<open>internal/server/server.go\<close>): its types, \<open>LoadConfig\<close>,
  \<open>ApplyDefaults\<close>, \<open>ValidateConfig\<close> and the policy lookups \<open>forwardTarget\<close> and
  \<open>reverseAllowed\<close>. Go's \<open>int\<close> and \<open>time.Duration\<close> are 64-bit; the values here only ever
  come from a decoder or from constants and are not computed with, so they are integers.
\<close>

section \<open>Types\<close>

record AgentConfig =
  sAgentID :: string
  sSecretFile :: string
  sForward :: "string gomap"
  sReverse :: "string gomap"

record SrvConfig =
  sListenUDP :: string
  sAgents :: "AgentConfig list"
  sHandshakeTimeout :: duration
  sIdleTimeout :: duration
  sDialTimeout :: duration
  sMaxStreams :: int
  sMaxPendingDials :: int
  sKeepAlive :: duration

record FileAgentConfig =
  fSecretFile :: string
  fForward :: "string gomap"
  fReverse :: "string gomap"

record SrvFileConfig =
  fListenUDP :: string
  fAgents :: "FileAgentConfig gomap"
  fHandshakeTimeout :: string
  fIdleTimeout :: string
  fDialTimeout :: string
  fMaxStreams :: int
  fMaxPendingDials :: int
  fKeepAlive :: string

datatype srv_config_error =
    ListenUDPRequired
  | NoAgents
  | TimeoutsNotPositive
  | LimitsNotPositive
  | DuplicateAgent string
  | BadField config_error

section \<open>Loading\<close>

definition srvApplyDefaults :: "SrvConfig \<Rightarrow> SrvConfig" where
  "srvApplyDefaults cfg = cfg\<lparr>
     sHandshakeTimeout := orDefault (sHandshakeTimeout cfg) (10 * Second),
     sIdleTimeout := orDefault (sIdleTimeout cfg) (5 * Minute),
     sDialTimeout := orDefault (sDialTimeout cfg) (10 * Second),
     sMaxStreams := orDefault (sMaxStreams cfg) 100,
     sMaxPendingDials := orDefault (sMaxPendingDials cfg) 20,
     sKeepAlive := orDefault (sKeepAlive cfg) (20 * Second)\<rparr>"

definition srvAgent :: "string \<times> FileAgentConfig \<Rightarrow> AgentConfig" where
  "srvAgent = (\<lambda>(i, agent). \<lparr>sAgentID = i, sSecretFile = fSecretFile agent,
     sForward = fForward agent, sReverse = fReverse agent\<rparr>)"

definition srvLoadConfig :: "(string \<Rightarrow> 'y yaml_error + (SrvFileConfig \<times> 'r)) \<Rightarrow> ('r \<Rightarrow> 'y yaml_error + unit) \<Rightarrow>
    os \<Rightarrow> string \<Rightarrow> 'y load_error + SrvConfig" where
  "srvLoadConfig decode1 decode2 env path =
     (case ReadFile env path of
        None \<Rightarrow> Inl (ReadFailed path)
      | Some data \<Rightarrow>
          bind_result (map_error DecodeFailed (DecodeYAMLStrict decode1 decode2 data)) (\<lambda>fc.
          bind_result (optDuration (fHandshakeTimeout fc)) (\<lambda>handshake.
          bind_result (optDuration (fIdleTimeout fc)) (\<lambda>idle.
          bind_result (optDuration (fDialTimeout fc)) (\<lambda>dial.
          bind_result (optDuration (fKeepAlive fc)) (\<lambda>keepalive.
            Inr (srvApplyDefaults \<lparr>sListenUDP = fListenUDP fc, sAgents = map srvAgent (fAgents fc),
              sHandshakeTimeout = handshake, sIdleTimeout = idle, sDialTimeout = dial,
              sMaxStreams = fMaxStreams fc, sMaxPendingDials = fMaxPendingDials fc,
              sKeepAlive = keepalive\<rparr>)))))))"

section \<open>Validation\<close>

definition checkForward :: "string \<times> string \<Rightarrow> srv_config_error + unit" where
  "checkForward = (\<lambda>(service, addr).
     bind_result (map_error BadField (ValidateRouteID service)) (\<lambda>_.
       map_error BadField (ValidateTCPAddress addr)))"

definition checkReverse :: "string \<times> string \<Rightarrow> srv_config_error + unit" where
  "checkReverse = (\<lambda>(service, addr).
     bind_result (map_error BadField (ValidateRouteID service)) (\<lambda>_.
       map_error BadField (ValidateListenAddress addr)))"

text \<open>The loop over the agents, with the ids seen so far.\<close>

fun checkAgents :: "string list \<Rightarrow> AgentConfig list \<Rightarrow> srv_config_error + unit" where
  "checkAgents seen [] = Inr ()"
| "checkAgents seen (agent # agents) =
     bind_result (map_error BadField (ValidateClientID (sAgentID agent))) (\<lambda>_.
     if sAgentID agent \<in> set seen then Inl (DuplicateAgent (sAgentID agent))
     else
       bind_result (each checkForward (sForward agent)) (\<lambda>_.
       bind_result (each checkReverse (sReverse agent)) (\<lambda>_.
         checkAgents (sAgentID agent # seen) agents)))"

definition srvValidateConfig :: "SrvConfig \<Rightarrow> srv_config_error + unit" where
  "srvValidateConfig cfg =
     (if sListenUDP cfg = [] then Inl ListenUDPRequired
      else
        bind_result (map_error BadField (ValidateUDPAddress (sListenUDP cfg))) (\<lambda>_.
        if length (sAgents cfg) = 0 then Inl NoAgents
        else if sHandshakeTimeout cfg \<le> 0 \<or> sIdleTimeout cfg \<le> 0 \<or> sDialTimeout cfg \<le> 0 \<or> sKeepAlive cfg \<le> 0
        then Inl TimeoutsNotPositive
        else if sMaxStreams cfg \<le> 0 \<or> sMaxPendingDials cfg \<le> 0 then Inl LimitsNotPositive
        else checkAgents [] (sAgents cfg)))"

section \<open>Policy\<close>

fun forwardTargetIn :: "AgentConfig list \<Rightarrow> string \<Rightarrow> string \<Rightarrow> string option" where
  "forwardTargetIn [] agentID service = None"
| "forwardTargetIn (agent # agents) agentID service =
     (if sAgentID agent = agentID then map_of (sForward agent) service
      else forwardTargetIn agents agentID service)"

definition forwardTarget :: "SrvConfig \<Rightarrow> string \<Rightarrow> string \<Rightarrow> string option" where
  "forwardTarget cfg agentID service = forwardTargetIn (sAgents cfg) agentID service"

fun reverseAllowedIn :: "AgentConfig list \<Rightarrow> string \<Rightarrow> string \<Rightarrow> bool" where
  "reverseAllowedIn [] agentID service = False"
| "reverseAllowedIn (agent # agents) agentID service =
     (if sAgentID agent = agentID then has_key service (sReverse agent)
      else reverseAllowedIn agents agentID service)"

definition reverseAllowed :: "SrvConfig \<Rightarrow> string \<Rightarrow> string \<Rightarrow> bool" where
  "reverseAllowed cfg agentID service = reverseAllowedIn (sAgents cfg) agentID service"

section \<open>Lemmas\<close>

lemma checkForward_iff [result_iff]:
  "checkForward e = Inr u \<longleftrightarrow> routeIDPattern (fst e) \<and> ValidateTCPAddress (snd e) = Inr ()"
  by (cases e) (auto simp: checkForward_def result_iff)

lemma checkReverse_iff [result_iff]:
  "checkReverse e = Inr u \<longleftrightarrow> routeIDPattern (fst e) \<and> ValidateListenAddress (snd e) = Inr ()"
  by (cases e) (auto simp: checkReverse_def result_iff)

definition agentOK :: "AgentConfig \<Rightarrow> bool" where
  "agentOK agent \<longleftrightarrow> clientIDPattern (sAgentID agent) \<and>
     (\<forall>(service, addr) \<in> set (sForward agent). routeIDPattern service \<and> ValidateTCPAddress addr = Inr ()) \<and>
     (\<forall>(service, addr) \<in> set (sReverse agent). routeIDPattern service \<and> ValidateListenAddress addr = Inr ())"

lemma checkAgents_iff: "checkAgents seen agents = Inr () \<longleftrightarrow>
    (\<forall>agent \<in> set agents. agentOK agent) \<and> distinct (map sAgentID agents) \<and>
    set seen \<inter> sAgentID ` set agents = {}"
proof (induction agents arbitrary: seen)
  case (Cons agent agents)
  then show ?case by (auto simp: result_iff agentOK_def case_prod_beta)
qed simp

lemma srvValidateConfig_iff: "srvValidateConfig cfg = Inr () \<longleftrightarrow>
    ValidateUDPAddress (sListenUDP cfg) = Inr () \<and> sAgents cfg \<noteq> [] \<and>
    0 < sHandshakeTimeout cfg \<and> 0 < sIdleTimeout cfg \<and> 0 < sDialTimeout cfg \<and> 0 < sKeepAlive cfg \<and>
    0 < sMaxStreams cfg \<and> 0 < sMaxPendingDials cfg \<and>
    (\<forall>agent \<in> set (sAgents cfg). agentOK agent) \<and> distinct (map sAgentID (sAgents cfg))"
  using validateHostPort_nonempty [of "[]" True]
  by (auto simp: srvValidateConfig_def result_iff checkAgents_iff ValidateUDPAddress_def)

lemma forwardTarget_iff:
  assumes "distinct (map sAgentID (sAgents cfg))"
  shows "forwardTarget cfg agentID service = Some target \<longleftrightarrow>
    (\<exists>agent \<in> set (sAgents cfg). sAgentID agent = agentID \<and> map_of (sForward agent) service = Some target)"
proof -
  have "forwardTargetIn agents agentID service = Some target \<longleftrightarrow>
      (\<exists>agent \<in> set agents. sAgentID agent = agentID \<and> map_of (sForward agent) service = Some target)"
    if "distinct (map sAgentID agents)" for agents
    using that by (induction agents) (auto simp: rev_image_eqI)
  with assms show ?thesis by (simp add: forwardTarget_def)
qed

lemma reverseAllowed_iff:
  assumes "distinct (map sAgentID (sAgents cfg))"
  shows "reverseAllowed cfg agentID service \<longleftrightarrow>
    (\<exists>agent \<in> set (sAgents cfg). sAgentID agent = agentID \<and> has_key service (sReverse agent))"
proof -
  have "reverseAllowedIn agents agentID service \<longleftrightarrow>
      (\<exists>agent \<in> set agents. sAgentID agent = agentID \<and> has_key service (sReverse agent))"
    if "distinct (map sAgentID agents)" for agents
    using that by (induction agents) (auto simp: rev_image_eqI)
  with assms show ?thesis by (simp add: reverseAllowed_def)
qed

end
