(* ===== verification/Identity.thy ===== *)
theory Identity
  imports Config
begin

unbundle bit_operations_syntax

text \<open>
  \<open>internal/auth/derive.go\<close> and \<open>internal/auth/tls.go\<close>: the identities that a shared secret
  derives, the certificates made from them, and the TLS configurations of an agent and of the
  server.

  HKDF (\<open>golang.org/x/crypto/hkdf\<close>), the Ed25519 scalar multiplication and the entropy of
  certificate signing are parameters, the record \<open>crypto\<close>; \<open>crypto_ok\<close> states their documented
  behaviour (HKDF-SHA-256 delivers any length up to 255 blocks, a public key has 32 bytes, signing
  succeeds). Nothing is assumed about collisions: where two clients must not share an identity,
  the code checks it and so does the model. The part of \<open>crypto/tls\<close> and \<open>crypto/x509\<close> that
  decides whether a handshake is accepted (certificate selection by server name, chain and key
  usage, host name matching, the \<open>VerifyConnection\<close> hooks) is modelled by \<open>handshake\<close>. It leaves out
  what the program sets to the same constants for every certificate and configuration: the validity
  period (\<open>NotBefore\<close>, \<open>NotAfter\<close>), the \<open>KeyUsage\<close> of the CA certificate and \<open>MinVersion\<close>.
\<close>

section \<open>Derivation\<close>

record crypto =
  hkdf :: "bytes \<Rightarrow> bytes \<Rightarrow> bytes \<Rightarrow> nat \<Rightarrow> bytes option"
  ed25519_public :: "bytes \<Rightarrow> bytes"
  sign_ok :: bool

definition crypto_ok :: "crypto \<Rightarrow> bool" where
  "crypto_ok c \<longleftrightarrow> sign_ok c \<and> (\<forall>seed. length (ed25519_public c seed) = 32) \<and>
     (\<forall>secret salt info n. n \<le> 8160 \<longrightarrow> (\<exists>b. hkdf c secret salt info n = Some b \<and> length b = n))"

datatype auth_error =
    HkdfError
  | UnknownRole string
  | CreateCACertificate
  | CreateRoleCertificate
  | AtLeastOneClient
  | ClientIDRequired
  | SameIdentity string string
  | MissingPeerCertificate
  | UnexpectedKeyType
  | UnexpectedPeerIdentity
  | UnknownSNI

definition RoleForward :: string where "RoleForward = ''forward''"
definition RoleExit :: string where "RoleExit = ''exit''"
definition hkdfSalt :: string where "hkdfSalt = ''mule/v2/auth''"

definition SeedSize :: nat where "SeedSize = 32"

definition deriveBytes :: "crypto \<Rightarrow> bytes \<Rightarrow> string \<Rightarrow> nat \<Rightarrow> auth_error + bytes" where
  "deriveBytes c secret label n =
     (case hkdf c secret (bytes_of_string hkdfSalt) (bytes_of_string label) n of
        None \<Rightarrow> Inl HkdfError
      | Some out \<Rightarrow> Inr out)"

text \<open>An Ed25519 private key is the seed followed by the public key.\<close>

definition NewKeyFromSeed :: "crypto \<Rightarrow> bytes \<Rightarrow> bytes" where
  "NewKeyFromSeed c seed = seed @ ed25519_public c seed"

definition Public :: "bytes \<Rightarrow> bytes" where
  "Public priv = drop 32 priv"

definition derivePrivateKey :: "crypto \<Rightarrow> bytes \<Rightarrow> string \<Rightarrow> auth_error + bytes" where
  "derivePrivateKey c secret label =
     bind_result (deriveBytes c secret label SeedSize) (\<lambda>seed. Inr (NewKeyFromSeed c seed))"

definition roleIdentityLabel :: "string \<Rightarrow> auth_error + string" where
  "roleIdentityLabel role =
     (if role = RoleForward then Inr ''mule/v2/forward identity''
      else if role = RoleExit then Inr ''mule/v2/exit identity''
      else Inl (UnknownRole role))"

definition RolePublicKey :: "crypto \<Rightarrow> bytes \<Rightarrow> string \<Rightarrow> auth_error + bytes" where
  "RolePublicKey c secret role =
     bind_result (roleIdentityLabel role) (\<lambda>label.
     bind_result (derivePrivateKey c secret label) (\<lambda>priv. Inr (Public priv)))"

definition IdentitiesDiffer :: "crypto \<Rightarrow> bytes \<Rightarrow> auth_error + bool" where
  "IdentitiesDiffer c secret =
     bind_result (RolePublicKey c secret RoleForward) (\<lambda>forwardPub.
     bind_result (RolePublicKey c secret RoleExit) (\<lambda>exitPub. Inr (forwardPub \<noteq> exitPub)))"

fun allZero :: "bytes \<Rightarrow> bool" where
  "allZero [] = True"
| "allZero (v # b) = (if v \<noteq> 0 then False else allZero b)"

definition SetBytes :: "bytes \<Rightarrow> nat" where
  "SetBytes b = foldl (\<lambda>n x. 256 * n + unat x) 0 b"

definition serialNumber :: "crypto \<Rightarrow> bytes \<Rightarrow> string \<Rightarrow> auth_error + nat" where
  "serialNumber c secret label =
     bind_result (deriveBytes c secret label 16) (\<lambda>b.
       let b = b[0 := b ! 0 AND 0x7f];
           b = (if allZero b then b[length b - 1 := 1] else b)
       in Inr (SetBytes b))"

section \<open>Certificates\<close>

datatype public_key = Ed25519 bytes | OtherKey
datatype key_usage = DigitalSignature | CertSign | CRLSign
datatype ext_usage = ServerAuth | ClientAuth

record cert =
  SerialNumber :: nat
  CommonName :: string
  DNSNames :: "string list"
  NotBefore :: "int \<times> int \<times> int"
  NotAfter :: "int \<times> int \<times> int"
  KeyUsage :: "key_usage list"
  ExtKeyUsage :: "ext_usage list"
  IsCA :: bool
  PublicKey :: public_key
  SignedBy :: bytes

text \<open>
  \<open>x509.CreateCertificate\<close> followed by parsing: the template with the subject's public key,
  signed by the issuer's private key.
\<close>

definition CreateCertificate :: "crypto \<Rightarrow> cert \<Rightarrow> bytes \<Rightarrow> bytes \<Rightarrow> cert option" where
  "CreateCertificate c tmpl pub signer =
     (if sign_ok c then Some (tmpl\<lparr>PublicKey := Ed25519 pub, SignedBy := Public signer\<rparr>) else None)"

definition ExitServerName :: string where "ExitServerName = ''mule-exit''"
definition ProbeServerName :: string where "ProbeServerName = ''mule-probe''"
definition ALPN :: string where "ALPN = ''mule-v2''"

definition ExitServerNameForClient :: "string \<Rightarrow> string" where
  "ExitServerNameForClient clientID =
     (if clientID = [] then ExitServerName else clientID @ ''.'' @ ExitServerName)"

definition ProbeServerNameForClient :: "string \<Rightarrow> string" where
  "ProbeServerNameForClient clientID =
     (if clientID = [] then ProbeServerName else clientID @ ''.'' @ ProbeServerName)"

definition caCertificate :: "crypto \<Rightarrow> bytes \<Rightarrow> auth_error + (cert \<times> bytes)" where
  "caCertificate c secret =
     bind_result (derivePrivateKey c secret ''mule/v2/ca identity'') (\<lambda>key.
     bind_result (serialNumber c secret ''mule/v2/ca serial'') (\<lambda>serial.
       let tmpl = \<lparr>SerialNumber = serial, CommonName = ''mule v2 derived ca'', DNSNames = [],
             NotBefore = (2024, 1, 1), NotAfter = (2124, 1, 1), KeyUsage = [CertSign, CRLSign],
             ExtKeyUsage = [], IsCA = True, PublicKey = OtherKey, SignedBy = []\<rparr>
       in case CreateCertificate c tmpl (Public key) key of
            None \<Rightarrow> Inl CreateCACertificate
          | Some ca \<Rightarrow> Inr (ca, key)))"

text \<open>A \<open>tls.Certificate\<close> is the leaf and its private key.\<close>

definition roleCertificate :: "crypto \<Rightarrow> bytes \<Rightarrow> string \<Rightarrow> cert \<Rightarrow> bytes \<Rightarrow> auth_error + (cert \<times> bytes)" where
  "roleCertificate c secret role ca caKey =
     bind_result (roleIdentityLabel role) (\<lambda>label.
     bind_result (derivePrivateKey c secret label) (\<lambda>key.
     bind_result (serialNumber c secret (''mule/v2/'' @ role @ '' certificate serial'')) (\<lambda>serial.
       let eku = (if role = RoleExit then [ServerAuth] else [ClientAuth]);
           dnsNames = (if role = RoleExit
             then [ExitServerName, ''*.'' @ ExitServerName, ProbeServerName, ''*.'' @ ProbeServerName]
             else [''mule-'' @ role]);
           tmpl = \<lparr>SerialNumber = serial, CommonName = ''mule-'' @ role, DNSNames = dnsNames,
             NotBefore = (2024, 1, 1), NotAfter = (2124, 1, 1), KeyUsage = [DigitalSignature],
             ExtKeyUsage = eku, IsCA = False, PublicKey = OtherKey, SignedBy = []\<rparr>
       in case CreateCertificate c tmpl (Public key) caKey of
            None \<Rightarrow> Inl CreateRoleCertificate
          | Some leaf \<Rightarrow> Inr (leaf, key))))"

section \<open>TLS configurations\<close>

record tls_state =
  PeerCertificates :: "cert list"
  ServerName :: string

datatype client_auth = NoClientCert | RequireAndVerifyClientCert

definition VersionTLS13 :: nat where "VersionTLS13 = 0x0304"

record tls_config =
  MinVersion :: nat
  ClientAuthType :: client_auth
  NextProtos :: "string list"
  Certificates :: "(cert \<times> bytes) list"
  ConfigServerName :: string
  RootCAs :: "cert list"
  ClientCAs :: "cert list"
  VerifyConnection :: "tls_state \<Rightarrow> auth_error + unit"

text \<open>The \<open>VerifyConnection\<close> hook of a pinned configuration.\<close>

definition verifyPinned :: "bytes \<Rightarrow> tls_state \<Rightarrow> auth_error + unit" where
  "verifyPinned expectedPeer cs =
     (case PeerCertificates cs of
        [] \<Rightarrow> Inl MissingPeerCertificate
      | leaf # _ \<Rightarrow>
          (case PublicKey leaf of
             OtherKey \<Rightarrow> Inl UnexpectedKeyType
           | Ed25519 pub \<Rightarrow> if pub \<noteq> expectedPeer then Inl UnexpectedPeerIdentity else Inr ()))"

definition TLSConfigWithServerName :: "crypto \<Rightarrow> bytes \<Rightarrow> string \<Rightarrow> string \<Rightarrow> auth_error + tls_config" where
  "TLSConfigWithServerName c secret role serverName =
     (let peer = (if role = RoleExit then RoleForward else RoleExit) in
      bind_result (caCertificate c secret) (\<lambda>(caCert, caKey).
      bind_result (roleCertificate c secret role caCert caKey) (\<lambda>crt.
      bind_result (RolePublicKey c secret peer) (\<lambda>expectedPeer.
        Inr \<lparr>MinVersion = VersionTLS13, ClientAuthType = RequireAndVerifyClientCert,
          NextProtos = [ALPN], Certificates = [crt], ConfigServerName = serverName,
          RootCAs = [caCert], ClientCAs = [caCert], VerifyConnection = verifyPinned expectedPeer\<rparr>))))"

definition TLSConfig :: "crypto \<Rightarrow> bytes \<Rightarrow> string \<Rightarrow> auth_error + tls_config" where
  "TLSConfig c secret role = TLSConfigWithServerName c secret role ExitServerName"

record ClientIdentity =
  ID :: string
  ClientSecret :: bytes

text \<open>Keys of \<open>clientByPublicKey\<close> are public keys used as strings.\<close>

definition ClientIDForTLSState :: "string gomap \<Rightarrow> tls_state \<Rightarrow> string option" where
  "ClientIDForTLSState clientByPublicKey cs =
     (case PeerCertificates cs of
        [] \<Rightarrow> None
      | leaf # _ \<Rightarrow>
          (case PublicKey leaf of
             OtherKey \<Rightarrow> None
           | Ed25519 pub \<Rightarrow> map_of clientByPublicKey (string_of_bytes pub)))"

definition verifyKnown :: "string gomap \<Rightarrow> tls_state \<Rightarrow> auth_error + unit" where
  "verifyKnown clientByPublicKey cs =
     (case ClientIDForTLSState clientByPublicKey cs of
        None \<Rightarrow> Inl UnexpectedPeerIdentity
      | Some _ \<Rightarrow> Inr ())"

text \<open>
  The server's configuration: its own fields, and the maps and the pool that its closures
  \<open>GetCertificate\<close> and \<open>VerifyConnection\<close> capture.
\<close>

record MultiClientAuthenticator =
  ServerMinVersion :: nat
  ServerClientAuth :: client_auth
  ServerNextProtos :: "string list"
  certBySNI :: "(cert \<times> bytes) gomap"
  caPool :: "cert list"
  ClientByPublicKey :: "string gomap"

text \<open>One turn of the loop over the clients, and the loop.\<close>

definition addClient :: "crypto \<Rightarrow> ClientIdentity \<Rightarrow> MultiClientAuthenticator \<Rightarrow>
    auth_error + MultiClientAuthenticator" where
  "addClient c client a =
     (if ID client = [] then Inl ClientIDRequired
      else
        bind_result (caCertificate c (ClientSecret client)) (\<lambda>(caCert, caKey).
        bind_result (roleCertificate c (ClientSecret client) RoleExit caCert caKey) (\<lambda>crt.
        bind_result (RolePublicKey c (ClientSecret client) RoleForward) (\<lambda>pub.
          let sni = AList.update (ProbeServerNameForClient (ID client)) crt
                (AList.update (ExitServerNameForClient (ID client)) crt (certBySNI a));
              key = string_of_bytes pub
          in case map_of (ClientByPublicKey a) key of
               Some existing \<Rightarrow> Inl (SameIdentity existing (ID client))
             | None \<Rightarrow>
                 Inr (a\<lparr>certBySNI := sni, caPool := caPool a @ [caCert],
                   ClientByPublicKey := AList.update key (ID client) (ClientByPublicKey a)\<rparr>)))))"

fun addClients :: "crypto \<Rightarrow> ClientIdentity list \<Rightarrow> MultiClientAuthenticator \<Rightarrow>
    auth_error + MultiClientAuthenticator" where
  "addClients c [] a = Inr a"
| "addClients c (x # xs) a = bind_result (addClient c x a) (addClients c xs)"

definition emptyAuthenticator :: MultiClientAuthenticator where
  "emptyAuthenticator = \<lparr>ServerMinVersion = VersionTLS13, ServerClientAuth = RequireAndVerifyClientCert,
     ServerNextProtos = [ALPN], certBySNI = [], caPool = [], ClientByPublicKey = []\<rparr>"

definition MultiClientTLSConfig :: "crypto \<Rightarrow> ClientIdentity list \<Rightarrow>
    auth_error + MultiClientAuthenticator" where
  "MultiClientTLSConfig c clients =
     (if length clients = 0 then Inl AtLeastOneClient else addClients c clients emptyAuthenticator)"

definition GetCertificate :: "MultiClientAuthenticator \<Rightarrow> string \<Rightarrow> auth_error + (cert \<times> bytes)" where
  "GetCertificate a sni =
     (case map_of (certBySNI a) sni of None \<Rightarrow> Inl UnknownSNI | Some crt \<Rightarrow> Inr crt)"

section \<open>The handshake\<close>

text \<open>
  Host name verification of \<open>crypto/x509\<close>: a name is matched against a pattern label by label
  when both are valid (a label may not start with a hyphen), and compared literally otherwise.
  The server names here are never IP addresses.
\<close>

definition lowerChar :: "char \<Rightarrow> char" where
  "lowerChar ch = (let n = (of_char ch :: nat) in if 65 \<le> n \<and> n \<le> 90 then char_of (n + 32) else ch)"

definition lower :: "string \<Rightarrow> string" where
  "lower s = map lowerChar s"

definition validLabel :: "string \<Rightarrow> bool" where
  "validLabel part \<longleftrightarrow> part \<noteq> [] \<and> hd part \<noteq> CHR ''-'' \<and>
     list_all (\<lambda>ch. alnum ch \<or> ch = CHR ''-'' \<or> ch = CHR ''_'') part"

definition validHostname :: "bool \<Rightarrow> string \<Rightarrow> bool" where
  "validHostname isPattern host \<longleftrightarrow> host \<noteq> [] \<and> host \<noteq> ''*'' \<and>
     (case Split (CHR ''.'') host of
        [] \<Rightarrow> False
      | p # ps \<Rightarrow> (isPattern \<and> p = ''*'' \<or> validLabel p) \<and> list_all validLabel ps)"

fun labelsMatch :: "string list \<Rightarrow> string list \<Rightarrow> bool" where
  "labelsMatch (p # ps) (h # hs) \<longleftrightarrow> (p = ''*'' \<or> p = h) \<and> ps = hs"
| "labelsMatch _ _ \<longleftrightarrow> False"

definition VerifyHostname :: "cert \<Rightarrow> string \<Rightarrow> bool" where
  "VerifyHostname crt h = list_ex (\<lambda>m.
     if validHostname False (lower h) \<and> validHostname True m
     then labelsMatch (Split (CHR ''.'') (lower m)) (Split (CHR ''.'') (lower h))
     else lower m = lower h) (DNSNames crt)"

definition chainOK :: "cert list \<Rightarrow> ext_usage \<Rightarrow> cert \<Rightarrow> bool" where
  "chainOK pool usage crt \<longleftrightarrow> usage \<in> set (ExtKeyUsage crt) \<and>
     list_ex (\<lambda>ca. IsCA ca \<and> PublicKey ca = Ed25519 (SignedBy crt)) pool"

datatype handshake_error =
    NoApplicationProtocol
  | ServerAlert auth_error
  | BadServerChain
  | BadServerName
  | ClientAlert auth_error
  | NoClientCertificate
  | BadClientChain

text \<open>The certificate the server asks the client for, and checks.\<close>

definition peerCertificates :: "tls_config \<Rightarrow> MultiClientAuthenticator \<Rightarrow> handshake_error + cert list" where
  "peerCertificates cfg a =
     (case ServerClientAuth a of
        NoClientCert \<Rightarrow> Inr []
      | RequireAndVerifyClientCert \<Rightarrow>
          (case Certificates cfg of
             [] \<Rightarrow> Inl NoClientCertificate
           | (crt, _) # _ \<Rightarrow> if \<not> chainOK (caPool a) ClientAuth crt then Inl BadClientChain else Inr [crt]))"

text \<open>
  The mutual handshake between a dialling configuration and the server's authenticator, up to
  the connection state that the server sees.
\<close>

definition handshake :: "tls_config \<Rightarrow> MultiClientAuthenticator \<Rightarrow> handshake_error + tls_state" where
  "handshake cfg a =
     (if \<not> list_ex (\<lambda>p. p \<in> set (NextProtos cfg)) (ServerNextProtos a) then Inl NoApplicationProtocol
      else
        bind_result (map_error ServerAlert (GetCertificate a (ConfigServerName cfg))) (\<lambda>(leaf, key).
          if \<not> chainOK (RootCAs cfg) ServerAuth leaf then Inl BadServerChain
          else if \<not> VerifyHostname leaf (ConfigServerName cfg) then Inl BadServerName
          else
            bind_result (map_error ClientAlert
              (VerifyConnection cfg \<lparr>PeerCertificates = [leaf], ServerName = ConfigServerName cfg\<rparr>)) (\<lambda>_.
            bind_result (peerCertificates cfg a) (\<lambda>peers.
              let st = \<lparr>PeerCertificates = peers, ServerName = ConfigServerName cfg\<rparr> in
              bind_result (map_error ServerAlert (verifyKnown (ClientByPublicKey a) st)) (\<lambda>_. Inr st)))))"

section \<open>Lemmas on derivation\<close>

definition seedOf :: "crypto \<Rightarrow> bytes \<Rightarrow> string \<Rightarrow> bytes" where
  "seedOf c secret label = projr (deriveBytes c secret label SeedSize)"

definition pubOf :: "crypto \<Rightarrow> bytes \<Rightarrow> string \<Rightarrow> bytes" where
  "pubOf c secret label = ed25519_public c (seedOf c secret label)"

abbreviation fwdKey :: "crypto \<Rightarrow> bytes \<Rightarrow> bytes" where
  "fwdKey c secret \<equiv> pubOf c secret ''mule/v2/forward identity''"

abbreviation exitKey :: "crypto \<Rightarrow> bytes \<Rightarrow> bytes" where
  "exitKey c secret \<equiv> pubOf c secret ''mule/v2/exit identity''"

abbreviation caKeyOf :: "crypto \<Rightarrow> bytes \<Rightarrow> bytes" where
  "caKeyOf c secret \<equiv> pubOf c secret ''mule/v2/ca identity''"

lemma deriveBytes_ok:
  assumes "crypto_ok c" "n \<le> 8160"
  obtains b where "deriveBytes c secret label n = Inr b" "length b = n"
proof -
  obtain b where "hkdf c secret (bytes_of_string hkdfSalt) (bytes_of_string label) n = Some b" "length b = n"
    using assms unfolding crypto_ok_def by blast
  then show thesis
    by (intro that [of b]) (simp_all add: deriveBytes_def)
qed

lemma derivePrivateKey_ok:
  assumes "crypto_ok c"
  shows "\<exists>key. derivePrivateKey c secret label = Inr key \<and> Public key = pubOf c secret label"
proof -
  obtain b where "deriveBytes c secret label SeedSize = Inr b" "length b = SeedSize"
    by (rule deriveBytes_ok [OF assms, of SeedSize secret label]) (auto simp: SeedSize_def)
  then show ?thesis
    by (simp add: derivePrivateKey_def pubOf_def seedOf_def NewKeyFromSeed_def Public_def SeedSize_def)
qed

lemma role_distinct [simp]: "RoleForward \<noteq> RoleExit" "RoleExit \<noteq> RoleForward"
  by (simp_all add: RoleForward_def RoleExit_def)

lemma RolePublicKey_ok:
  assumes "crypto_ok c"
  shows "RolePublicKey c secret RoleForward = Inr (fwdKey c secret)"
    and "RolePublicKey c secret RoleExit = Inr (exitKey c secret)"
  using derivePrivateKey_ok [OF assms, of secret "''mule/v2/forward identity''"]
    derivePrivateKey_ok [OF assms, of secret "''mule/v2/exit identity''"]
  by (auto simp: RolePublicKey_def roleIdentityLabel_def)

lemma serialNumber_ok:
  assumes "crypto_ok c"
  shows "\<exists>n. serialNumber c secret label = Inr n"
proof -
  obtain b where "deriveBytes c secret label 16 = Inr b"
    by (rule deriveBytes_ok [OF assms, of 16 secret label]) auto
  then show ?thesis by (simp add: serialNumber_def Let_def)
qed

lemma caCertificate_ok:
  assumes "crypto_ok c"
  shows "\<exists>ca key. caCertificate c secret = Inr (ca, key) \<and> IsCA ca \<and>
    PublicKey ca = Ed25519 (caKeyOf c secret) \<and> Public key = caKeyOf c secret"
proof -
  obtain key n where "derivePrivateKey c secret ''mule/v2/ca identity'' = Inr key"
    "Public key = caKeyOf c secret" "serialNumber c secret ''mule/v2/ca serial'' = Inr n"
    using derivePrivateKey_ok [OF assms] serialNumber_ok [OF assms] by blast
  then show ?thesis
    using assms by (simp add: caCertificate_def Let_def CreateCertificate_def crypto_ok_def)
qed

lemma roleCertificate_ok:
  assumes "crypto_ok c" "role = RoleForward \<or> role = RoleExit"
  shows "\<exists>leaf key. roleCertificate c secret role ca caKey = Inr (leaf, key) \<and>
    PublicKey leaf = Ed25519 (if role = RoleForward then fwdKey c secret else exitKey c secret) \<and>
    SignedBy leaf = Public caKey \<and>
    ExtKeyUsage leaf = (if role = RoleExit then [ServerAuth] else [ClientAuth]) \<and>
    DNSNames leaf = (if role = RoleExit
      then [ExitServerName, ''*.'' @ ExitServerName, ProbeServerName, ''*.'' @ ProbeServerName]
      else [''mule-'' @ role])"
proof -
  obtain label where l: "roleIdentityLabel role = Inr label"
    "label = (if role = RoleForward then ''mule/v2/forward identity'' else ''mule/v2/exit identity'')"
    using assms(2) by (auto simp: roleIdentityLabel_def)
  obtain key n where "derivePrivateKey c secret label = Inr key" "Public key = pubOf c secret label"
    "serialNumber c secret (''mule/v2/'' @ role @ '' certificate serial'') = Inr n"
    using derivePrivateKey_ok [OF assms(1)] serialNumber_ok [OF assms(1)] by blast
  then show ?thesis
    using assms l by (auto simp: roleCertificate_def Let_def CreateCertificate_def crypto_ok_def)
qed

section \<open>Lemmas on serial numbers\<close>

lemma allZero_iff: "allZero b \<longleftrightarrow> (\<forall>x \<in> set b. x = 0)"
  by (induction b) auto

lemma SetBytes_snoc [simp]: "SetBytes (b @ [x]) = 256 * SetBytes b + unat x"
  by (simp add: SetBytes_def)

lemma SetBytes_Nil [simp]: "SetBytes [] = 0"
  by (simp add: SetBytes_def)

lemma SetBytes_bound: "SetBytes b < 256 ^ length b"
proof (induction b rule: rev_induct)
  case (snoc x b)
  have "unat x < 256" using unsigned_less [of x] by simp
  moreover have "SetBytes b + 1 \<le> 256 ^ length b" using snoc by simp
  then have "256 * SetBytes b + 256 \<le> 256 * 256 ^ length b" by simp
  ultimately show ?case by simp
qed simp

lemma SetBytes_zero_iff: "SetBytes b = 0 \<longleftrightarrow> allZero b"
proof (induction b rule: rev_induct)
  case (snoc x b)
  then show ?case by (auto simp: allZero_iff unat_eq_zero)
qed simp

lemma SetBytes_Cons: "SetBytes (x # b) = unat x * 256 ^ length b + SetBytes b"
proof (induction b rule: rev_induct)
  case Nil
  then show ?case by (simp add: SetBytes_def)
next
  case (snoc y b)
  have "SetBytes (x # b @ [y]) = SetBytes ((x # b) @ [y])" by simp
  also have "\<dots> = 256 * SetBytes (x # b) + unat y" by (simp only: SetBytes_snoc)
  finally show ?case using snoc by (simp add: algebra_simps)
qed

section \<open>Lemmas on server names\<close>

lemma server_names_distinct:
  assumes "clientIDPattern i" "clientIDPattern j"
  shows "ExitServerNameForClient i = ExitServerNameForClient j \<longleftrightarrow> i = j"
    and "ProbeServerNameForClient i = ProbeServerNameForClient j \<longleftrightarrow> i = j"
    and "ExitServerNameForClient i \<noteq> ProbeServerNameForClient j"
proof -
  have ne: "i \<noteq> []" "j \<noteq> []"
    using assms pattern_nonempty(2) by auto
  show "ExitServerNameForClient i = ExitServerNameForClient j \<longleftrightarrow> i = j"
    "ProbeServerNameForClient i = ProbeServerNameForClient j \<longleftrightarrow> i = j"
    using ne by (auto simp: ExitServerNameForClient_def ProbeServerNameForClient_def)
  have "i @ CHR ''.'' # ExitServerName \<noteq> j @ CHR ''.'' # ProbeServerName"
    using client_dot.print_inj [OF assms, of ExitServerName ProbeServerName]
    by (auto simp: ExitServerName_def ProbeServerName_def)
  with ne show "ExitServerNameForClient i \<noteq> ProbeServerNameForClient j"
    by (simp add: ExitServerNameForClient_def ProbeServerNameForClient_def)
qed

section \<open>Lemmas on the authenticator\<close>

text \<open>What one client adds: the certificate its secret derives, and its key.\<close>

definition exitCert :: "crypto \<Rightarrow> bytes \<Rightarrow> cert \<times> bytes" where
  "exitCert c secret = (case projr (caCertificate c secret) of (ca, caKey) \<Rightarrow>
     projr (roleCertificate c secret RoleExit ca caKey))"

definition caOf :: "crypto \<Rightarrow> bytes \<Rightarrow> cert" where
  "caOf c secret = fst (projr (caCertificate c secret))"

abbreviation keyEntry :: "crypto \<Rightarrow> ClientIdentity \<Rightarrow> string \<times> string" where
  "keyEntry c x \<equiv> (string_of_bytes (fwdKey c (ClientSecret x)), ID x)"

lemma addClient_Inr:
  assumes ok: "crypto_ok c" and add: "addClient c x a = Inr a'"
  shows "ID x \<noteq> []"
    and "map_of (ClientByPublicKey a) (fst (keyEntry c x)) = None"
    and "ClientByPublicKey a' = ClientByPublicKey a @ [keyEntry c x]"
    and "caPool a' = caPool a @ [caOf c (ClientSecret x)]"
    and "ServerClientAuth a' = ServerClientAuth a" "ServerNextProtos a' = ServerNextProtos a"
    and "certBySNI a' = AList.update (ProbeServerNameForClient (ID x)) (exitCert c (ClientSecret x))
      (AList.update (ExitServerNameForClient (ID x)) (exitCert c (ClientSecret x)) (certBySNI a))"
proof -
  obtain ca caKey where ca: "caCertificate c (ClientSecret x) = Inr (ca, caKey)"
    using caCertificate_ok [OF ok] by blast
  obtain crt where crt: "roleCertificate c (ClientSecret x) RoleExit ca caKey = Inr crt"
    using roleCertificate_ok [OF ok] by blast
  note defs = addClient_def ca crt RolePublicKey_ok [OF ok] Let_def exitCert_def caOf_def
  from add show "ID x \<noteq> []" by (auto simp: defs)
  with add show none: "map_of (ClientByPublicKey a) (fst (keyEntry c x)) = None"
    by (auto simp: defs split: option.splits)
  have "AList.update (fst (keyEntry c x)) (ID x) (ClientByPublicKey a) = ClientByPublicKey a @ [keyEntry c x]"
    using none by (simp add: update_fresh map_of_eq_None_iff)
  with add \<open>ID x \<noteq> []\<close> none show
    "ClientByPublicKey a' = ClientByPublicKey a @ [keyEntry c x]"
    "caPool a' = caPool a @ [caOf c (ClientSecret x)]"
    "ServerClientAuth a' = ServerClientAuth a" "ServerNextProtos a' = ServerNextProtos a"
    "certBySNI a' = AList.update (ProbeServerNameForClient (ID x)) (exitCert c (ClientSecret x))
      (AList.update (ExitServerNameForClient (ID x)) (exitCert c (ClientSecret x)) (certBySNI a))"
    by (auto simp: defs)
qed

lemma addClients_Inr:
  assumes ok: "crypto_ok c" and add: "addClients c xs a = Inr a'" and wf: "wf_map (ClientByPublicKey a)"
  shows "ClientByPublicKey a' = ClientByPublicKey a @ map (keyEntry c) xs \<and> wf_map (ClientByPublicKey a') \<and>
    caPool a' = caPool a @ map (\<lambda>x. caOf c (ClientSecret x)) xs"
  using add wf
proof (induction xs arbitrary: a)
  case (Cons x xs)
  then obtain a1 where a1: "addClient c x a = Inr a1" "addClients c xs a1 = Inr a'"
    by (auto simp: bind_result_Inr_iff)
  note step = addClient_Inr [OF ok a1(1)]
  have "wf_map (ClientByPublicKey a1)"
    using Cons.prems(2) step(2) by (simp add: step(3) wf_map_def map_of_eq_None_iff)
  note ih = Cons.IH [OF a1(2) this]
  then show ?case
    using ih [THEN conjunct2, THEN conjunct1] by (intro conjI) (simp_all only: step(3,4) list.map append_assoc append_Cons append_Nil)
qed simp

lemma addClients_fields:
  assumes ok: "crypto_ok c" and add: "addClients c xs a = Inr a'"
  shows "ServerClientAuth a' = ServerClientAuth a" "ServerNextProtos a' = ServerNextProtos a"
  using add by (induction xs arbitrary: a) (auto simp: bind_result_Inr_iff addClient_Inr(5,6) [OF ok])

lemma addClients_SNI_other:
  assumes ok: "crypto_ok c" and add: "addClients c xs a = Inr a'"
    and "name \<notin> ExitServerNameForClient ` ID ` set xs" "name \<notin> ProbeServerNameForClient ` ID ` set xs"
  shows "map_of (certBySNI a') name = map_of (certBySNI a) name"
  using add assms(3,4)
proof (induction xs arbitrary: a)
  case (Cons x xs)
  then obtain a1 where a1: "addClient c x a = Inr a1" "addClients c xs a1 = Inr a'"
    by (auto simp: bind_result_Inr_iff)
  with Cons.IH [OF a1(2)] Cons.prems addClient_Inr(7) [OF ok a1(1)] show ?case by simp
qed simp

lemma addClients_SNI:
  assumes ok: "crypto_ok c" and add: "addClients c xs a = Inr a'"
    and ids: "distinct (map ID xs)" "\<forall>x \<in> set xs. clientIDPattern (ID x)" and x: "x \<in> set xs"
  shows "map_of (certBySNI a') (ExitServerNameForClient (ID x)) = Some (exitCert c (ClientSecret x)) \<and>
    map_of (certBySNI a') (ProbeServerNameForClient (ID x)) = Some (exitCert c (ClientSecret x))"
  using add ids x
proof (induction xs arbitrary: a)
  case (Cons y ys)
  then obtain a1 where a1: "addClient c y a = Inr a1" "addClients c ys a1 = Inr a'"
    by (auto simp: bind_result_Inr_iff)
  show ?case
  proof (cases "x \<in> set ys")
    case True
    with Cons a1 show ?thesis by simp
  next
    case False
    with Cons.prems have "x = y" by simp
    have fresh: "ExitServerNameForClient (ID y) \<noteq> ExitServerNameForClient (ID z) \<and>
      ExitServerNameForClient (ID y) \<noteq> ProbeServerNameForClient (ID z) \<and>
      ProbeServerNameForClient (ID y) \<noteq> ExitServerNameForClient (ID z) \<and>
      ProbeServerNameForClient (ID y) \<noteq> ProbeServerNameForClient (ID z)" if "z \<in> set ys" for z
    proof -
      have p: "clientIDPattern (ID y)" "clientIDPattern (ID z)" "ID y \<noteq> ID z"
        using Cons.prems that by auto
      show ?thesis
        using server_names_distinct [OF p(1,2)] server_names_distinct(3) [OF p(2,1)] p(3) by simp
    qed
    have "ExitServerNameForClient (ID y) \<notin> ExitServerNameForClient ` ID ` set ys"
      "ExitServerNameForClient (ID y) \<notin> ProbeServerNameForClient ` ID ` set ys"
      "ProbeServerNameForClient (ID y) \<notin> ExitServerNameForClient ` ID ` set ys"
      "ProbeServerNameForClient (ID y) \<notin> ProbeServerNameForClient ` ID ` set ys"
      using fresh by auto
    then show ?thesis
      using addClients_SNI_other [OF ok a1(2)] addClient_Inr(7) [OF ok a1(1)] \<open>x = y\<close>
      by auto
  qed
qed simp

section \<open>Lemmas on host name verification\<close>

lemma lower_append [simp]: "lower (s @ t) = lower s @ lower t"
  by (simp add: lower_def)

lemma lowerChar_alnum: "alnum ch \<Longrightarrow> alnum (lowerChar ch)" "\<not> alnum ch \<Longrightarrow> lowerChar ch = ch"
proof -
  have "of_char (char_of (n + 32) :: char) = n + 32" if "n \<le> 90" for n :: nat
    using that by (simp add: of_char_of)
  then show "alnum ch \<Longrightarrow> alnum (lowerChar ch)" "\<not> alnum ch \<Longrightarrow> lowerChar ch = ch"
    unfolding lowerChar_def alnum_def Let_def by (auto split: if_splits)
qed

lemma lower_Cons_other [simp]: "\<not> alnum ch \<Longrightarrow> lower (ch # s) = ch # lower s"
  by (simp add: lower_def lowerChar_alnum)

lemma not_alnum_chars [simp]: "\<not> alnum (CHR ''-'')" "\<not> alnum (CHR ''.'')" "\<not> alnum (CHR ''*'')"
  by (simp_all add: alnum_def)

lemma lower_chars:
  assumes "list_all (\<lambda>ch. alnum ch \<or> ch = CHR ''-'') s"
  shows "list_all (\<lambda>ch. alnum ch \<or> ch = CHR ''-'') (lower s)"
  using assms lowerChar_alnum unfolding list_all_iff lower_def by fastforce

lemma lower_hd: "s \<noteq> [] \<Longrightarrow> hd (lower s) = CHR ''-'' \<longleftrightarrow> hd s = CHR ''-''"
  using lowerChar_alnum [of "hd s"] not_alnum_chars(1)
  by (cases s; cases "alnum (hd s)") (auto simp: lower_def)

lemma lower_empty [simp]: "lower s = [] \<longleftrightarrow> s = []"
  by (simp add: lower_def)

lemma clientID_lower:
  assumes "clientIDPattern i"
  shows "CHR ''.'' \<notin> set (lower i)" "validLabel (lower i) \<longleftrightarrow> hd i \<noteq> CHR ''-''"
proof -
  have all: "list_all (\<lambda>ch. alnum ch \<or> ch = CHR ''-'') (lower i)" and ne: "i \<noteq> []"
    using assms lower_chars pattern_nonempty(2) by (auto simp: clientIDPattern_def)
  from all show "CHR ''.'' \<notin> set (lower i)"
    by (auto simp: list_all_iff)
  show "validLabel (lower i) \<longleftrightarrow> hd i \<noteq> CHR ''-''"
    using all ne lower_hd [of i] by (auto simp: validLabel_def list_all_iff)
qed

definition exitDNSNames :: "string list" where
  "exitDNSNames = [ExitServerName, ''*.'' @ ExitServerName, ProbeServerName, ''*.'' @ ProbeServerName]"

lemma base_names:
  "lower ExitServerName = ExitServerName" "lower ProbeServerName = ProbeServerName"
  "Split (CHR ''.'') ExitServerName = [ExitServerName]" "Split (CHR ''.'') ProbeServerName = [ProbeServerName]"
  "validLabel ExitServerName" "validLabel ProbeServerName"
  "validHostname True ExitServerName" "validHostname True ProbeServerName"
  "validHostname True (''*.'' @ ExitServerName)" "validHostname True (''*.'' @ ProbeServerName)"
  "lower (''*.'' @ ExitServerName) = ''*.'' @ ExitServerName" "lower (''*.'' @ ProbeServerName) = ''*.'' @ ProbeServerName"
  "Split (CHR ''.'') (''*.'' @ ExitServerName) = [''*'', ExitServerName]"
  "Split (CHR ''.'') (''*.'' @ ProbeServerName) = [''*'', ProbeServerName]"
  by code_simp+

text \<open>A server name built from a client id is accepted exactly when its first label is valid.\<close>

lemma VerifyHostname_client:
  assumes "clientIDPattern i" "DNSNames crt = exitDNSNames" "base = ExitServerName \<or> base = ProbeServerName"
  shows "VerifyHostname crt (i @ ''.'' @ base) \<longleftrightarrow> hd i \<noteq> CHR ''-''"
proof -
  note low = clientID_lower [OF assms(1)]
  have base: "lower base = base" "Split (CHR ''.'') base = [base]" "validLabel base" "''*'' \<noteq> base" "base \<noteq> []"
    using assms(3) base_names by (auto simp: ExitServerName_def ProbeServerName_def)
  have ne: "i \<noteq> []" using pattern_nonempty(2) [OF assms(1)] .
  have lh: "lower (i @ ''.'' @ base) = lower i @ CHR ''.'' # base" by (simp add: base)
  have sp: "Split (CHR ''.'') (lower i @ CHR ''.'' # base) = [lower i, base]"
    using low(1) by (simp add: Split_append base)
  have nostar: "lower i @ CHR ''.'' # base \<noteq> ''*''" using ne by (cases i) (auto simp: lower_def)
  have valid: "validHostname False (lower (i @ ''.'' @ base)) \<longleftrightarrow> hd i \<noteq> CHR ''-''"
    using low(2) nostar unfolding validHostname_def lh sp by (simp add: base)
  show ?thesis
  proof (cases "hd i = CHR ''-''")
    case True
    then obtain t where t: "lower i = CHR ''-'' # t"
      using ne lower_hd [of i] by (cases "lower i") auto
    have "lower m \<noteq> lower (i @ ''.'' @ base)" if "m \<in> set exitDNSNames" for m
      using that t by (auto simp: exitDNSNames_def base_names lh) (simp_all add: ExitServerName_def ProbeServerName_def)
    with True valid show ?thesis
      by (auto simp: VerifyHostname_def assms(2) list_ex_iff)
  next
    case False
    have m: "''*.'' @ base \<in> set exitDNSNames" "validHostname True (''*.'' @ base)"
      "Split (CHR ''.'') (lower (''*.'' @ base)) = [''*'', base]"
      using assms(3) base_names by (auto simp: exitDNSNames_def)
    have "labelsMatch [''*'', base] [lower i, base]" by simp
    with m False valid show ?thesis
      unfolding VerifyHostname_def assms(2) list_ex_iff by (metis lh sp)
  qed
qed

section \<open>Lemmas on configurations and handshakes\<close>

lemma caOf_ok:
  assumes "crypto_ok c"
  shows "\<exists>key. caCertificate c secret = Inr (caOf c secret, key) \<and> Public key = caKeyOf c secret"
    and "IsCA (caOf c secret)" "PublicKey (caOf c secret) = Ed25519 (caKeyOf c secret)"
  using caCertificate_ok [OF assms, of secret] by (auto simp: caOf_def)

lemma exitCert_ok:
  assumes "crypto_ok c"
  shows "PublicKey (fst (exitCert c secret)) = Ed25519 (exitKey c secret) \<and>
    SignedBy (fst (exitCert c secret)) = caKeyOf c secret \<and>
    ExtKeyUsage (fst (exitCert c secret)) = [ServerAuth] \<and>
    DNSNames (fst (exitCert c secret)) = exitDNSNames"
proof -
  obtain key where key: "caCertificate c secret = Inr (caOf c secret, key)" "Public key = caKeyOf c secret"
    using caOf_ok(1) [OF assms] by blast
  obtain leaf k where leaf: "roleCertificate c secret RoleExit (caOf c secret) key = Inr (leaf, k)"
    "PublicKey leaf = Ed25519 (exitKey c secret)" "SignedBy leaf = Public key"
    "ExtKeyUsage leaf = [ServerAuth]" "DNSNames leaf = exitDNSNames"
    using roleCertificate_ok [OF assms, of RoleExit secret "caOf c secret" key]
    by (auto simp: exitDNSNames_def)
  then have "exitCert c secret = (leaf, k)"
    by (simp add: exitCert_def key(1))
  with leaf key(2) show ?thesis by simp
qed

text \<open>The dialling configuration of an agent: its certificate, and the pin on the server's key.\<close>

definition agentConfig :: "crypto \<Rightarrow> bytes \<Rightarrow> string \<Rightarrow> tls_config \<Rightarrow> bool" where
  "agentConfig c secret name cfg \<longleftrightarrow> NextProtos cfg = [ALPN] \<and> ConfigServerName cfg = name \<and> RootCAs cfg = [caOf c secret] \<and>
     VerifyConnection cfg = verifyPinned (exitKey c secret) \<and>
     (\<exists>crt key. Certificates cfg = [(crt, key)] \<and> PublicKey crt = Ed25519 (fwdKey c secret) \<and>
        SignedBy crt = caKeyOf c secret \<and> ExtKeyUsage crt = [ClientAuth])"

lemma TLSConfig_ok:
  assumes "crypto_ok c"
  shows "\<exists>cfg. TLSConfigWithServerName c secret RoleForward name = Inr cfg \<and> agentConfig c secret name cfg"
proof -
  obtain key where key: "caCertificate c secret = Inr (caOf c secret, key)" "Public key = caKeyOf c secret"
    using caOf_ok(1) [OF assms] by blast
  obtain leaf k where leaf: "roleCertificate c secret RoleForward (caOf c secret) key = Inr (leaf, k)"
    "PublicKey leaf = Ed25519 (fwdKey c secret)" "SignedBy leaf = Public key" "ExtKeyUsage leaf = [ClientAuth]"
    using roleCertificate_ok [OF assms, of RoleForward secret "caOf c secret" key] by auto
  then show ?thesis
    by (simp add: TLSConfigWithServerName_def key RolePublicKey_ok [OF assms] agentConfig_def)
qed

lemma MultiClient_Inr:
  assumes ok: "crypto_ok c" and cfg: "MultiClientTLSConfig c clients = Inr a"
  shows "ClientByPublicKey a = map (keyEntry c) clients" "wf_map (ClientByPublicKey a)"
    "caPool a = map (\<lambda>x. caOf c (ClientSecret x)) clients"
    "ServerClientAuth a = RequireAndVerifyClientCert" "ServerNextProtos a = [ALPN]"
proof -
  have add: "addClients c clients emptyAuthenticator = Inr a"
    using cfg by (simp add: MultiClientTLSConfig_def split: if_splits)
  show "ServerClientAuth a = RequireAndVerifyClientCert" "ServerNextProtos a = [ALPN]"
    by (simp_all add: addClients_fields [OF ok add] emptyAuthenticator_def)
  note * = addClients_Inr [OF ok add, unfolded emptyAuthenticator_def MultiClientAuthenticator.simps append_Nil,
      OF wf_map_Nil]
  show "ClientByPublicKey a = map (keyEntry c) clients" using * by (rule conjunct1)
  show "wf_map (ClientByPublicKey a)" using * [THEN conjunct2] by (rule conjunct1)
  show "caPool a = map (\<lambda>x. caOf c (ClientSecret x)) clients" using * [THEN conjunct2] by (rule conjunct2)
qed

lemma string_of_bytes_eq_iff [simp]: "string_of_bytes a = string_of_bytes b \<longleftrightarrow> a = b"
  by (metis bytes_of_string_of_bytes)

lemma wf_keyEntries:
  "wf_map (map (keyEntry c) xs) \<longleftrightarrow> distinct (map (\<lambda>x. fwdKey c (ClientSecret x)) xs)"
  by (induction xs) (auto simp: wf_map_def)

lemma identify_iff:
  assumes ok: "crypto_ok c" and cfg: "MultiClientTLSConfig c clients = Inr a"
    and st: "PeerCertificates st = leaf # rest" "PublicKey leaf = Ed25519 pub"
  shows "ClientIDForTLSState (ClientByPublicKey a) st = Some i \<longleftrightarrow>
    (\<exists>x \<in> set clients. ID x = i \<and> fwdKey c (ClientSecret x) = pub)"
proof -
  note a = MultiClient_Inr [OF ok cfg]
  have "ClientIDForTLSState (ClientByPublicKey a) st = Some i \<longleftrightarrow>
      (string_of_bytes pub, i) \<in> set (map (keyEntry c) clients)"
    using map_of_wf_iff [OF a(2)] by (simp add: ClientIDForTLSState_def st a(1))
  then show ?thesis by auto
qed

lemma chainOK_ca:
  assumes "crypto_ok c" "SignedBy crt = caKeyOf c secret" "usage \<in> set (ExtKeyUsage crt)" "caOf c secret \<in> set pool"
  shows "chainOK pool usage crt"
  using assms caOf_ok [OF assms(1), of secret] by (auto simp: chainOK_def list_ex_iff)

lemma and_7f_bound: "unat (x AND 0x7f :: byte) < 128"
proof -
  have "x AND 0x7f = take_bit 7 x"
    by (simp add: take_bit_eq_mask mask_eq_exp_minus_1)
  then have "unat (x AND 0x7f) = take_bit 7 (unat x)"
    by (simp add: unsigned_take_bit_eq)
  then show ?thesis
    using take_bit_nat_less_exp [of 7 "unat x"] by simp
qed

lemma SetBytes_serial:
  assumes "length b = 16" "unat (b ! 0) < 128"
  shows "0 < SetBytes (if allZero b then b[length b - 1 := 1] else b)"
    and "SetBytes (if allZero b then b[length b - 1 := 1] else b) < 2 ^ 127"
proof -
  define b' where "b' = (if allZero b then b[length b - 1 := 1] else b)"
  have "length b' = 16" "b' ! 0 = b ! 0" using assms(1) by (auto simp: b'_def)
  then obtain x' r' where b': "b' = x' # r'" "length r' = 15" "unat x' < 128"
    using assms(2) by (cases b') auto
  have "\<not> allZero (b[15 := 1])"
    using assms(1) nth_mem [of 15 "b[15 := 1]"] zero_neq_one [where 'a = byte]
    unfolding allZero_iff by (intro notI) (drule bspec, auto)
  then have "\<not> allZero b'" using assms(1) by (simp add: b'_def)
  then have "0 < SetBytes b'" using SetBytes_zero_iff by auto
  moreover have "SetBytes b' < 2 ^ 127"
  proof -
    have "unat x' * 256 ^ 15 \<le> 127 * 256 ^ 15" using b'(3) by (intro mult_right_mono) auto
    then show ?thesis
      unfolding b'(1) SetBytes_Cons b'(2) using SetBytes_bound [of r', unfolded b'(2)] by simp
  qed
  ultimately show "0 < SetBytes (if allZero b then b[length b - 1 := 1] else b)"
    "SetBytes (if allZero b then b[length b - 1 := 1] else b) < 2 ^ 127"
    by (simp_all add: b'_def)
qed

lemma addClient_is_ok:
  assumes ok: "crypto_ok c"
  shows "is_ok (addClient c x a) \<longleftrightarrow>
    ID x \<noteq> [] \<and> map_of (ClientByPublicKey a) (fst (keyEntry c x)) = None"
proof -
  obtain ca caKey where ca: "caCertificate c (ClientSecret x) = Inr (ca, caKey)"
    using caCertificate_ok [OF ok] by blast
  obtain crt where crt: "roleCertificate c (ClientSecret x) RoleExit ca caKey = Inr crt"
    using roleCertificate_ok [OF ok] by blast
  show ?thesis
    by (auto simp: addClient_def ca crt RolePublicKey_ok [OF ok] Let_def split: option.splits)
qed

lemma addClients_is_ok:
  assumes ok: "crypto_ok c" and wf: "wf_map (ClientByPublicKey a)"
  shows "is_ok (addClients c xs a) \<longleftrightarrow>
    (\<forall>x \<in> set xs. ID x \<noteq> []) \<and> wf_map (ClientByPublicKey a @ map (keyEntry c) xs)"
  using wf
proof (induction xs arbitrary: a)
  case (Cons x xs)
  show ?case
  proof (cases "addClient c x a")
    case (Inl e)
    then have "\<not> (ID x \<noteq> [] \<and> map_of (ClientByPublicKey a) (fst (keyEntry c x)) = None)"
      using addClient_is_ok [OF ok, of x a] by simp
    with Inl show ?thesis by (auto simp: wf_map_def map_of_eq_None_iff)
  next
    case (Inr a1)
    note step = addClient_Inr [OF ok Inr]
    have "wf_map (ClientByPublicKey a1)"
      using Cons.prems step(2) by (simp add: step(3) wf_map_def map_of_eq_None_iff)
    from Cons.IH [OF this] show ?thesis
      using step(1) by (simp add: Inr step(3))
  qed
qed simp

lemma MultiClient_is_ok:
  assumes "crypto_ok c"
  shows "is_ok (MultiClientTLSConfig c clients) \<longleftrightarrow> clients \<noteq> [] \<and> (\<forall>x \<in> set clients. ID x \<noteq> []) \<and>
    distinct (map (\<lambda>x. fwdKey c (ClientSecret x)) clients)"
  using addClients_is_ok [OF assms, of emptyAuthenticator clients] wf_keyEntries [of c clients]
  by (simp add: MultiClientTLSConfig_def emptyAuthenticator_def)

text \<open>The handshake, step by step, for an agent's configuration against a certificate of the server.\<close>

lemma handshake_server_part:
  assumes ok: "crypto_ok c" and cfg: "agentConfig c secret name cfg" and alpn: "ServerNextProtos a = [ALPN]"
    and sni: "map_of (certBySNI a) name = Some (exitCert c secret)"
  shows "handshake cfg a = (if \<not> VerifyHostname (fst (exitCert c secret)) name then Inl BadServerName
    else bind_result (peerCertificates cfg a) (\<lambda>peers.
      bind_result (map_error ServerAlert (verifyKnown (ClientByPublicKey a)
        \<lparr>PeerCertificates = peers, ServerName = name\<rparr>))
          (\<lambda>_. Inr \<lparr>PeerCertificates = peers, ServerName = name\<rparr>)))"
proof -
  note e = exitCert_ok [OF ok, of secret]
  have chain: "chainOK (RootCAs cfg) ServerAuth (fst (exitCert c secret))"
    using chainOK_ca [OF ok, of "fst (exitCert c secret)" secret] cfg e by (auto simp: agentConfig_def)
  obtain leaf key where lk: "exitCert c secret = (leaf, key)" by (cases "exitCert c secret")
  show ?thesis
    using cfg e chain lk sni alpn
    by (auto simp: handshake_def GetCertificate_def agentConfig_def verifyPinned_def Let_def)
qed

lemma handshake_name: "handshake cfg a = Inr st \<Longrightarrow> ServerName st = ConfigServerName cfg"
  by (auto simp: handshake_def result_iff Let_def split: if_splits prod.splits)

lemma handshake_complete:
  assumes ok: "crypto_ok c" and mc: "MultiClientTLSConfig c clients = Inr a"
    and ids: "distinct (map ID clients)" "\<forall>x \<in> set clients. clientIDPattern (ID x)" and x: "x \<in> set clients"
    and name: "name = ExitServerNameForClient (ID x) \<or> name = ProbeServerNameForClient (ID x)"
    and cfg: "agentConfig c (ClientSecret x) name cfg"
  shows "if hd (ID x) = CHR ''-'' then handshake cfg a = Inl BadServerName
    else \<exists>st. handshake cfg a = Inr st \<and> ClientIDForTLSState (ClientByPublicKey a) st = Some (ID x)"
proof -
  have add: "addClients c clients emptyAuthenticator = Inr a"
    using mc by (simp add: MultiClientTLSConfig_def split: if_splits)
  have sni: "map_of (certBySNI a) name = Some (exitCert c (ClientSecret x))"
    using addClients_SNI [OF ok add ids x] name by auto
  have pat: "clientIDPattern (ID x)" "ID x \<noteq> []" using ids(2) x pattern_nonempty(2) by auto
  have host: "VerifyHostname (fst (exitCert c (ClientSecret x))) name \<longleftrightarrow> hd (ID x) \<noteq> CHR ''-''"
    using VerifyHostname_client [OF pat(1)] exitCert_ok [OF ok] name pat(2)
    by (auto simp: ExitServerNameForClient_def ProbeServerNameForClient_def)
  obtain crt key where crt: "Certificates cfg = [(crt, key)]" "PublicKey crt = Ed25519 (fwdKey c (ClientSecret x))"
    "SignedBy crt = caKeyOf c (ClientSecret x)" "ExtKeyUsage crt = [ClientAuth]"
    using cfg by (auto simp: agentConfig_def)
  have chain: "chainOK (caPool a) ClientAuth crt"
    using crt x by (intro chainOK_ca [OF ok crt(3)]) (auto simp: MultiClient_Inr(3) [OF ok mc])
  have known: "ClientIDForTLSState (ClientByPublicKey a) \<lparr>PeerCertificates = [crt], ServerName = name\<rparr> = Some (ID x)"
    using identify_iff [OF ok mc _ crt(2)] x by auto
  show ?thesis
    using handshake_server_part [OF ok cfg _ sni] MultiClient_Inr(4,5) [OF ok mc] host crt(1) chain known
    by (simp add: verifyKnown_def peerCertificates_def)
qed

lemma certBySNI_origin:
  assumes ok: "crypto_ok c" and add: "addClients c xs a = Inr a'"
    and "map_of (certBySNI a') name = Some e"
  shows "map_of (certBySNI a) name = Some e \<or>
    (\<exists>x \<in> set xs. e = exitCert c (ClientSecret x) \<and>
       (name = ExitServerNameForClient (ID x) \<or> name = ProbeServerNameForClient (ID x)))"
  using add assms(3)
proof (induction xs arbitrary: a)
  case (Cons x xs)
  then obtain a1 where a1: "addClient c x a = Inr a1" "addClients c xs a1 = Inr a'"
    by (auto simp: bind_result_Inr_iff)
  from Cons.IH [OF a1(2) Cons.prems(2)] show ?case
    by (auto simp: addClient_Inr(7) [OF ok a1(1)] split: if_splits)
qed simp

section \<open>Properties\<close>

text \<open>A concrete instance of the parameters, for the witnesses.\<close>

definition sample_crypto :: crypto where
  "sample_crypto = \<lparr>hkdf = (\<lambda>secret salt info n. Some (take n (secret @ info @ replicate n 1))),
     ed25519_public = (\<lambda>seed. take 32 (seed @ replicate 32 0)), sign_ok = True\<rparr>"

lemma sample_crypto_ok: "crypto_ok sample_crypto"
  by (auto simp: crypto_ok_def sample_crypto_def)

text \<open>\<open>serialNumber\<close> always yields a positive serial number below \<open>2\<^sup>1\<^sup>2\<^sup>7\<close>, so it is encoded in at
  most 16 octets without a sign octet, for every secret and label.\<close>

lemma serialNumber_bounds:
  assumes "crypto_ok c"
  shows "\<exists>n. serialNumber c secret label = Inr n \<and> 0 < n \<and> n < 2 ^ 127"
proof -
  obtain b where b: "deriveBytes c secret label 16 = Inr b" "length b = 16"
    by (rule deriveBytes_ok [OF assms, of 16 secret label]) auto
  have "unat (b[0 := b ! 0 AND 0x7f] ! 0) < 128"
    using b(2) by (simp add: and_7f_bound)
  from SetBytes_serial [OF _ this] b show ?thesis
    by (simp add: serialNumber_def Let_def)
qed

text \<open>C35: \<open>MultiClientTLSConfig\<close> succeeds exactly when there is a client, every client has an id, and
  no two clients derive the same forward identity.\<close>

theorem MultiClientTLSConfig_exact:
  assumes "crypto_ok c"
  shows "is_ok (MultiClientTLSConfig c clients) \<longleftrightarrow>
    clients \<noteq> [] \<and> (\<forall>x \<in> set clients. ID x \<noteq> []) \<and>
    distinct (map (\<lambda>x. RolePublicKey c (ClientSecret x) RoleForward) clients)"
proof -
  have key: "(\<lambda>x. RolePublicKey c (ClientSecret x) RoleForward) = Inr \<circ> (\<lambda>x. fwdKey c (ClientSecret x))"
    using RolePublicKey_ok [OF assms] by auto
  have "distinct (map (Inr \<circ> f) xs) = distinct (map f xs)" for f :: "ClientIdentity \<Rightarrow> bytes" and xs
    by (induction xs) auto
  note * = this [of "\<lambda>x. fwdKey c (ClientSecret x)" clients]
  show ?thesis
    unfolding key MultiClient_is_ok [OF assms] * ..
qed

theorem MultiClientTLSConfig_exact_witness:
  "crypto_ok sample_crypto \<and>
   is_ok (MultiClientTLSConfig sample_crypto [\<lparr>ID = ''a'', ClientSecret = [1]\<rparr>, \<lparr>ID = ''b'', ClientSecret = [2]\<rparr>]) \<and>
   \<not> is_ok (MultiClientTLSConfig sample_crypto [\<lparr>ID = ''a'', ClientSecret = [1]\<rparr>, \<lparr>ID = ''b'', ClientSecret = [1]\<rparr>])"
proof -
  have "RolePublicKey sample_crypto [1] RoleForward \<noteq> RolePublicKey sample_crypto [2] RoleForward"
    by code_simp
  then show ?thesis
    using sample_crypto_ok by (simp add: MultiClientTLSConfig_exact)
qed

text \<open>C34: Once the server's configuration is built, a connection state is identified as client \<open>i\<close>
  exactly when its leaf certificate carries the forward key that some configured client with id
  \<open>i\<close> derives; no connection is identified as two clients.\<close>

theorem ClientIDForTLSState_exact:
  assumes "crypto_ok c" "MultiClientTLSConfig c clients = Inr a"
  shows "ClientIDForTLSState (ClientByPublicKey a) st = Some i \<longleftrightarrow>
    (\<exists>x \<in> set clients. ID x = i \<and> (\<exists>leaf rest pub. PeerCertificates st = leaf # rest \<and>
       PublicKey leaf = Ed25519 pub \<and> RolePublicKey c (ClientSecret x) RoleForward = Inr pub))"
proof (cases "PeerCertificates st")
  case (Cons leaf rest)
  then show ?thesis
    using identify_iff [OF assms Cons, of _ i] RolePublicKey_ok [OF assms(1)]
    by (cases "PublicKey leaf") (auto simp: ClientIDForTLSState_def)
qed (simp add: ClientIDForTLSState_def)

definition sample_clients :: "ClientIdentity list" where
  "sample_clients = [\<lparr>ID = ''a'', ClientSecret = [1]\<rparr>, \<lparr>ID = ''b'', ClientSecret = [2]\<rparr>]"

definition sample_auth :: MultiClientAuthenticator where
  "sample_auth = projr (MultiClientTLSConfig sample_crypto sample_clients)"

lemma sample_auth: "MultiClientTLSConfig sample_crypto sample_clients = Inr sample_auth"
proof -
  have "distinct (map (\<lambda>x. fwdKey sample_crypto (ClientSecret x)) sample_clients)" by code_simp
  then have "is_ok (MultiClientTLSConfig sample_crypto sample_clients)"
    by (simp add: MultiClient_is_ok [OF sample_crypto_ok] sample_clients_def)
  then show ?thesis unfolding sample_auth_def is_ok_iff by auto
qed

definition sample_state :: "bytes \<Rightarrow> tls_state" where
  "sample_state pub = \<lparr>PeerCertificates = [\<lparr>SerialNumber = 1, CommonName = [], DNSNames = [],
     NotBefore = (2024, 1, 1), NotAfter = (2124, 1, 1), KeyUsage = [], ExtKeyUsage = [ClientAuth],
     IsCA = False, PublicKey = Ed25519 pub, SignedBy = []\<rparr>], ServerName = ''a.mule-exit''\<rparr>"

theorem ClientIDForTLSState_exact_witness:
  "crypto_ok sample_crypto \<and> MultiClientTLSConfig sample_crypto sample_clients = Inr sample_auth \<and>
   ClientIDForTLSState (ClientByPublicKey sample_auth)
     (sample_state (projr (RolePublicKey sample_crypto [2] RoleForward))) = Some ''b''"
  using sample_crypto_ok sample_auth
    ClientIDForTLSState_exact [OF sample_crypto_ok sample_auth, of "sample_state (projr (RolePublicKey sample_crypto [2] RoleForward))" "''b''"]
  by (simp add: sample_state_def sample_clients_def RolePublicKey_ok [OF sample_crypto_ok])

text \<open>C7: An agent that holds the secret of a configured client and dials the server (or probe) name of
  that client completes the mutual handshake and is identified as that client, provided the client
  id does not start with a hyphen.\<close>

theorem handshake_authenticates:
  assumes "crypto_ok c" "MultiClientTLSConfig c clients = Inr a"
    and "distinct (map ID clients)" "\<forall>x \<in> set clients. clientIDPattern (ID x)" "x \<in> set clients"
    and "hd (ID x) \<noteq> CHR ''-''"
    and "name = ExitServerNameForClient (ID x) \<or> name = ProbeServerNameForClient (ID x)"
  shows "\<exists>cfg st. TLSConfigWithServerName c (ClientSecret x) RoleForward name = Inr cfg \<and>
    handshake cfg a = Inr st \<and> ClientIDForTLSState (ClientByPublicKey a) st = Some (ID x)"
proof -
  obtain cfg where "TLSConfigWithServerName c (ClientSecret x) RoleForward name = Inr cfg"
    "agentConfig c (ClientSecret x) name cfg"
    using TLSConfig_ok [OF assms(1)] by blast
  with handshake_complete [OF assms(1-5,7)] assms(6) show ?thesis by fastforce
qed

theorem handshake_authenticates_witness:
  "\<exists>cfg st. TLSConfigWithServerName sample_crypto [2] RoleForward ''b.mule-exit'' = Inr cfg \<and>
    handshake cfg sample_auth = Inr st \<and> ClientIDForTLSState (ClientByPublicKey sample_auth) st = Some ''b''"
proof -
  have x: "\<lparr>ID = ''b'', ClientSecret = [2]\<rparr> \<in> set sample_clients" by (simp add: sample_clients_def)
  have ids: "distinct (map ID sample_clients)" "\<forall>x \<in> set sample_clients. clientIDPattern (ID x)"
    by (code_simp, code_simp)
  show ?thesis
    using handshake_authenticates [OF sample_crypto_ok sample_auth ids x, of "''b.mule-exit''"]
    by (simp add: ExitServerNameForClient_def ExitServerName_def)
qed

text \<open>C36: \<open>clientIDPattern\<close> accepts an id that starts with a hyphen, but an agent with such an id never
  completes the handshake: host name verification refuses the server's certificate, for the server
  name and for the probe name.\<close>

theorem hyphen_client_never_connects:
  assumes "crypto_ok c" "MultiClientTLSConfig c clients = Inr a"
    and "distinct (map ID clients)" "\<forall>x \<in> set clients. clientIDPattern (ID x)" "x \<in> set clients"
    and "hd (ID x) = CHR ''-''"
    and "name = ExitServerNameForClient (ID x) \<or> name = ProbeServerNameForClient (ID x)"
  shows "\<exists>cfg. TLSConfigWithServerName c (ClientSecret x) RoleForward name = Inr cfg \<and>
    handshake cfg a = Inl BadServerName"
proof -
  obtain cfg where "TLSConfigWithServerName c (ClientSecret x) RoleForward name = Inr cfg"
    "agentConfig c (ClientSecret x) name cfg"
    using TLSConfig_ok [OF assms(1)] by blast
  with handshake_complete [OF assms(1-5,7)] assms(6) show ?thesis by fastforce
qed

theorem hyphen_client_never_connects_witness:
  "ValidateClientID ''-a'' = Inr () \<and>
   (\<exists>a cfg. MultiClientTLSConfig sample_crypto [\<lparr>ID = ''-a'', ClientSecret = [1]\<rparr>] = Inr a \<and>
     TLSConfigWithServerName sample_crypto [1] RoleForward ''-a.mule-exit'' = Inr cfg \<and>
     handshake cfg a = Inl BadServerName)"
proof -
  let ?cl = "[\<lparr>ID = ''-a'', ClientSecret = [1]\<rparr>]"
  have "is_ok (MultiClientTLSConfig sample_crypto ?cl)"
    by (simp add: MultiClient_is_ok [OF sample_crypto_ok])
  then obtain a where a: "MultiClientTLSConfig sample_crypto ?cl = Inr a" by (auto simp: is_ok_iff)
  have ids: "distinct (map ID ?cl)" "\<forall>x \<in> set ?cl. clientIDPattern (ID x)" by (simp, code_simp)
  have "ValidateClientID ''-a'' = Inr ()" by code_simp
  with a hyphen_client_never_connects [OF sample_crypto_ok a ids, of _ "''-a.mule-exit''"] show ?thesis
    by (simp add: ExitServerNameForClient_def ExitServerName_def)
qed

text \<open>C6: A completed handshake authenticates both sides. The peer that the server sees carries the
  forward key of a configured client, the client it is then identified as, and the server presented
  the certificate of the client named by the SNI, whose exit key is the one the agent's own secret
  derives.\<close>

theorem handshake_sound:
  assumes "crypto_ok c" "MultiClientTLSConfig c clients = Inr a"
    and "TLSConfigWithServerName c secret RoleForward name = Inr cfg" "handshake cfg a = Inr st"
  shows "(\<exists>x \<in> set clients. ClientIDForTLSState (ClientByPublicKey a) st = Some (ID x) \<and>
      RolePublicKey c (ClientSecret x) RoleForward = RolePublicKey c secret RoleForward) \<and>
    (\<exists>y \<in> set clients. (name = ExitServerNameForClient (ID y) \<or> name = ProbeServerNameForClient (ID y)) \<and>
      RolePublicKey c (ClientSecret y) RoleExit = RolePublicKey c secret RoleExit)"
proof -
  have cfg: "agentConfig c secret name cfg" using TLSConfig_ok [OF assms(1), of secret name] assms(3) by auto
  then obtain crt key where crt: "Certificates cfg = [(crt, key)]" "PublicKey crt = Ed25519 (fwdKey c secret)"
    and n: "ConfigServerName cfg = name" and pin: "VerifyConnection cfg = verifyPinned (exitKey c secret)"
    by (auto simp: agentConfig_def)
  obtain leaf k where leaf: "map_of (certBySNI a) name = Some (leaf, k)"
      "verifyPinned (exitKey c secret) \<lparr>PeerCertificates = [leaf], ServerName = name\<rparr> = Inr ()"
      "st = \<lparr>PeerCertificates = [crt], ServerName = name\<rparr>" "verifyKnown (ClientByPublicKey a) st = Inr ()"
    using assms(4) MultiClient_Inr(4) [OF assms(1,2)]
    by (auto simp: handshake_def peerCertificates_def crt(1) n pin GetCertificate_def result_iff Let_def
        split: option.splits if_splits)
  have add: "addClients c clients emptyAuthenticator = Inr a"
    using assms(2) by (simp add: MultiClientTLSConfig_def split: if_splits)
  obtain y where y: "y \<in> set clients" "(leaf, k) = exitCert c (ClientSecret y)"
      "name = ExitServerNameForClient (ID y) \<or> name = ProbeServerNameForClient (ID y)"
    using certBySNI_origin [OF assms(1) add leaf(1)] by (auto simp: emptyAuthenticator_def)
  have exit: "exitKey c (ClientSecret y) = exitKey c secret"
    using exitCert_ok [OF assms(1), of "ClientSecret y"] leaf(2) unfolding y(2) [symmetric]
    by (auto simp: verifyPinned_def split: if_splits)
  obtain i where i: "ClientIDForTLSState (ClientByPublicKey a) st = Some i"
    using leaf(4) by (auto simp: verifyKnown_def split: option.splits)
  then obtain x where "x \<in> set clients" "ID x = i" "fwdKey c (ClientSecret x) = fwdKey c secret"
    using identify_iff [OF assms(1,2) _ crt(2), of st "[]" i] leaf(3) by auto
  with i y exit show ?thesis by (auto simp: RolePublicKey_ok [OF assms(1)])
qed

theorem handshake_sound_witness:
  "\<exists>cfg st. TLSConfigWithServerName sample_crypto [2] RoleForward ''b.mule-exit'' = Inr cfg \<and>
    handshake cfg sample_auth = Inr st \<and>
    (\<exists>x \<in> set sample_clients. ClientIDForTLSState (ClientByPublicKey sample_auth) st = Some (ID x) \<and>
      RolePublicKey sample_crypto (ClientSecret x) RoleForward = RolePublicKey sample_crypto [2] RoleForward)"
proof -
  have x: "\<lparr>ID = ''b'', ClientSecret = [2]\<rparr> \<in> set sample_clients" by (simp add: sample_clients_def)
  have ids: "distinct (map ID sample_clients)" "\<forall>x \<in> set sample_clients. clientIDPattern (ID x)"
    by (code_simp, code_simp)
  obtain cfg where cfg: "TLSConfigWithServerName sample_crypto [2] RoleForward ''b.mule-exit'' = Inr cfg"
    "agentConfig sample_crypto [2] ''b.mule-exit'' cfg"
    using TLSConfig_ok [OF sample_crypto_ok] by blast
  then obtain st where st: "handshake cfg sample_auth = Inr st"
    using handshake_complete [OF sample_crypto_ok sample_auth ids x, of "''b.mule-exit''" cfg]
    by (auto simp: ExitServerNameForClient_def ExitServerName_def)
  from handshake_sound [OF sample_crypto_ok sample_auth cfg(1) st] cfg(1) st show ?thesis by blast
qed

end
