(* ===== verification/Go_IO.thy ===== *)
theory Go_IO
  imports Mule_Prelude
begin

text \<open>
  The part of Go's \<open>io\<close>, \<open>encoding/binary\<close> and network stream interfaces that mule calls.

  A \<open>stream\<close> is one end of a byte stream (a QUIC stream or a TCP connection) as the program
  sees it through \<open>Read\<close> and \<open>Write\<close>: the chunks that later reads will deliver and the error
  that ends them, the bytes delivered so far to the peer, and a script of how the transport
  answers later writes (short counts, errors, even counts out of range). Statements that
  quantify over streams quantify over every such behaviour of the transport.

  The locale \<open>byte_writer\<close> is the contract of \<open>io.Writer\<close> as far as the control protocol
  relies on it; it is interpreted on \<open>stream_Write\<close> below.
\<close>

section \<open>Errors and streams\<close>

datatype io_error =
    EOF
  | ErrUnexpectedEOF
  | ErrShortWrite
  | InvalidWriteCount
  | DeadlineExceeded
  | StreamReset nat

record stream =
  rx :: "bytes list"
  rx_err :: io_error
  tx :: bytes
  wr_script :: "(int \<times> io_error option) list"
  deadline :: "int option"
  closed :: bool

definition stream_Read :: "nat \<Rightarrow> stream \<Rightarrow> (bytes \<times> io_error option) \<times> stream" where
  "stream_Read n s =
     (case rx s of
        [] \<Rightarrow> (([], Some (rx_err s)), s)
      | c # cs \<Rightarrow>
          ((take n c, None), s\<lparr>rx := (if length c \<le> n then cs else drop n c # cs)\<rparr>))"

text \<open>
  One \<open>Write\<close>: the transport answers with a count and an error and has delivered that many
  bytes of the buffer; once the script is used up it accepts everything.
\<close>

definition stream_Write :: "bytes \<Rightarrow> stream \<Rightarrow> (int \<times> io_error option) \<times> stream" where
  "stream_Write p s =
     (case wr_script s of
        [] \<Rightarrow> ((int (length p), None), s\<lparr>tx := tx s @ p\<rparr>)
      | (n, e) # r \<Rightarrow> ((n, e), s\<lparr>tx := tx s @ take (nat n) p, wr_script := r\<rparr>))"

definition stream_Close :: "stream \<Rightarrow> stream" where
  "stream_Close s = s\<lparr>closed := True\<rparr>"

definition stream_SetDeadline :: "int option \<Rightarrow> stream \<Rightarrow> stream" where
  "stream_SetDeadline d s = s\<lparr>deadline := d\<rparr>"

definition arriving :: "stream \<Rightarrow> bytes" where
  "arriving s = concat (rx s)"

lemma arriving_SetDeadline [simp]: "arriving (stream_SetDeadline d s) = arriving s"
  by (simp add: arriving_def stream_SetDeadline_def)

lemma rx_err_SetDeadline [simp]: "rx_err (stream_SetDeadline d s) = rx_err s"
  by (simp add: stream_SetDeadline_def)

lemma tx_SetDeadline [simp]: "tx (stream_SetDeadline d s) = tx s"
  by (simp add: stream_SetDeadline_def)

lemma wr_script_SetDeadline [simp]: "wr_script (stream_SetDeadline d s) = wr_script s"
  by (simp add: stream_SetDeadline_def)

lemma stream_Close_simps [simp]:
  "tx (stream_Close s) = tx s" "closed (stream_Close s)" "rx (stream_Close s) = rx s"
  "wr_script (stream_Close s) = wr_script s" "deadline (stream_Close s) = deadline s"
  by (simp_all add: stream_Close_def)

section \<open>io.ReadFull\<close>

text \<open>
  \<open>io.ReadFull\<close> reads until the buffer is full or a read fails. It returns no error when the
  buffer is full, \<open>ErrUnexpectedEOF\<close> when the stream ends inside it, and the reader's own
  error otherwise (\<open>EOF\<close> when not a single byte was read). A read of zero bytes without an
  error only makes it try again.
\<close>

function readFull_loop :: "nat \<Rightarrow> bytes \<Rightarrow> stream \<Rightarrow> (io_error + bytes) \<times> stream" where
  "readFull_loop n acc s =
     (if n = 0 then (Inr acc, s)
      else case rx s of
          [] \<Rightarrow> (Inl (if acc \<noteq> [] \<and> rx_err s = EOF then ErrUnexpectedEOF else rx_err s), s)
        | c # cs \<Rightarrow>
            readFull_loop (n - length (take n c)) (acc @ take n c)
              (s\<lparr>rx := (if length c \<le> n then cs else drop n c # cs)\<rparr>))"
  by pat_completeness auto
termination
  by (relation "measure (\<lambda>(n, acc, s). length (rx s) + n)") auto

declare readFull_loop.simps [simp del]

definition ReadFull :: "nat \<Rightarrow> stream \<Rightarrow> (io_error + bytes) \<times> stream" where
  "ReadFull n s = readFull_loop n [] s"

text \<open>
  What \<open>ReadFull\<close> returns depends on the bytes that arrive and not on how the transport cuts
  them into chunks.
\<close>

lemma readFull_loop_ok:
  assumes "n \<le> length (arriving s)"
  shows "\<exists>cs. readFull_loop n acc s = (Inr (acc @ take n (arriving s)), s\<lparr>rx := cs\<rparr>) \<and>
    concat cs = drop n (arriving s)"
  using assms
proof (induction n acc s rule: readFull_loop.induct)
  case (1 n acc s)
  show ?case
  proof (cases "n = 0 \<or> rx s = []")
    case True
    with "1.prems" show ?thesis
      by (auto simp: readFull_loop.simps [of n acc s] arriving_def intro: exI [of _ "rx s"])
  next
    case False
    then obtain c cs where rx: "rx s = c # cs" and n: "n \<noteq> 0"
      by (cases "rx s") auto
    let ?s = "s\<lparr>rx := (if length c \<le> n then cs else drop n c # cs)\<rparr>"
    have drop: "arriving ?s = drop (length (take n c)) (arriving s)"
      by (simp add: arriving_def rx)
    have "n - length (take n c) \<le> length (arriving ?s)"
      using "1.prems" by (simp add: drop)
    with "1.IH" [OF n rx] obtain ds where
      ds: "readFull_loop (n - length (take n c)) (acc @ take n c) ?s =
        (Inr ((acc @ take n c) @ take (n - length (take n c)) (arriving ?s)), ?s\<lparr>rx := ds\<rparr>)"
      "concat ds = drop (n - length (take n c)) (arriving ?s)"
      by auto
    have "take n c @ take (n - length (take n c)) (arriving ?s) = take n (arriving s)"
      by (simp add: drop) (simp add: arriving_def rx min_def)
    moreover have "drop (n - length (take n c)) (arriving ?s) = drop n (arriving s)"
      by (simp add: drop min_def)
    ultimately show ?thesis
      using ds n rx by (simp add: readFull_loop.simps [of n acc s] exI [of _ ds])
  qed
qed

lemma readFull_loop_short:
  assumes "length (arriving s) < n"
  shows "readFull_loop n acc s =
    (Inl (if (acc \<noteq> [] \<or> arriving s \<noteq> []) \<and> rx_err s = EOF then ErrUnexpectedEOF else rx_err s),
     s\<lparr>rx := []\<rparr>)"
  using assms
proof (induction n acc s rule: readFull_loop.induct)
  case (1 n acc s)
  show ?case
  proof (cases "rx s")
    case Nil
    with "1.prems" show ?thesis
      by (simp add: readFull_loop.simps [of n acc s] arriving_def)
  next
    case (Cons c cs)
    let ?s = "s\<lparr>rx := (if length c \<le> n then cs else drop n c # cs)\<rparr>"
    have n: "n \<noteq> 0" and c: "length c < n"
      using "1.prems" by (auto simp: arriving_def Cons)
    have "length (arriving ?s) < n - length (take n c)"
      using "1.prems" c by (simp add: arriving_def Cons)
    with "1.IH" [OF n Cons] show ?thesis
      using n c by (auto simp: readFull_loop.simps [of n acc s] Cons arriving_def)
  qed
qed

lemma ReadFull_ok:
  assumes "n \<le> length (arriving s)"
  shows "\<exists>cs. ReadFull n s = (Inr (take n (arriving s)), s\<lparr>rx := cs\<rparr>) \<and>
    concat cs = drop n (arriving s)"
  using readFull_loop_ok [OF assms, of "[]"] by (simp add: ReadFull_def)

lemma ReadFull_short:
  "length (arriving s) < n \<Longrightarrow> ReadFull n s =
    (Inl (if arriving s \<noteq> [] \<and> rx_err s = EOF then ErrUnexpectedEOF else rx_err s), s\<lparr>rx := []\<rparr>)"
  by (simp add: ReadFull_def readFull_loop_short)

lemma ReadFull_cases:
  obtains (ok) cs where "n \<le> length (arriving s)"
    "ReadFull n s = (Inr (take n (arriving s)), s\<lparr>rx := cs\<rparr>)" "concat cs = drop n (arriving s)"
  | (short) "length (arriving s) < n" "ReadFull n s =
      (Inl (if arriving s \<noteq> [] \<and> rx_err s = EOF then ErrUnexpectedEOF else rx_err s), s\<lparr>rx := []\<rparr>)"
  using ReadFull_ok [of n s] ReadFull_short [of s n] by (cases "n \<le> length (arriving s)") auto

lemma ReadFull_Inr:
  assumes "ReadFull n s = (Inr b, s')"
  shows "n \<le> length (arriving s)" "b = take n (arriving s)" "arriving s' = drop n (arriving s)"
proof -
  have len: "n \<le> length (arriving s)"
  proof (rule ccontr)
    assume "\<not> n \<le> length (arriving s)"
    with assms show False by (simp add: ReadFull_short)
  qed
  then obtain cs where "ReadFull n s = (Inr (take n (arriving s)), s\<lparr>rx := cs\<rparr>)"
    "concat cs = drop n (arriving s)"
    using ReadFull_ok by blast
  with assms len show "n \<le> length (arriving s)" "b = take n (arriving s)"
    "arriving s' = drop n (arriving s)"
    by (auto simp: arriving_def)
qed

lemma ReadFull_frame: "\<exists>cs. snd (ReadFull n s) = s\<lparr>rx := cs\<rparr>"
  by (cases rule: ReadFull_cases [of n s]) auto

lemma ReadFull_consumes:
  "\<exists>k \<le> n. arriving (snd (ReadFull n s)) = drop k (arriving s)"
proof (cases rule: ReadFull_cases [of n s])
  case (ok cs)
  then show ?thesis by (auto simp: arriving_def)
next
  case short
  then show ?thesis
    by (intro exI [of _ "length (arriving s)"]) (simp add: arriving_def)
qed

text \<open>Two streams that deliver the same bytes and end the same way cannot be told apart.\<close>

definition same_input :: "stream \<Rightarrow> stream \<Rightarrow> bool" where
  "same_input s t \<longleftrightarrow> arriving s = arriving t \<and> rx_err s = rx_err t"

lemma ReadFull_same_input:
  assumes "same_input s t"
  shows "fst (ReadFull n s) = fst (ReadFull n t)"
    and "same_input (snd (ReadFull n s)) (snd (ReadFull n t))"
proof -
  have "fst (ReadFull n s) = fst (ReadFull n t) \<and>
    same_input (snd (ReadFull n s)) (snd (ReadFull n t))"
  proof (cases "n \<le> length (arriving s)")
    case True
    then show ?thesis
      using ReadFull_ok [of n s] ReadFull_ok [of n t] assms
      by (auto simp: same_input_def arriving_def)
  next
    case False
    then show ?thesis
      using assms by (simp add: same_input_def ReadFull_short) (simp add: arriving_def)
  qed
  then show "fst (ReadFull n s) = fst (ReadFull n t)"
    and "same_input (snd (ReadFull n s)) (snd (ReadFull n t))" by auto
qed

section \<open>Big-endian 16-bit integers\<close>

definition PutUint16 :: "16 word \<Rightarrow> bytes" where
  "PutUint16 v = [ucast (drop_bit 8 v), ucast v]"

definition Uint16 :: "bytes \<Rightarrow> 16 word" where
  "Uint16 b = (case b of h # l # _ \<Rightarrow> push_bit 8 (ucast h) + ucast l | _ \<Rightarrow> 0)"

definition uint16_of_len :: "nat \<Rightarrow> 16 word" where
  "uint16_of_len n = word_of_nat n"

lemma length_PutUint16 [simp]: "length (PutUint16 v) = 2"
  by (simp add: PutUint16_def)

lemma unat_Uint16: "unat (Uint16 (h # l # r)) = unat h * 256 + unat l"
proof -
  have "unat h < 256" "unat l < 256"
    using unsigned_less [of h] unsigned_less [of l] by simp_all
  then have "unat h * 256 + unat l < 65536"
    by simp
  then show ?thesis
    by (simp add: Uint16_def push_bit_eq_mult unat_word_ariths unsigned_ucast_eq
        take_bit_nat_eq_self mult.commute)
qed

lemma unat_PutUint16: "map unat (PutUint16 v) = [unat v div 256, unat v mod 256]"
proof -
  have "unat v < 65536"
    using unsigned_less [of v] by simp
  then have "unat v div 256 < 256"
    by simp
  moreover have "unat (drop_bit 8 v) = unat v div 256"
    by (subst unat_drop_bit_eq) (simp add: drop_bit_eq_div)
  ultimately show ?thesis
    by (simp add: PutUint16_def unsigned_ucast_eq take_bit_nat_eq_self take_bit_eq_mod)
qed

lemma Uint16_PutUint16 [simp]: "Uint16 (PutUint16 v @ r) = v"
proof -
  obtain h l where hl: "PutUint16 v = [h, l]"
    by (simp add: PutUint16_def)
  with unat_PutUint16 [of v] have "unat h = unat v div 256" "unat l = unat v mod 256"
    by simp_all
  then show ?thesis
    by (simp add: hl word_unat_eq_iff unat_Uint16)
qed

lemma PutUint16_Uint16: "length b = 2 \<Longrightarrow> PutUint16 (Uint16 b) = b"
proof -
  assume "length b = 2"
  then obtain h l where b: "b = [h, l]"
    by (auto simp: length2_conv)
  have "unat l < 256"
    using unsigned_less [of l] by simp
  then have "map unat (PutUint16 (Uint16 b)) = map unat b"
    by (simp add: b unat_PutUint16 unat_Uint16)
  then show ?thesis
    by (auto simp: b PutUint16_def word_unat_eq_iff)
qed

lemma unat_uint16_of_len [simp]: "n < 65536 \<Longrightarrow> unat (uint16_of_len n) = n"
  by (simp add: uint16_of_len_def unat_of_nat take_bit_nat_eq_self)

section \<open>The writer contract\<close>

text \<open>
  \<open>io.Writer\<close>: a write that reports a count in range has delivered exactly that prefix of the
  buffer, after everything delivered before. Nothing is assumed of a write whose count is out
  of range, nor of the error it reports.
\<close>

locale byte_writer =
  fixes writer :: "bytes \<Rightarrow> 'w \<Rightarrow> (int \<times> io_error option) \<times> 'w"
    and sent :: "'w \<Rightarrow> bytes"
  assumes writer_delivers:
    "writer p w = ((n, e), w') \<Longrightarrow> 0 \<le> n \<Longrightarrow> n \<le> int (length p) \<Longrightarrow>
       sent w' = sent w @ take (nat n) p"

interpretation stream_writer: byte_writer stream_Write tx
  by unfold_locales (auto simp: stream_Write_def split: list.splits prod.splits)

end
