(* ===== verification/Protocol.thy ===== *)
theory Protocol
  imports Go_IO
begin

text \<open>
  The control protocol, \<open>internal/protocol/control.go\<close>: the frame that opens or probes a
  service on a fresh stream and the OK or ERROR frame that answers it. The theory models the
  frame type, the length-prefixed strings, \<open>writeFull\<close>, \<open>WriteFrame\<close> and \<open>ReadFrame\<close> with
  every error branch, and shows that what one side writes the other side reads (through any
  short writes and any fragmentation), that a frame has one encoding only, that oversized or
  malformed frames are refused, and that no read goes past the frame.
\<close>

section \<open>Constants and the frame\<close>

definition Version :: byte where "Version = 2"
definition MaxFrameLen :: nat where "MaxFrameLen = 4096"

definition TypeOpen :: byte where "TypeOpen = 1"
definition TypeOK :: byte where "TypeOK = 2"
definition TypeError :: byte where "TypeError = 3"
definition TypeProbe :: byte where "TypeProbe = 4"

definition ErrorDialFailed :: byte where "ErrorDialFailed = 1"
definition ErrorOverloaded :: byte where "ErrorOverloaded = 2"
definition ErrorUnauthorized :: byte where "ErrorUnauthorized = 3"
definition ErrorInternalError :: byte where "ErrorInternalError = 4"

definition DirectionForward :: byte where "DirectionForward = 1"
definition DirectionReverse :: byte where "DirectionReverse = 2"

lemmas type_defs = TypeOpen_def TypeOK_def TypeError_def TypeProbe_def
lemmas code_defs = ErrorDialFailed_def ErrorOverloaded_def ErrorUnauthorized_def
  ErrorInternalError_def
lemmas direction_defs = DirectionForward_def DirectionReverse_def
lemmas protocol_consts = Version_def MaxFrameLen_def type_defs code_defs direction_defs

lemma type_distinct [simp]:
  "TypeOpen \<noteq> TypeOK" "TypeOK \<noteq> TypeOpen" "TypeOpen \<noteq> TypeError" "TypeError \<noteq> TypeOpen"
  "TypeOpen \<noteq> TypeProbe" "TypeProbe \<noteq> TypeOpen" "TypeOK \<noteq> TypeError" "TypeError \<noteq> TypeOK"
  "TypeOK \<noteq> TypeProbe" "TypeProbe \<noteq> TypeOK" "TypeError \<noteq> TypeProbe" "TypeProbe \<noteq> TypeError"
  by (simp_all add: type_defs)

lemma direction_distinct [simp]:
  "DirectionForward \<noteq> DirectionReverse" "DirectionReverse \<noteq> DirectionForward"
  by (simp_all add: direction_defs)

record Frame =
  Type :: byte
  Code :: byte
  Direction :: byte
  Service :: string
  PeerID :: string
  Listener :: string
  SourceAddr :: string
  ConnectionID :: string

text \<open>The zero value \<open>Frame{}\<close>.\<close>

definition zeroFrame :: Frame where
  "zeroFrame = \<lparr>Type = 0, Code = 0, Direction = 0, Service = [], PeerID = [], Listener = [],
     SourceAddr = [], ConnectionID = []\<rparr>"

text \<open>
  \<open>ErrUnknownType\<close> is the wrapped \<open>fmt.Errorf("%w: unknown type %d", ErrBadFrame, ...)\<close>;
  \<open>IOError\<close> carries an error of the underlying reader or writer.
\<close>

datatype proto_error =
    ErrFrameTooLarge
  | ErrBadVersion
  | ErrBadFrame
  | ErrUnknownType byte
  | IOError io_error

definition validErrorCode :: "byte \<Rightarrow> bool" where
  "validErrorCode c \<longleftrightarrow>
     c = ErrorDialFailed \<or> c = ErrorOverloaded \<or> c = ErrorUnauthorized \<or> c = ErrorInternalError"

definition validDirection :: "byte \<Rightarrow> bool" where
  "validDirection d \<longleftrightarrow> \<not> (d \<noteq> DirectionForward \<and> d \<noteq> DirectionReverse)"

section \<open>Length-prefixed strings\<close>

definition appendString :: "bytes \<Rightarrow> string \<Rightarrow> proto_error + bytes" where
  "appendString body s =
     (if MaxFrameLen < length s then Inl ErrFrameTooLarge
      else let body' = body @ PutUint16 (uint16_of_len (length s)) @ bytes_of_string s
           in if MaxFrameLen < length body' then Inl ErrFrameTooLarge else Inr body')"

fun appendStrings :: "bytes \<Rightarrow> string list \<Rightarrow> proto_error + bytes" where
  "appendStrings body [] = Inr body"
| "appendStrings body (s # ss) = bind_result (appendString body s) (\<lambda>b. appendStrings b ss)"

definition readString :: "bytes \<Rightarrow> proto_error + (string \<times> bytes)" where
  "readString body =
     (if length body < 2 then Inl ErrBadFrame
      else let n = unat (Uint16 (take 2 body)); body' = drop 2 body
           in if length body' < n then Inl ErrBadFrame
              else Inr (string_of_bytes (take n body'), drop n body'))"

section \<open>Writing\<close>

function writeFull :: "(bytes \<Rightarrow> 'w \<Rightarrow> (int \<times> io_error option) \<times> 'w) \<Rightarrow> bytes \<Rightarrow> 'w \<Rightarrow>
    io_error option \<times> 'w" where
  "writeFull writer p w =
     (if p = [] then (None, w)
      else case writer p w of ((n, err), w') \<Rightarrow>
        if n < 0 \<or> int (length p) < n then (Some InvalidWriteCount, w')
        else case err of
            Some e \<Rightarrow> (Some e, w')
          | None \<Rightarrow>
              if n = 0 then (Some ErrShortWrite, w')
              else writeFull writer (drop (nat n) p) w')"
  by pat_completeness auto
termination
  by (relation "measure (\<lambda>(writer, p, w). length p)") auto

declare writeFull.simps [simp del]

text \<open>The body that \<open>WriteFrame\<close> builds before it touches the writer.\<close>

definition frameBody :: "Frame \<Rightarrow> proto_error + bytes" where
  "frameBody f =
     (let body = [Version, Type f] in
      bind_result
        (if Type f = TypeOpen \<or> Type f = TypeProbe then
           if Direction f \<noteq> DirectionForward \<and> Direction f \<noteq> DirectionReverse
           then Inl ErrBadFrame
           else bind_result (appendString (body @ [Direction f]) (Service f))
             (\<lambda>b. appendStrings b [PeerID f, Listener f, SourceAddr f, ConnectionID f])
         else if Type f = TypeError then Inr (body @ [Code f])
         else Inr body)
        (\<lambda>body. if MaxFrameLen < length body then Inl ErrFrameTooLarge else Inr body))"

definition WriteFrame :: "(bytes \<Rightarrow> 'w \<Rightarrow> (int \<times> io_error option) \<times> 'w) \<Rightarrow> Frame \<Rightarrow> 'w \<Rightarrow>
    proto_error option \<times> 'w" where
  "WriteFrame writer f w =
     (case frameBody f of
        Inl e \<Rightarrow> (Some e, w)
      | Inr body \<Rightarrow>
          (case writeFull writer (PutUint16 (uint16_of_len (length body))) w of
             (Some e, w') \<Rightarrow> (Some (IOError e), w')
           | (None, w') \<Rightarrow>
               (case writeFull writer body w' of (e, w'') \<Rightarrow> (map_option IOError e, w''))))"

section \<open>Reading\<close>

text \<open>The checks that \<open>ReadFrame\<close> makes on a body of at least two bytes.\<close>

definition decodeBody :: "bytes \<Rightarrow> proto_error + Frame" where
  "decodeBody body =
     (if body ! 0 \<noteq> Version then Inl ErrBadVersion
      else
        let f = zeroFrame\<lparr>Type := body ! 1\<rparr> in
        if Type f = TypeOpen \<or> Type f = TypeProbe then
          if length body < 3 then Inl ErrBadFrame
          else
            let f = f\<lparr>Direction := body ! 2\<rparr> in
            if Direction f \<noteq> DirectionForward \<and> Direction f \<noteq> DirectionReverse
            then Inl ErrBadFrame
            else
              bind_result (readString (drop 3 body)) (\<lambda>(service, rest).
              bind_result (readString rest) (\<lambda>(peer, rest).
              bind_result (readString rest) (\<lambda>(listener, rest).
              bind_result (readString rest) (\<lambda>(source, rest).
              bind_result (readString rest) (\<lambda>(conn, rest).
                if rest \<noteq> [] then Inl ErrBadFrame
                else Inr (f\<lparr>Service := service, PeerID := peer, Listener := listener,
                       SourceAddr := source, ConnectionID := conn\<rparr>))))))
        else if Type f = TypeOK then
          if length body \<noteq> 2 then Inl ErrBadFrame else Inr f
        else if Type f = TypeError then
          if length body \<noteq> 3 then Inl ErrBadFrame
          else
            let f = f\<lparr>Code := body ! 2\<rparr> in
            if \<not> validErrorCode (Code f) then Inl ErrBadFrame else Inr f
        else Inl (ErrUnknownType (Type f)))"

definition ReadFrame :: "stream \<Rightarrow> (proto_error + Frame) \<times> stream" where
  "ReadFrame s =
     (case ReadFull 2 s of
        (Inl e, s1) \<Rightarrow> (Inl (IOError e), s1)
      | (Inr hdr, s1) \<Rightarrow>
          let n = unat (Uint16 hdr) in
          if MaxFrameLen < n then (Inl ErrFrameTooLarge, s1)
          else if n < 2 then (Inl ErrBadFrame, s1)
          else
            (case ReadFull n s1 of
               (Inl e, s2) \<Rightarrow> (Inl (IOError e), s2)
             | (Inr body, s2) \<Rightarrow> (decodeBody body, s2)))"

section \<open>The wire format\<close>

text \<open>
  The format the code implements, stated once and independently of the two routines:
  \<open>bodyOf\<close> is the body of a frame, \<open>frameBytes\<close> the bytes on the wire and \<open>wireFrame\<close> what of
  a frame the wire carries (an OK frame carries its type only, an ERROR frame its code).
\<close>

definition lenPrefixed :: "string \<Rightarrow> bytes" where
  "lenPrefixed s = PutUint16 (uint16_of_len (length s)) @ bytes_of_string s"

definition opens :: "Frame \<Rightarrow> bool" where
  "opens f \<longleftrightarrow> Type f = TypeOpen \<or> Type f = TypeProbe"

definition bodyOf :: "Frame \<Rightarrow> bytes" where
  "bodyOf f = [Version, Type f] @
     (if opens f then Direction f #
        concat (map lenPrefixed [Service f, PeerID f, Listener f, SourceAddr f, ConnectionID f])
      else if Type f = TypeError then [Code f] else [])"

definition frameBytes :: "Frame \<Rightarrow> bytes" where
  "frameBytes f = PutUint16 (uint16_of_len (length (bodyOf f))) @ bodyOf f"

definition wireFrame :: "Frame \<Rightarrow> Frame" where
  "wireFrame f =
     (if opens f then f\<lparr>Code := 0\<rparr>
      else if Type f = TypeError then zeroFrame\<lparr>Type := Type f, Code := Code f\<rparr>
      else zeroFrame\<lparr>Type := Type f\<rparr>)"

definition wellFormed :: "Frame \<Rightarrow> bool" where
  "wellFormed f \<longleftrightarrow>
     (opens f \<and> validDirection (Direction f)
      \<or> Type f = TypeOK
      \<or> Type f = TypeError \<and> validErrorCode (Code f)) \<and>
     length (bodyOf f) \<le> MaxFrameLen"

lemma length_lenPrefixed [simp]: "length (lenPrefixed s) = 2 + length s"
  by (simp add: lenPrefixed_def)

lemma length_bodyOf:
  "length (bodyOf f) =
     (if opens f then 13 + length (Service f) + length (PeerID f) + length (Listener f) +
        length (SourceAddr f) + length (ConnectionID f)
      else if Type f = TypeError then 3 else 2)"
  by (simp add: bodyOf_def)

lemma bodyOf_wireFrame [simp]: "bodyOf (wireFrame f) = bodyOf f"
  by (simp add: bodyOf_def wireFrame_def opens_def zeroFrame_def protocol_consts)

lemma opens_wireFrame [simp]: "opens (wireFrame f) = opens f"
  by (simp add: wireFrame_def opens_def zeroFrame_def)

lemma wireFrame_idem [simp]: "wireFrame (wireFrame f) = wireFrame f"
  by (simp add: wireFrame_def opens_def zeroFrame_def)

section \<open>Strings: encoding and decoding\<close>

lemma appendString_Inr_iff:
  "length b \<le> MaxFrameLen \<Longrightarrow>
   appendString b s = Inr b' \<longleftrightarrow> b' = b @ lenPrefixed s \<and> length b' \<le> MaxFrameLen"
  by (auto simp: appendString_def lenPrefixed_def Let_def split: if_splits)

lemma appendStrings_Inr_iff:
  "length b \<le> MaxFrameLen \<Longrightarrow>
   appendStrings b ss = Inr b' \<longleftrightarrow>
     b' = b @ concat (map lenPrefixed ss) \<and> length b' \<le> MaxFrameLen"
proof (induction ss arbitrary: b)
  case (Cons s ss)
  then show ?case
    by (auto simp: bind_result_Inr_iff appendString_Inr_iff)
qed auto

lemma appendStrings_Inl: "appendStrings b ss = Inl e \<Longrightarrow> e = ErrFrameTooLarge"
proof (induction ss arbitrary: b)
  case (Cons s ss)
  then show ?case
    by (cases "appendString b s") (auto simp: appendString_def Let_def split: if_splits)
qed simp

lemma readString_lenPrefixed:
  "length s < 65536 \<Longrightarrow> readString (lenPrefixed s @ r) = Inr (s, r)"
proof -
  assume "length s < 65536"
  moreover have "take 2 (lenPrefixed s @ r) = PutUint16 (uint16_of_len (length s)) @ []"
    by (simp add: lenPrefixed_def)
  moreover have "drop 2 (lenPrefixed s @ r) = bytes_of_string s @ r"
    by (simp add: lenPrefixed_def)
  ultimately show ?thesis
    by (simp only: readString_def Let_def Uint16_PutUint16 unat_uint16_of_len) simp
qed

lemma readString_Inr:
  assumes "readString b = Inr (s, r)"
  shows "b = lenPrefixed s @ r"
proof -
  let ?n = "unat (Uint16 (take 2 b))"
  from assms have len: "2 \<le> length b" "?n \<le> length (drop 2 b)"
    and s: "s = string_of_bytes (take ?n (drop 2 b))" and r: "r = drop ?n (drop 2 b)"
    by (auto simp: readString_def Let_def split: if_splits)
  have "length s = ?n"
    using len by (simp add: s)
  then have "lenPrefixed s = take 2 b @ take ?n (drop 2 b)"
    using len by (simp add: lenPrefixed_def s uint16_of_len_def PutUint16_Uint16)
  then have "lenPrefixed s @ r = take 2 b @ take ?n (drop 2 b) @ drop ?n (drop 2 b)"
    by (simp only: r append_assoc)
  then show ?thesis
    by (simp only: append_take_drop_id)
qed

section \<open>Bodies: encoding and decoding\<close>

lemma bind_limit_Inr_iff:
  "bind_result m (\<lambda>b. if n < length b then Inl e else Inr b) = Inr y \<longleftrightarrow>
     m = Inr y \<and> length y \<le> n"
  by (cases m) auto

lemma frameBody_Inr_iff:
  "frameBody f = Inr body \<longleftrightarrow>
     (opens f \<longrightarrow> validDirection (Direction f)) \<and> body = bodyOf f \<and> length body \<le> MaxFrameLen"
proof (cases "opens f")
  case True
  then show ?thesis
    by (auto simp: frameBody_def opens_def bodyOf_def validDirection_def bind_limit_Inr_iff
        appendStrings_Inr_iff MaxFrameLen_def simp flip: appendStrings.simps(2))
next
  case False
  then show ?thesis
    by (auto simp: frameBody_def opens_def bodyOf_def MaxFrameLen_def)
qed

lemma frameBody_Inl:
  "frameBody f = Inl e \<Longrightarrow> e = ErrBadFrame \<or> e = ErrFrameTooLarge"
  by (auto simp: frameBody_def appendString_def Let_def bind_result_def
      split: if_splits sum.splits dest: appendStrings_Inl)

lemma frameBody_too_large:
  assumes "frameBody f = Inl e" "\<not> (opens f \<and> \<not> validDirection (Direction f))"
  shows "e = ErrFrameTooLarge"
  using assms
  by (auto simp: frameBody_def opens_def validDirection_def appendString_def Let_def bind_result_def
      split: if_splits sum.splits dest: appendStrings_Inl)

lemma wellFormed_frameBody: "wellFormed f \<Longrightarrow> frameBody f = Inr (bodyOf f)"
  by (auto simp: frameBody_Inr_iff wellFormed_def opens_def type_defs)

lemma decodeBody_bodyOf:
  assumes "wellFormed f"
  shows "decodeBody (bodyOf f) = Inr (wireFrame f)"
proof (cases "opens f")
  case True
  with assms have "length (Service f) < 65536" "length (PeerID f) < 65536"
    "length (Listener f) < 65536" "length (SourceAddr f) < 65536" "length (ConnectionID f) < 65536"
    by (auto simp: wellFormed_def length_bodyOf MaxFrameLen_def)
  moreover have "readString (lenPrefixed s) = Inr (s, [])" if "length s < 65536" for s
    using readString_lenPrefixed [OF that, of "[]"] by simp
  ultimately show ?thesis
    using True assms
    by (auto simp: decodeBody_def bodyOf_def wireFrame_def opens_def wellFormed_def validDirection_def
        readString_lenPrefixed zeroFrame_def Let_def)
next
  case False
  with assms show ?thesis
    by (auto simp: decodeBody_def bodyOf_def wireFrame_def opens_def wellFormed_def zeroFrame_def
        type_defs Let_def)
qed


lemma decodeBody_Inr:
  assumes len: "2 \<le> length b" "length b \<le> MaxFrameLen" and ok: "decodeBody b = Inr f"
  shows "b = bodyOf f \<and> wellFormed f \<and> wireFrame f = f"
proof (cases "b ! 1 = TypeOpen \<or> b ! 1 = TypeProbe")
  case True
  let ?g = "zeroFrame\<lparr>Type := b ! 1, Direction := b ! 2\<rparr>"
  from True ok have v: "b ! 0 = Version" and len3: "3 \<le> length b" and
    dir: "b ! 2 = DirectionForward \<or> b ! 2 = DirectionReverse"
    by (auto simp: decodeBody_def Let_def zeroFrame_def split: if_splits)
  with True ok obtain s1 r1 s2 r2 s3 r3 s4 r4 s5 where
    rd: "readString (drop 3 b) = Inr (s1, r1)" "readString r1 = Inr (s2, r2)"
      "readString r2 = Inr (s3, r3)" "readString r3 = Inr (s4, r4)" "readString r4 = Inr (s5, [])"
    and f: "f = ?g\<lparr>Service := s1, PeerID := s2, Listener := s3, SourceAddr := s4, ConnectionID := s5\<rparr>"
    by (auto simp: decodeBody_def Let_def zeroFrame_def bind_result_Inr_iff split: if_splits prod.splits)
  have "drop 3 b = concat (map lenPrefixed [s1, s2, s3, s4, s5])"
    using rd [THEN readString_Inr] by simp
  then have "b = bodyOf f"
    using list_nth3 [OF len3] v True by (simp add: bodyOf_def f opens_def)
  then show ?thesis
    using True dir len
    by (auto simp: wellFormed_def wireFrame_def f opens_def validDirection_def zeroFrame_def)
next
  case False
  have b: "b = b ! 0 # b ! 1 # drop 2 b"
    using len(1) by (rule list_nth2)
  from False ok have v: "b ! 0 = Version" and
    alt: "b ! 1 = TypeOK \<and> length b = 2 \<and> f = zeroFrame\<lparr>Type := b ! 1\<rparr> \<or>
      b ! 1 = TypeError \<and> length b = 3 \<and> f = zeroFrame\<lparr>Type := b ! 1, Code := b ! 2\<rparr> \<and>
        validErrorCode (b ! 2)"
    by (auto simp: decodeBody_def Let_def zeroFrame_def split: if_splits)
  from alt show ?thesis
  proof
    assume ok: "b ! 1 = TypeOK \<and> length b = 2 \<and> f = zeroFrame\<lparr>Type := b ! 1\<rparr>"
    then have "b = bodyOf f"
      using b v by (simp add: bodyOf_def opens_def)
    then show ?thesis
      using ok len by (simp add: wellFormed_def wireFrame_def opens_def)
  next
    assume err: "b ! 1 = TypeError \<and> length b = 3 \<and> f = zeroFrame\<lparr>Type := b ! 1, Code := b ! 2\<rparr> \<and>
      validErrorCode (b ! 2)"
    then have "b = bodyOf f"
      using list_nth3 [of b] v by (simp add: bodyOf_def opens_def)
    then show ?thesis
      using err len by (simp add: wellFormed_def wireFrame_def opens_def)
  qed
qed

section \<open>Frames: what ReadFrame does with the bytes that arrive\<close>

lemma length_bodyOf_ge2: "2 \<le> length (bodyOf f)"
  by (simp add: length_bodyOf)

lemma ReadFrame_frameBytes:
  assumes wf: "wellFormed f" and arr: "arriving s = frameBytes f @ rest"
  shows "\<exists>cs. ReadFrame s = (Inr (wireFrame f), s\<lparr>rx := cs\<rparr>) \<and> concat cs = rest"
proof -
  let ?n = "length (bodyOf f)"
  have n: "2 \<le> ?n" "?n \<le> MaxFrameLen"
    using wf length_bodyOf_ge2 by (auto simp: wellFormed_def)
  have hdr: "take 2 (arriving s) = PutUint16 (uint16_of_len ?n) @ []"
    and body: "drop 2 (arriving s) = bodyOf f @ rest"
    by (simp_all add: arr frameBytes_def)
  from ReadFull_ok [of 2 s] obtain cs where
    cs: "ReadFull 2 s = (Inr (take 2 (arriving s)), s\<lparr>rx := cs\<rparr>)" "concat cs = bodyOf f @ rest"
    using body by (auto simp: arr frameBytes_def)
  have len: "unat (Uint16 (take 2 (arriving s))) = ?n"
    using n by (simp only: hdr Uint16_PutUint16) (simp add: MaxFrameLen_def)
  from ReadFull_ok [of ?n "s\<lparr>rx := cs\<rparr>"] cs(2) obtain ds where
    "ReadFull ?n (s\<lparr>rx := cs\<rparr>) = (Inr (bodyOf f), s\<lparr>rx := ds\<rparr>)" "concat ds = rest"
    by (auto simp: arriving_def)
  then show ?thesis
    using cs(1) n len decodeBody_bodyOf [OF wf] by (auto simp: ReadFrame_def Let_def)
qed

corollary ReadFrame_reads:
  assumes "wellFormed f" "arriving s = frameBytes f @ rest"
  shows "\<exists>s'. ReadFrame s = (Inr (wireFrame f), s') \<and> arriving s' = rest"
proof -
  from ReadFrame_frameBytes [OF assms] obtain cs where
    "ReadFrame s = (Inr (wireFrame f), s\<lparr>rx := cs\<rparr>)" "concat cs = rest" by blast
  then show ?thesis
    by (intro exI [of _ "s\<lparr>rx := cs\<rparr>"]) (simp add: arriving_def)
qed

lemma ReadFrame_Inr:
  assumes "ReadFrame s = (Inr f, s')"
  shows "arriving s = frameBytes f @ arriving s' \<and> wellFormed f \<and> wireFrame f = f"
proof -
  from assms obtain hdr s1 where 1: "ReadFull 2 s = (Inr hdr, s1)"
    by (auto simp: ReadFrame_def split: prod.splits sum.splits)
  let ?n = "unat (Uint16 hdr)"
  from assms 1 have n: "2 \<le> ?n" "?n \<le> MaxFrameLen"
    by (auto simp: ReadFrame_def Let_def split: if_splits)
  from assms 1 n obtain body where 2: "ReadFull ?n s1 = (Inr body, s')" "decodeBody body = Inr f"
    by (auto simp: ReadFrame_def Let_def split: prod.splits sum.splits if_splits)
  have h: "2 \<le> length (arriving s)" "hdr = take 2 (arriving s)" "arriving s1 = drop 2 (arriving s)"
    using ReadFull_Inr [OF 1] by simp_all
  have b: "?n \<le> length (arriving s1)" "body = take ?n (arriving s1)" "arriving s' = drop ?n (arriving s1)"
    using ReadFull_Inr [OF 2(1)] by simp_all
  have "length body = ?n"
    using b by simp
  with n 2(2) have f: "body = bodyOf f" "wellFormed f" "wireFrame f = f"
    using decodeBody_Inr [of body f] by auto
  have "length (bodyOf f) = ?n"
    using \<open>length body = ?n\<close> f(1) by simp
  then have "hdr = PutUint16 (uint16_of_len (length (bodyOf f)))"
    using h by (simp add: uint16_of_len_def PutUint16_Uint16)
  then have "frameBytes f @ arriving s' = hdr @ body @ drop ?n (arriving s1)"
    by (simp add: frameBytes_def f(1) b(3))
  also have "\<dots> = hdr @ arriving s1"
    by (simp add: b(2))
  also have "\<dots> = arriving s"
    by (simp only: h append_take_drop_id)
  finally show ?thesis
    using f by simp
qed


section \<open>Writing through short writes\<close>

lemma writeFull_Nil [simp]: "writeFull writer [] w = (None, w)"
  by (simp add: writeFull.simps)

context byte_writer
begin

lemma writeFull_delivers:
  "writeFull writer p w = (None, w') \<Longrightarrow> sent w' = sent w @ p"
proof (induction "length p" arbitrary: p w rule: less_induct)
  case less
  show ?case
  proof (cases "p = []")
    case False
    obtain n err v where w: "writer p w = ((n, err), v)"
      by (metis prod.exhaust)
    from less.prems False w have n: "0 < n" "n \<le> int (length p)"
      and rest: "writeFull writer (drop (nat n) p) v = (None, w')"
      by (auto simp: writeFull.simps [of writer p w] split: if_splits option.splits)
    from n False have "length (drop (nat n) p) < length p"
      by simp
    from less.hyps [OF this rest] writer_delivers [OF w] n show ?thesis
      by simp
  qed (use less.prems in simp)
qed

lemma writeFull_partial:
  "writeFull writer p w = (Some e, w') \<Longrightarrow> e \<noteq> InvalidWriteCount \<Longrightarrow>
     \<exists>k \<le> length p. sent w' = sent w @ take k p"
proof (induction "length p" arbitrary: p w rule: less_induct)
  case less
  from less.prems have ne: "p \<noteq> []" by auto
  obtain n err v where w: "writer p w = ((n, err), v)"
    by (metis prod.exhaust)
  from less.prems ne w have n: "0 \<le> n" "n \<le> int (length p)"
    by (auto simp: writeFull.simps [of writer p w] split: if_splits)
  note v = writer_delivers [OF w n]
  show ?case
  proof (cases "err = None \<and> n \<noteq> 0")
    case True
    with less.prems ne w n have rest: "writeFull writer (drop (nat n) p) v = (Some e, w')"
      by (auto simp: writeFull.simps [of writer p w])
    from True n ne have "length (drop (nat n) p) < length p"
      by simp
    from less.hyps [OF this rest less.prems(2)] obtain k where
      k: "k \<le> length p - nat n" "sent w' = sent v @ take k (drop (nat n) p)"
      by auto
    have "take (nat n) p @ take k (drop (nat n) p) = take (nat n + k) p"
      by (simp add: take_add)
    then show ?thesis
      using k v n by (intro exI [of _ "nat n + k"]) auto
  next
    case False
    with less.prems ne w n have "w' = v"
      by (auto simp: writeFull.simps [of writer p w] split: option.splits if_splits)
    with v n show ?thesis
      by (intro exI [of _ "nat n"]) auto
  qed
qed

lemma WriteFrame_None:
  assumes "WriteFrame writer f w = (None, w')"
  shows "sent w' = sent w @ frameBytes f" "frameBody f = Inr (bodyOf f)"
proof -
  from assms obtain body v where b: "frameBody f = Inr body"
    and 1: "writeFull writer (PutUint16 (uint16_of_len (length body))) w = (None, v)"
    and 2: "writeFull writer body v = (None, w')"
    by (auto simp: WriteFrame_def split: sum.splits prod.splits option.splits)
  from b have "body = bodyOf f"
    by (simp add: frameBody_Inr_iff)
  with writeFull_delivers [OF 1] writeFull_delivers [OF 2] b
  show "sent w' = sent w @ frameBytes f" "frameBody f = Inr (bodyOf f)"
    by (simp_all add: frameBytes_def)
qed

lemma WriteFrame_IOError:
  assumes "WriteFrame writer f w = (Some (IOError e), w')" and e: "e \<noteq> InvalidWriteCount"
  shows "\<exists>k \<le> length (frameBytes f). sent w' = sent w @ take k (frameBytes f)"
proof -
  from assms frameBody_Inl [of f] have b: "frameBody f = Inr (bodyOf f)"
    by (auto simp: WriteFrame_def frameBody_Inr_iff split: sum.splits)
  let ?hdr = "PutUint16 (uint16_of_len (length (bodyOf f)))"
  show ?thesis
  proof (cases "writeFull writer ?hdr w")
    case (Pair r v)
    show ?thesis
    proof (cases r)
      case None
      with Pair assms b have "writeFull writer (bodyOf f) v = (Some e, w')"
        by (auto simp: WriteFrame_def split: prod.splits)
      from writeFull_partial [OF this e] obtain k where
        "k \<le> length (bodyOf f)" "sent w' = sent v @ take k (bodyOf f)" by auto
      with writeFull_delivers [OF Pair [unfolded None]] show ?thesis
        by (intro exI [of _ "2 + k"]) (simp add: frameBytes_def)
    next
      case (Some e')
      with Pair assms b have "writeFull writer ?hdr w = (Some e, w')"
        by (auto simp: WriteFrame_def)
      from writeFull_partial [OF this e] obtain k where
        "k \<le> 2" "sent w' = sent w @ take k ?hdr" by auto
      then show ?thesis
        by (intro exI [of _ k]) (simp add: frameBytes_def)
    qed
  qed
qed

end

lemma WriteFrame_reject:
  "WriteFrame writer f w = (Some e, w') \<Longrightarrow> \<forall>x. e \<noteq> IOError x \<Longrightarrow> w' = w"
  by (auto simp: WriteFrame_def split: sum.splits prod.splits option.splits)

lemma writeFull_accepting:
  "wr_script w = [] \<Longrightarrow> writeFull stream_Write p w = (None, w\<lparr>tx := tx w @ p\<rparr>)"
  by (subst writeFull.simps) (simp add: stream_Write_def)

section \<open>Torn frames\<close>

text \<open>A proper prefix of a frame ends in an I/O error, in the header or in the body.\<close>

lemma ReadFrame_torn:
  assumes wf: "wellFormed f" and arr: "arriving s = take k (frameBytes f)" "k < length (frameBytes f)"
  shows "\<exists>e \<in> {ErrUnexpectedEOF, rx_err s}. fst (ReadFrame s) = Inl (IOError e)"
proof (cases rule: ReadFull_cases [of 2 s])
  case (ok cs)
  let ?n = "length (bodyOf f)" and ?t = "s\<lparr>rx := cs\<rparr>"
  have n: "2 \<le> ?n" "?n \<le> MaxFrameLen" using wf length_bodyOf_ge2 by (auto simp: wellFormed_def)
  have "2 \<le> k" using ok(1) arr by simp
  moreover have "arriving ?t = drop 2 (arriving s)" using ok(3) by (simp add: arriving_def)
  ultimately have hdr: "take 2 (arriving s) = PutUint16 (uint16_of_len ?n) @ []"
    and body: "arriving ?t = take (k - 2) (bodyOf f)"
    by (simp_all add: arr(1) frameBytes_def min_def drop_take)
  have len: "unat (Uint16 (take 2 (arriving s))) = ?n"
    using n by (simp only: hdr Uint16_PutUint16) (simp add: MaxFrameLen_def)
  have "length (arriving ?t) < ?n" using arr(2) n unfolding body by (simp add: frameBytes_def)
  from ReadFull_short [OF this] show ?thesis
    using ok(2) n len by (auto simp: ReadFrame_def Let_def)
next
  case short
  then show ?thesis by (auto simp: ReadFrame_def)
qed

section \<open>Properties of the control protocol\<close>

definition known :: "Frame \<Rightarrow> bool" where
  "known f \<longleftrightarrow> opens f \<or> Type f = TypeOK \<or> Type f = TypeError \<and> validErrorCode (Code f)"

lemma WriteFrame_wellFormed: "known f \<Longrightarrow> frameBody f = Inr (bodyOf f) \<Longrightarrow> wellFormed f"
  by (auto simp: known_def wellFormed_def frameBody_Inr_iff)

text \<open>C13: What \<open>WriteFrame\<close> puts on a stream without an error, through whatever short writes the
  transport makes, \<open>ReadFrame\<close> on the other end reads back as the same frame, however the bytes
  are cut into chunks, and it leaves exactly the bytes that follow (the tunnelled payload).\<close>

theorem frame_roundtrip:
  assumes "WriteFrame stream_Write f a = (None, a')" and "known f"
    and "arriving b = drop (length (tx a)) (tx a') @ rest"
  shows "\<exists>b'. ReadFrame b = (Inr (wireFrame f), b') \<and> arriving b' = rest"
proof -
  note w = stream_writer.WriteFrame_None [OF assms(1)]
  have "arriving b = frameBytes f @ rest"
    using assms(3) by (simp add: w(1))
  with WriteFrame_wellFormed [OF assms(2) w(2)] show ?thesis
    by (rule ReadFrame_reads)
qed

definition sampleFrame :: Frame where
  "sampleFrame = \<lparr>Type = TypeOpen, Code = 0, Direction = DirectionForward, Service = ''web'',
     PeerID = ''a1'', Listener = [], SourceAddr = [], ConnectionID = ''0f''\<rparr>"

definition slowStream :: stream where
  "slowStream = \<lparr>rx = [], rx_err = EOF, tx = [9], wr_script = [(1, None), (1, None), (3, None)],
     deadline = None, closed = False\<rparr>"

definition chunkedStream :: stream where
  "chunkedStream = \<lparr>rx = [[0], [20, 2], [], [1, 1, 0, 3, 119, 101], [98, 0, 2, 97, 49, 0, 0, 0, 0],
       [0, 2, 48, 102, 77]],
     rx_err = EOF, tx = [], wr_script = [], deadline = None, closed = False\<rparr>"

theorem frame_roundtrip_witness:
  "\<exists>b'. ReadFrame chunkedStream = (Inr (wireFrame sampleFrame), b') \<and> arriving b' = [77]"
proof (rule frame_roundtrip)
  show "WriteFrame stream_Write sampleFrame slowStream =
    (None, snd (WriteFrame stream_Write sampleFrame slowStream))"
    by code_simp
  show "known sampleFrame"
    by code_simp
  show "arriving chunkedStream =
    drop (length (tx slowStream)) (tx (snd (WriteFrame stream_Write sampleFrame slowStream))) @ [77]"
    by code_simp
qed

text \<open>C19: A frame has one encoding only: if \<open>ReadFrame\<close> accepts, the bytes it consumed are
  exactly those that \<open>WriteFrame\<close> writes for the frame it returned (no trailing bytes, no second
  spelling of a length, no ignored field), and the frame is well formed.\<close>

theorem ReadFrame_canonical:
  assumes "ReadFrame s = (Inr f, s')" and "wr_script w = []"
  shows "\<exists>b. WriteFrame stream_Write f w = (None, w\<lparr>tx := tx w @ b\<rparr>) \<and>
    arriving s = b @ arriving s' \<and> known f"
proof -
  from ReadFrame_Inr [OF assms(1)] have f: "arriving s = frameBytes f @ arriving s'" "wellFormed f"
    by auto
  have "WriteFrame stream_Write f w = (None, w\<lparr>tx := tx w @ frameBytes f\<rparr>)"
    using assms(2) by (simp add: WriteFrame_def wellFormed_frameBody [OF f(2)] writeFull_accepting
        frameBytes_def)
  then show ?thesis
    using f by (auto simp: known_def wellFormed_def)
qed

theorem ReadFrame_canonical_witness:
  "\<exists>b. WriteFrame stream_Write (wireFrame sampleFrame) (slowStream\<lparr>wr_script := []\<rparr>) =
       (None, slowStream\<lparr>wr_script := [], tx := tx slowStream @ b\<rparr>) \<and>
     arriving chunkedStream = b @ [77] \<and> known (wireFrame sampleFrame)"
proof -
  have "ReadFrame chunkedStream = (Inr (wireFrame sampleFrame), chunkedStream\<lparr>rx := [[77]]\<rparr>)"
    by code_simp
  from ReadFrame_canonical [OF this, of "slowStream\<lparr>wr_script := []\<rparr>"] show ?thesis
    by (simp add: arriving_def)
qed

text \<open>C24: \<open>WriteFrame\<close> on every branch, whatever the transport does: an OPEN or PROBE frame without a
  direction is refused and a body over 4096 bytes is refused, and neither leaves a byte on the
  stream. Every other frame is written, header first: without an error all of it is on the stream;
  the only other outcome is an error of the transport, after which a prefix of the frame is on the
  stream (as long as the transport's write counts are in range). A transport that takes what it is
  given gives no error.\<close>

theorem WriteFrame_outcome:
  assumes "WriteFrame stream_Write f w = (r, w')"
  shows "if opens f \<and> \<not> validDirection (Direction f) then r = Some ErrBadFrame \<and> w' = w
    else if MaxFrameLen < length (bodyOf f) then r = Some ErrFrameTooLarge \<and> w' = w
    else (r = None \<and> tx w' = tx w @ frameBytes f \<or>
        (\<exists>e. r = Some (IOError e) \<and>
           (e \<noteq> InvalidWriteCount \<longrightarrow> (\<exists>k \<le> length (frameBytes f). tx w' = tx w @ take k (frameBytes f))))) \<and>
      (wr_script w = [] \<longrightarrow> r = None \<and> w' = w\<lparr>tx := tx w @ frameBytes f\<rparr>)"
proof (cases "frameBody f")
  case (Inl e)
  have "opens f \<and> \<not> validDirection (Direction f) \<Longrightarrow> e = ErrBadFrame"
    using Inl by (auto simp: frameBody_def opens_def validDirection_def)
  moreover have "\<not> (opens f \<and> \<not> validDirection (Direction f)) \<Longrightarrow>
    MaxFrameLen < length (bodyOf f) \<and> e = ErrFrameTooLarge"
    using Inl frameBody_Inr_iff [of f "bodyOf f"] frameBody_too_large [of f e]
    by auto
  ultimately show ?thesis
    using Inl assms by (auto simp: WriteFrame_def)
next
  case (Inr body)
  then have ok: "\<not> (opens f \<and> \<not> validDirection (Direction f))" "\<not> MaxFrameLen < length (bodyOf f)"
    "body = bodyOf f"
    by (auto simp: frameBody_Inr_iff)
  have "r = None \<or> (\<exists>e. r = Some (IOError e))"
    using assms Inr by (auto simp: WriteFrame_def split: prod.splits option.splits)
  moreover have "wr_script w = [] \<longrightarrow> r = None \<and> w' = w\<lparr>tx := tx w @ frameBytes f\<rparr>"
  proof
    assume "wr_script w = []"
    with assms Inr ok(3) show "r = None \<and> w' = w\<lparr>tx := tx w @ frameBytes f\<rparr>"
      by (auto simp: WriteFrame_def writeFull_accepting frameBytes_def)
  qed
  ultimately show ?thesis
    using ok(1,2) assms stream_writer.WriteFrame_None(1) [of f w w'] stream_writer.WriteFrame_IOError [of f w _ w'] by auto
qed

theorem WriteFrame_outcome_witness:
  "fst (WriteFrame stream_Write (zeroFrame\<lparr>Type := TypeProbe\<rparr>) slowStream) = Some ErrBadFrame \<and>
   WriteFrame stream_Write (zeroFrame\<lparr>Type := TypeOK\<rparr>) (slowStream\<lparr>wr_script := []\<rparr>) =
     (None, slowStream\<lparr>wr_script := [], tx := [9, 0, 2, 2, 2]\<rparr>) \<and>
   (\<exists>k \<le> 4. tx (snd (WriteFrame stream_Write (zeroFrame\<lparr>Type := TypeOK\<rparr>) (slowStream\<lparr>wr_script := [(2, Some EOF)]\<rparr>))) =
     [9] @ take k [0, 2, 2, 2])"
proof -
  let ?ok = "zeroFrame\<lparr>Type := TypeOK\<rparr>" and ?cut = "slowStream\<lparr>wr_script := [(2, Some EOF)]\<rparr>"
  have v: "opens (zeroFrame\<lparr>Type := TypeProbe\<rparr>)" "\<not> validDirection (Direction zeroFrame)"
    "\<not> opens ?ok" "length (bodyOf ?ok) = 2" "frameBytes ?ok = [0, 2, 2, 2]" "tx slowStream = [9]"
    "fst (WriteFrame stream_Write ?ok ?cut) = Some (IOError EOF)"
    by code_simp+
  have "fst (WriteFrame stream_Write (zeroFrame\<lparr>Type := TypeProbe\<rparr>) slowStream) = Some ErrBadFrame"
    using WriteFrame_outcome [of "zeroFrame\<lparr>Type := TypeProbe\<rparr>" slowStream, OF prod.collapse [symmetric]] v by simp
  moreover have "WriteFrame stream_Write ?ok (slowStream\<lparr>wr_script := []\<rparr>) =
      (None, slowStream\<lparr>wr_script := [], tx := [9, 0, 2, 2, 2]\<rparr>)"
    using WriteFrame_outcome [of ?ok "slowStream\<lparr>wr_script := []\<rparr>", OF prod.collapse [symmetric]] v
    by (simp add: prod_eq_iff MaxFrameLen_def)
  moreover have "\<exists>k \<le> 4. tx (snd (WriteFrame stream_Write ?ok ?cut)) = [9] @ take k [0, 2, 2, 2]"
    using WriteFrame_outcome [of ?ok ?cut "Some (IOError EOF)" "snd (WriteFrame stream_Write ?ok ?cut)"] v
    by (auto simp: prod_eq_iff MaxFrameLen_def numeral_eq_Suc)
  ultimately show ?thesis by blast
qed

text \<open>C20: A read never runs away: whatever arrives, \<open>ReadFrame\<close> takes at most 4098 bytes (the
  two-byte header and a body of at most 4096), and a header that announces more than 4096 or less
  than two bytes is refused after the header alone, without reading a body.\<close>

theorem ReadFrame_bounded:
  "(\<exists>k \<le> 4098. arriving (snd (ReadFrame s)) = drop k (arriving s)) \<and>
   (2 \<le> length (arriving s) \<longrightarrow> unat (Uint16 (take 2 (arriving s))) \<notin> {2..4096} \<longrightarrow>
      fst (ReadFrame s) = Inl (if 4096 < unat (Uint16 (take 2 (arriving s))) then ErrFrameTooLarge
        else ErrBadFrame) \<and>
      arriving (snd (ReadFrame s)) = drop 2 (arriving s))"
proof (cases rule: ReadFull_cases [of 2 s])
  case (ok cs)
  let ?t = "s\<lparr>rx := cs\<rparr>" and ?n = "unat (Uint16 (take 2 (arriving s)))"
  have t: "arriving ?t = drop 2 (arriving s)"
    using ok by (simp add: arriving_def)
  show ?thesis
  proof (cases "?n \<in> {2..4096}")
    case True
    obtain k where k: "k \<le> ?n" "arriving (snd (ReadFull ?n ?t)) = drop k (arriving ?t)"
      using ReadFull_consumes by blast
    have "snd (ReadFrame s) = snd (ReadFull ?n ?t)"
      using True ok by (auto simp: ReadFrame_def Let_def MaxFrameLen_def split: prod.splits sum.splits)
    with k t True show ?thesis
      by (auto intro!: exI [of _ "k + 2"])
  next
    case False
    then have "ReadFrame s = (Inl (if 4096 < ?n then ErrFrameTooLarge else ErrBadFrame), ?t)"
      using ok by (auto simp: ReadFrame_def Let_def MaxFrameLen_def)
    with t show ?thesis
      by (auto intro!: exI [of _ 2])
  qed
next
  case short
  then show ?thesis
    by (auto simp: ReadFrame_def arriving_def intro!: exI [of _ "length (arriving s)"])
qed

theorem ReadFrame_bounded_witness:
  "fst (ReadFrame (chunkedStream\<lparr>rx := [[255], [255, 1, 2]]\<rparr>)) = Inl ErrFrameTooLarge \<and>
   arriving (snd (ReadFrame (chunkedStream\<lparr>rx := [[255], [255, 1, 2]]\<rparr>))) = [1, 2]"
  using ReadFrame_bounded [of "chunkedStream\<lparr>rx := [[255], [255, 1, 2]]\<rparr>"]
  by (simp add: arriving_def unat_Uint16)

text \<open>C25: Fragmentation is invisible: two streams that deliver the same bytes and end with the
  same error give the same frame or the same error, and leave the same bytes, no matter where the
  transport cuts the chunks.\<close>

theorem ReadFrame_chunking:
  assumes "same_input s t"
  shows "fst (ReadFrame s) = fst (ReadFrame t) \<and> same_input (snd (ReadFrame s)) (snd (ReadFrame t))"
proof -
  obtain h s1 t1 where 1: "ReadFull 2 s = (h, s1)" "ReadFull 2 t = (h, t1)" "same_input s1 t1"
    using ReadFull_same_input [OF assms, of 2] by (metis prod.collapse)
  obtain r s2 t2 where 2: "ReadFull (unat (Uint16 (projr h))) s1 = (r, s2)"
    "ReadFull (unat (Uint16 (projr h))) t1 = (r, t2)" "same_input s2 t2"
    using ReadFull_same_input [OF 1(3)] by (metis prod.collapse)
  show ?thesis
    using 1 2 by (cases h; cases r) (auto simp: ReadFrame_def Let_def)
qed

theorem ReadFrame_chunking_witness:
  "fst (ReadFrame chunkedStream) = fst (ReadFrame (chunkedStream\<lparr>rx := [arriving chunkedStream]\<rparr>))"
  using ReadFrame_chunking [of chunkedStream "chunkedStream\<lparr>rx := [arriving chunkedStream]\<rparr>"]
  by (simp add: same_input_def arriving_def)



text \<open>C27: A torn frame is never taken for a frame. When \<open>WriteFrame\<close> fails in the transport and the peer
  reads what was sent up to there, \<open>ReadFrame\<close> on the other end, however the bytes are cut into
  chunks, reports an I/O error (the end of the stream, or an unexpected end), unless all of the
  frame had been sent; then it reads that frame. It never reads another frame, and never finds the
  frame malformed.\<close>

theorem torn_frame_rejected:
  assumes "WriteFrame stream_Write f a = (Some (IOError e), a')" "e \<noteq> InvalidWriteCount" and "known f"
    and "arriving b = drop (length (tx a)) (tx a')"
  shows "if length (arriving b) < length (frameBytes f)
    then \<exists>e' \<in> {ErrUnexpectedEOF, rx_err b}. fst (ReadFrame b) = Inl (IOError e')
    else fst (ReadFrame b) = Inr (wireFrame f)"
proof -
  obtain k where k: "k \<le> length (frameBytes f)" "arriving b = take k (frameBytes f)"
    using stream_writer.WriteFrame_IOError [OF assms(1,2)] assms(4) by auto
  have "frameBody f = Inr (bodyOf f)"
    using assms(1) frameBody_Inl [of f] by (auto simp: WriteFrame_def frameBody_Inr_iff split: sum.splits)
  then have wf: "wellFormed f" by (rule WriteFrame_wellFormed [OF assms(3)])
  show ?thesis
    using ReadFrame_torn [OF wf k(2)] ReadFrame_reads [OF wf, of b "[]"] k by auto
qed

theorem torn_frame_rejected_witness:
  "let a = slowStream\<lparr>wr_script := [(2, None), (3, Some DeadlineExceeded)]\<rparr>;
     sent = drop 1 (tx (snd (WriteFrame stream_Write sampleFrame a))) in
   length sent = 5 \<and> (\<exists>e'. fst (ReadFrame (chunkedStream\<lparr>rx := [sent]\<rparr>)) = Inl (IOError e'))"
proof -
  let ?a = "slowStream\<lparr>wr_script := [(2, None), (3, Some DeadlineExceeded)]\<rparr>"
  define b where "b = chunkedStream\<lparr>rx := [drop 1 (tx (snd (WriteFrame stream_Write sampleFrame ?a)))]\<rparr>"
  have w: "WriteFrame stream_Write sampleFrame ?a =
    (Some (IOError DeadlineExceeded), snd (WriteFrame stream_Write sampleFrame ?a))"
    by code_simp
  have k: "known sampleFrame" by code_simp
  have l: "length (drop 1 (tx (snd (WriteFrame stream_Write sampleFrame ?a)))) = 5" "length (frameBytes sampleFrame) = 22"
    "length (tx slowStream) = 1"
    by code_simp+
  have "arriving b = drop (length (tx ?a)) (tx (snd (WriteFrame stream_Write sampleFrame ?a)))"
    by (simp add: b_def arriving_def l(3))
  from torn_frame_rejected [OF w _ k this] have "\<exists>e'. fst (ReadFrame b) = Inl (IOError e')"
    using l by (auto simp: b_def arriving_def)
  with l(1) show ?thesis unfolding Let_def b_def by blast
qed

end
