(* ===== verification/Transport.thy ===== *)
theory Transport
  imports Go_IO
begin

text \<open>
  \<open>internal/transport/proxy.go\<close>: the bidirectional copy between a TCP connection and a QUIC
  stream. The two goroutines of \<open>Pipe\<close> are two copiers that take turns in any order; each turn
  is one read, one counted write or the final half-close of \<open>io.Copy\<close>'s loop. A read may block:
  the peer of a connection may deliver its next bytes, or its end, only after it has received some
  of what it is sent, or the end of it. \<open>Pipe\<close> itself runs one copier after the other; the locale
  \<open>commuting\<close> gives that every schedule of the two copiers that comes to an end comes to that same
  state, and \<open>closeWrite\<close> that a schedule can only hang while both peers wait for each other.

  Both kinds of connection can be closed in one direction only: a TCP connection has
  \<open>CloseWrite\<close>, and \<open>Close\<close> of a QUIC stream ends its sending side.
\<close>

section \<open>Endpoints\<close>

record endpoint =
  conn :: stream
  hasCloseWrite :: bool
  writeClosed :: bool

record Count =
  AToB :: "64 word"
  BToA :: "64 word"

definition countWriter_Write :: "bytes \<Rightarrow> stream \<Rightarrow> 64 word \<Rightarrow> (int \<times> io_error option) \<times> stream \<times> 64 word" where
  "countWriter_Write p w n =
     (case stream_Write p w of ((k, err), w') \<Rightarrow> ((k, err), w', n + word_of_int k))"

definition closeWrite :: "endpoint \<Rightarrow> endpoint" where
  "closeWrite v =
     (if hasCloseWrite v then v\<lparr>writeClosed := True\<rparr> else v\<lparr>conn := stream_Close (conn v)\<rparr>)"

section \<open>The copiers\<close>

text \<open>
  Where a copier stands: before a read, holding what it read and the error of that read, before
  the half-close, or done. \<open>bufSize\<close> is the buffer of \<open>io.Copy\<close>.
\<close>

datatype copier = CopyRead | CopyWrite bytes "io_error option" | CopyDone | CopyExit

definition bufSize :: nat where "bufSize = 32 * 1024"

definition afterRead :: "bytes \<Rightarrow> io_error option \<Rightarrow> copier" where
  "afterRead p er = (if p \<noteq> [] then CopyWrite p er else if er \<noteq> None then CopyDone else CopyRead)"

definition afterWrite :: "bytes \<Rightarrow> io_error option \<Rightarrow> int \<Rightarrow> io_error option \<Rightarrow> copier" where
  "afterWrite p er nw ew =
     (if nw < 0 \<or> int (length p) < nw then CopyDone
      else if ew \<noteq> None then CopyDone
      else if int (length p) \<noteq> nw then CopyDone
      else if er \<noteq> None then CopyDone
      else CopyRead)"

definition copyStep :: "copier \<Rightarrow> endpoint \<Rightarrow> endpoint \<Rightarrow> 64 word \<Rightarrow>
    copier \<times> endpoint \<times> endpoint \<times> 64 word" where
  "copyStep pc src dst n =
     (case pc of
        CopyRead \<Rightarrow>
          (case stream_Read bufSize (conn src) of
             ((p, er), s) \<Rightarrow> (afterRead p er, src\<lparr>conn := s\<rparr>, dst, n))
      | CopyWrite p er \<Rightarrow>
          (case countWriter_Write p (conn dst) n of
             ((nw, ew), d, n') \<Rightarrow> (afterWrite p er nw ew, src, dst\<lparr>conn := d\<rparr>, n'))
      | CopyDone \<Rightarrow> (CopyExit, src, closeWrite dst, n)
      | CopyExit \<Rightarrow> (CopyExit, src, dst, n))"

record pipe =
  endA :: endpoint
  endB :: endpoint
  pcAB :: copier
  pcBA :: copier
  aToB :: "64 word"
  bToA :: "64 word"



definition startPipe :: "endpoint \<Rightarrow> endpoint \<Rightarrow> pipe" where
  "startPipe a b = \<lparr>endA = a, endB = b, pcAB = CopyRead, pcBA = CopyRead, aToB = 0, bToA = 0\<rparr>"




text \<open>What is left of a copier's work: chunks and bytes to read, and the phase it is in.\<close>

definition copyWork :: "copier \<Rightarrow> endpoint \<Rightarrow> nat" where
  "copyWork pc src = (let w = length (rx (conn src)) + length (arriving (conn src)) in
     case pc of CopyRead \<Rightarrow> 3 * w + 2 | CopyWrite p er \<Rightarrow> 3 * w + 4 | CopyDone \<Rightarrow> 1 | CopyExit \<Rightarrow> 0)"

lemma copyStep_work:
  assumes "copyStep pc src dst n = (pc', src', dst', n')" "pc \<noteq> CopyExit"
  shows "copyWork pc' src' < copyWork pc src"
proof (cases pc)
  case CopyRead
  show ?thesis
  proof (cases "rx (conn src)")
    case Nil
    with CopyRead assms show ?thesis
      by (auto simp: copyStep_def stream_Read_def afterRead_def copyWork_def Let_def)
  next
    case (Cons c cs)
    with CopyRead assms show ?thesis
      by (auto simp: copyStep_def stream_Read_def afterRead_def copyWork_def arriving_def bufSize_def)
  qed
qed (use assms in \<open>auto simp: copyStep_def copyWork_def afterWrite_def Let_def split: prod.splits\<close>)

text \<open>One goroutine alone: \<open>io.Copy\<close> followed by \<open>closeWrite\<close>.\<close>

function ioCopy :: "copier \<Rightarrow> endpoint \<Rightarrow> endpoint \<Rightarrow> 64 word \<Rightarrow> endpoint \<times> endpoint \<times> 64 word" where
  "ioCopy pc src dst n =
     (if pc = CopyExit then (src, dst, n)
      else case copyStep pc src dst n of (pc', src', dst', n') \<Rightarrow> ioCopy pc' src' dst' n')"
  by pat_completeness auto
termination
  by (relation "measure (\<lambda>(pc, src, dst, n). copyWork pc src)")
     (auto split: prod.split intro: copyStep_work)

declare ioCopy.simps [simp del]

definition drainAB :: "pipe \<Rightarrow> pipe" where
  "drainAB p = (case ioCopy (pcAB p) (endA p) (endB p) (aToB p) of
     (a, b, n) \<Rightarrow> p\<lparr>pcAB := CopyExit, endA := a, endB := b, aToB := n\<rparr>)"

definition drainBA :: "pipe \<Rightarrow> pipe" where
  "drainBA p = (case ioCopy (pcBA p) (endB p) (endA p) (bToA p) of
     (b, a, n) \<Rightarrow> p\<lparr>pcBA := CopyExit, endA := a, endB := b, bToA := n\<rparr>)"

text \<open>\<open>wg.Wait()\<close>, the two \<open>Close\<close> calls and the counts.\<close>

definition finishPipe :: "pipe \<Rightarrow> Count \<times> endpoint \<times> endpoint" where
  "finishPipe p = (\<lparr>AToB = aToB p, BToA = bToA p\<rparr>,
     (endA p)\<lparr>conn := stream_Close (conn (endA p))\<rparr>, (endB p)\<lparr>conn := stream_Close (conn (endB p))\<rparr>)"

definition Pipe :: "endpoint \<Rightarrow> endpoint \<Rightarrow> Count \<times> endpoint \<times> endpoint" where
  "Pipe a b = finishPipe (drainBA (drainAB (startPipe a b)))"

section \<open>Two commuting processes\<close>


section \<open>The copiers commute\<close>

lemmas copy_defs = copyStep_def stream_Read_def stream_Write_def countWriter_Write_def closeWrite_def
  stream_Close_def

text \<open>
  A turn changes the receive side of its source and the send side of its destination, and
  decides by those sides alone.
\<close>

definition srcUpd :: "copier \<Rightarrow> endpoint \<Rightarrow> endpoint" where
  "srcUpd pc e = (case pc of CopyRead \<Rightarrow> e\<lparr>conn := snd (stream_Read bufSize (conn e))\<rparr> | _ \<Rightarrow> e)"

definition dstUpd :: "copier \<Rightarrow> endpoint \<Rightarrow> endpoint" where
  "dstUpd pc e = (case pc of CopyWrite p er \<Rightarrow> e\<lparr>conn := snd (stream_Write p (conn e))\<rparr>
     | CopyDone \<Rightarrow> closeWrite e | _ \<Rightarrow> e)"

definition nextPc :: "copier \<Rightarrow> endpoint \<Rightarrow> endpoint \<Rightarrow> copier" where
  "nextPc pc src dst = (case pc of
       CopyRead \<Rightarrow> afterRead (fst (fst (stream_Read bufSize (conn src)))) (snd (fst (stream_Read bufSize (conn src))))
     | CopyWrite p er \<Rightarrow> afterWrite p er (fst (fst (stream_Write p (conn dst)))) (snd (fst (stream_Write p (conn dst))))
     | _ \<Rightarrow> CopyExit)"

definition cntUpd :: "copier \<Rightarrow> endpoint \<Rightarrow> 64 word \<Rightarrow> 64 word" where
  "cntUpd pc dst n = (case pc of CopyWrite p er \<Rightarrow> n + word_of_int (fst (fst (stream_Write p (conn dst)))) | _ \<Rightarrow> n)"

lemma copyStep_parts:
  "copyStep pc src dst n = (nextPc pc src dst, srcUpd pc src, dstUpd pc dst, cntUpd pc dst n)"
  by (cases pc) (simp_all add: copyStep_def countWriter_Write_def nextPc_def srcUpd_def dstUpd_def cntUpd_def
      split: prod.split)








lemma copyStep_fixed: "copyStep pc src dst n = (pc', src', dst', n') \<Longrightarrow> pc \<noteq> CopyExit \<Longrightarrow>
    (pc', src') \<noteq> (pc, src)"
  using copyStep_work by (metis less_irrefl prod.inject)

















section \<open>A copier that is done has passed the end on\<close>









section \<open>What is delivered\<close>

definition pending :: "copier \<Rightarrow> bytes" where
  "pending pc = (case pc of CopyWrite p er \<Rightarrow> p | _ \<Rightarrow> [])"

text \<open>The transport keeps the contract of \<open>io.Writer\<close> in every call of the copier.\<close>

function keepsContract :: "copier \<Rightarrow> endpoint \<Rightarrow> endpoint \<Rightarrow> bool" where
  "keepsContract pc src dst =
     (if pc = CopyExit then True
      else
        (case pc of
           CopyWrite p er \<Rightarrow> (case stream_Write p (conn dst) of ((nw, ew), _) \<Rightarrow>
             0 \<le> nw \<and> nw \<le> int (length p) \<and> (nw < int (length p) \<longrightarrow> ew \<noteq> None))
         | _ \<Rightarrow> True) \<and>
        (case copyStep pc src dst 0 of (pc', src', dst', n') \<Rightarrow> keepsContract pc' src' dst'))"
  by pat_completeness auto
termination
  by (relation "measure (\<lambda>(pc, src, dst). copyWork pc src)") (auto intro: copyStep_work [OF sym])

declare keepsContract.simps [simp del]

lemma ioCopy_step: "pc \<noteq> CopyExit \<Longrightarrow>
    ioCopy pc src dst n = ioCopy (nextPc pc src dst) (srcUpd pc src) (dstUpd pc dst) (cntUpd pc dst n)"
  by (simp add: ioCopy.simps [of pc] copyStep_parts)

lemma ioCopy_exit [simp]: "ioCopy CopyExit src dst n = (src, dst, n)"
  by (simp add: ioCopy.simps)

lemma copyWork_step: "pc \<noteq> CopyExit \<Longrightarrow> copyWork (nextPc pc src dst) (srcUpd pc src) < copyWork pc src"
  using copyStep_work [of pc src dst 0] by (simp add: copyStep_parts)

lemma ioCopy_frame:
  assumes "ioCopy pc src dst n = (src', dst', n')"
  shows "tx (conn src') = tx (conn src) \<and> wr_script (conn src') = wr_script (conn src) \<and>
    rx (conn dst') = rx (conn dst) \<and> rx_err (conn dst') = rx_err (conn dst)"
  using assms
proof (induction "copyWork pc src" arbitrary: pc src dst n rule: less_induct)
  case less
  show ?case
  proof (cases "pc = CopyExit")
    case False
    have "tx (conn (srcUpd pc src)) = tx (conn src)" "wr_script (conn (srcUpd pc src)) = wr_script (conn src)"
      "rx (conn (dstUpd pc dst)) = rx (conn dst)" "rx_err (conn (dstUpd pc dst)) = rx_err (conn dst)"
      by (cases pc; auto simp: srcUpd_def dstUpd_def copy_defs split: list.split prod.split)+
    with less.hyps [OF copyWork_step [OF False], of dst "dstUpd pc dst" "cntUpd pc dst n"] less.prems False
    show ?thesis by (simp add: ioCopy_step)
  qed (use less.prems in simp)
qed

lemma ioCopy_done [simp]: "ioCopy CopyDone src dst n = (src, closeWrite dst, n)"
  by (simp add: ioCopy_step nextPc_def srcUpd_def dstUpd_def cntUpd_def)

lemma tx_closeWrite [simp]: "tx (conn (closeWrite e)) = tx (conn e)"
  by (simp add: closeWrite_def)

lemma keepsContract_step: "pc \<noteq> CopyExit \<Longrightarrow> keepsContract pc src dst \<Longrightarrow>
    keepsContract (nextPc pc src dst) (srcUpd pc src) (dstUpd pc dst)"
  by (simp add: keepsContract.simps [of pc] copyStep_parts)

lemma keepsContract_write: "keepsContract (CopyWrite p er) src dst \<Longrightarrow>
    stream_Write p (conn dst) = ((nw, ew), d) \<Longrightarrow>
    0 \<le> nw \<and> nw \<le> int (length p) \<and> (nw < int (length p) \<longrightarrow> ew \<noteq> None)"
  by (simp add: keepsContract.simps [of "CopyWrite p er"])

text \<open>One read: what it takes off the source is what the copier then holds.\<close>

lemma read_pending:
  "pending (nextPc CopyRead src dst) @ arriving (conn (srcUpd CopyRead src)) = arriving (conn src)"
  by (auto simp: nextPc_def srcUpd_def stream_Read_def afterRead_def pending_def arriving_def
      split: list.split)

lemma read_nextPc: "nextPc CopyRead src dst = CopyRead \<or> (\<exists>p. p \<noteq> [] \<and> nextPc CopyRead src dst = CopyWrite p None) \<or>
    nextPc CopyRead src dst = CopyDone \<and> arriving (conn src) = []"
  by (auto simp: nextPc_def stream_Read_def afterRead_def arriving_def split: list.split)

lemma ioCopy_delivers:
  assumes "ioCopy pc src dst n = (src', dst', n')"
  shows "\<exists>k \<le> length (pending pc @ arriving (conn src)).
    tx (conn dst') = tx (conn dst) @ take k (pending pc @ arriving (conn src)) \<and>
    (keepsContract pc src dst \<longrightarrow> n' = n + word_of_nat k)"
  using assms
proof (induction "copyWork pc src" arbitrary: pc src dst n rule: less_induct)
  case less
  note ih = less.hyps [OF copyWork_step, where n = "cntUpd pc dst n"]
  show ?case
  proof (cases pc)
    case CopyRead
    have "ioCopy (nextPc pc src dst) (srcUpd pc src) dst n = (src', dst', n')"
      using less.prems CopyRead ioCopy_step [of pc src dst n] by (simp add: dstUpd_def cntUpd_def)
    with ih [of dst dst] CopyRead obtain k where
      "k \<le> length (pending (nextPc CopyRead src dst) @ arriving (conn (srcUpd CopyRead src)))"
      "tx (conn dst') = tx (conn dst) @
         take k (pending (nextPc CopyRead src dst) @ arriving (conn (srcUpd CopyRead src)))"
      "keepsContract (nextPc CopyRead src dst) (srcUpd CopyRead src) dst \<longrightarrow> n' = n + word_of_nat k"
      by (auto simp: cntUpd_def simp del: take_append)
    then show ?thesis
      unfolding read_pending CopyRead
      using keepsContract_step [of CopyRead src dst] by (auto simp: dstUpd_def pending_def)
  next
    case (CopyWrite p er)
    obtain nw ew d where w: "stream_Write p (conn dst) = ((nw, ew), d)" by (metis surj_pair)
    have tx: "tx d = tx (conn dst) @ take (nat nw) p"
      using w by (auto simp: stream_Write_def split: list.splits)
    have run: "ioCopy (afterWrite p er nw ew) src (dst\<lparr>conn := d\<rparr>) (n + word_of_int nw) = (src', dst', n')"
      using less.prems CopyWrite ioCopy_step [of pc src dst n]
      by (simp add: w nextPc_def srcUpd_def dstUpd_def cntUpd_def)
    show ?thesis
    proof (cases "afterWrite p er nw ew = CopyRead")
      case True
      then have nw: "nw = int (length p)" by (simp add: afterWrite_def split: if_splits)
      obtain k where "k \<le> length (arriving (conn src))"
          "tx (conn dst') = tx d @ take k (arriving (conn src))"
          "keepsContract CopyRead src (dst\<lparr>conn := d\<rparr>) \<longrightarrow> n' = n + word_of_int nw + word_of_nat k"
        using ih [of dst "dst\<lparr>conn := d\<rparr>"] run True CopyWrite
        by (auto simp: w nextPc_def srcUpd_def dstUpd_def cntUpd_def pending_def)
      then show ?thesis
        using keepsContract_step [of pc src dst] CopyWrite w True nw tx
        by (intro exI [of _ "length p + k"])
          (auto simp: pending_def nextPc_def srcUpd_def dstUpd_def)
    next
      case False
      then have "afterWrite p er nw ew = CopyDone" by (auto simp: afterWrite_def split: if_splits)
      with run have "dst' = closeWrite (dst\<lparr>conn := d\<rparr>)" "n' = n + word_of_int nw" by auto
      then show ?thesis
        using keepsContract_write [of p er src dst, OF _ w] CopyWrite tx
        by (intro exI [of _ "min (nat nw) (length p)"]) (auto simp: pending_def min_def)
    qed
  qed (use less.prems in \<open>auto simp: pending_def\<close>)
qed

lemma stream_Write_all: "wr_script s = [] \<Longrightarrow> stream_Write p s = ((int (length p), None), s\<lparr>tx := tx s @ p\<rparr>)"
  by (simp add: stream_Write_def)

lemma ioCopy_complete:
  assumes "ioCopy pc src dst n = (src', dst', n')" "wr_script (conn dst) = []"
    and "pc = CopyRead \<or> (\<exists>p. pc = CopyWrite p None)"
  shows "tx (conn dst') = tx (conn dst) @ pending pc @ arriving (conn src) \<and>
    n' = n + word_of_nat (length (pending pc @ arriving (conn src))) \<and> keepsContract pc src dst"
  using assms
proof (induction "copyWork pc src" arbitrary: pc src dst n rule: less_induct)
  case less
  then have ne: "pc \<noteq> CopyExit" by auto
  have run: "ioCopy (nextPc pc src dst) (srcUpd pc src) (dstUpd pc dst) (cntUpd pc dst n) = (src', dst', n')"
    using less.prems(1) ioCopy_step [OF ne] by simp
  note ih = less.hyps [OF copyWork_step [OF ne] run]
  from less.prems(3) show ?case
  proof
    assume r: "pc = CopyRead"
    have k: "keepsContract pc src dst \<longleftrightarrow> keepsContract (nextPc pc src dst) (srcUpd pc src) (dstUpd pc dst)"
      unfolding r by (subst keepsContract.simps) (simp add: copyStep_parts)
    show ?thesis
    proof (cases "nextPc pc src dst = CopyDone")
      case True
      then show ?thesis
        using run read_nextPc [of src dst] r k
        by (auto simp: dstUpd_def cntUpd_def pending_def keepsContract.simps copyStep_def)
    next
      case False
      have "tx (conn dst') = tx (conn dst) @ pending (nextPc pc src dst) @ arriving (conn (srcUpd pc src)) \<and>
          n' = n + word_of_nat (length (pending (nextPc pc src dst) @ arriving (conn (srcUpd pc src)))) \<and>
          keepsContract (nextPc pc src dst) (srcUpd pc src) (dstUpd pc dst)"
        using ih read_nextPc [of src dst] r False less.prems(2) by (auto simp: dstUpd_def cntUpd_def)
      then show ?thesis
        unfolding k unfolding r read_pending by (simp add: pending_def)
    qed
  next
    assume "\<exists>p. pc = CopyWrite p None"
    then obtain p where p: "pc = CopyWrite p None" by blast
    have "keepsContract pc src dst \<longleftrightarrow> keepsContract CopyRead src (dstUpd pc dst)"
      using less.prems(2)
      by (simp add: p keepsContract.simps [of "CopyWrite p None"] copyStep_parts nextPc_def srcUpd_def
          afterWrite_def stream_Write_all)
    then show ?thesis
      using ih p less.prems(2)
      by (auto simp: nextPc_def srcUpd_def dstUpd_def cntUpd_def pending_def afterWrite_def stream_Write_all)
  qed
qed

text \<open>A copier sees only the receive side of its source and the send side of its destination.\<close>

lemma keepsContract_cong:
  assumes "rx (conn src) = rx (conn src2)" "rx_err (conn src) = rx_err (conn src2)"
    and "wr_script (conn dst) = wr_script (conn dst2)" "keepsContract pc src dst"
  shows "keepsContract pc src2 dst2"
  using assms
proof (induction "copyWork pc src" arbitrary: pc src dst src2 dst2 rule: less_induct)
  case less
  show ?case
  proof (cases "pc = CopyExit")
    case False
    have np: "nextPc pc src dst = nextPc pc src2 dst2"
      using less.prems(1-3) by (cases pc) (auto simp: nextPc_def stream_Read_def stream_Write_def split: list.splits)
    have "rx (conn (srcUpd pc src)) = rx (conn (srcUpd pc src2))"
      "rx_err (conn (srcUpd pc src)) = rx_err (conn (srcUpd pc src2))"
      "wr_script (conn (dstUpd pc dst)) = wr_script (conn (dstUpd pc dst2))"
      using less.prems(1-3)
      by (cases pc; auto simp: srcUpd_def dstUpd_def stream_Read_def stream_Write_def closeWrite_def
          stream_Close_def split: list.splits)+
    from less.hyps [OF copyWork_step [OF False, of src dst] this] keepsContract_step [OF False less.prems(4)]
    have "keepsContract (nextPc pc src2 dst2) (srcUpd pc src2) (dstUpd pc dst2)" by (simp add: np)
    moreover have "0 \<le> nw \<and> nw \<le> int (length p) \<and> (nw < int (length p) \<longrightarrow> ew \<noteq> None)"
      if pcw: "pc = CopyWrite p er" and w2: "stream_Write p (conn dst2) = ((nw, ew), d2)" for p er nw ew d2
    proof -
      obtain d where "stream_Write p (conn dst) = ((nw, ew), d)"
        using w2 less.prems(3) by (auto simp: stream_Write_def split: list.splits)
      from keepsContract_write [OF _ this] less.prems(4) pcw show ?thesis by simp
    qed
    ultimately show ?thesis
      by (subst keepsContract.simps) (auto simp: copyStep_parts split: copier.split prod.split)
  qed (simp add: keepsContract.simps)
qed

lemma Pipe_parts:
  assumes "Pipe a b = (c, a', b')"
  obtains a1 b1 a2 b2 where "ioCopy CopyRead a b 0 = (a1, b1, AToB c)" "ioCopy CopyRead b1 a1 0 = (b2, a2, BToA c)"
    "a' = a2\<lparr>conn := stream_Close (conn a2)\<rparr>" "b' = b2\<lparr>conn := stream_Close (conn b2)\<rparr>"
proof -
  obtain a1 b1 n where 1: "ioCopy CopyRead a b 0 = (a1, b1, n)" by (metis prod_cases3)
  obtain b2 a2 m where 2: "ioCopy CopyRead b1 a1 0 = (b2, a2, m)" by (metis prod_cases3)
  from assms 1 2 show thesis
    by (intro that [of a1 b1 b2 a2]) (auto simp: Pipe_def finishPipe_def drainAB_def drainBA_def startPipe_def)
qed

lemma Pipe_full:
  assumes "wr_script (conn a) = []" "wr_script (conn b) = []"
  shows "\<exists>a' b'. Pipe a b = (\<lparr>AToB = word_of_nat (length (arriving (conn a))),
      BToA = word_of_nat (length (arriving (conn b)))\<rparr>, a', b') \<and>
    tx (conn b') = tx (conn b) @ arriving (conn a) \<and> tx (conn a') = tx (conn a) @ arriving (conn b)"
proof -
  obtain c a' b' where p: "Pipe a b = (c, a', b')" by (metis prod_cases3)
  obtain a1 b1 a2 b2 where c: "ioCopy CopyRead a b 0 = (a1, b1, AToB c)" "ioCopy CopyRead b1 a1 0 = (b2, a2, BToA c)"
    "a' = a2\<lparr>conn := stream_Close (conn a2)\<rparr>" "b' = b2\<lparr>conn := stream_Close (conn b2)\<rparr>"
    by (rule Pipe_parts [OF p])
  note f1 = ioCopy_frame [OF c(1)] and f2 = ioCopy_frame [OF c(2)]
  have "tx (conn b1) = tx (conn b) @ arriving (conn a)" "AToB c = word_of_nat (length (arriving (conn a)))"
    using ioCopy_complete [OF c(1) assms(2)] by (simp_all add: pending_def)
  moreover have "tx (conn a2) = tx (conn a) @ arriving (conn b)" "BToA c = word_of_nat (length (arriving (conn b)))"
    using ioCopy_complete [OF c(2)] assms(1) f1 by (simp_all add: pending_def arriving_def)
  ultimately show ?thesis
    using p f2 by (intro exI [of _ a'] exI [of _ b']) (cases c, simp add: c(3,4))
qed

section \<open>Properties\<close>


definition sampleEnd :: "bytes list \<Rightarrow> (int \<times> io_error option) list \<Rightarrow> bool \<Rightarrow> endpoint" where
  "sampleEnd input script half = \<lparr>conn = \<lparr>rx = input, rx_err = EOF, tx = [], wr_script = script,
     deadline = None, closed = False\<rparr>, hasCloseWrite = half, writeClosed = False\<rparr>"


text \<open>C18: Whatever the transports do, each side is sent a prefix of what the other side delivered, in
  order and without gaps or repetitions; if the transport keeps the contract of \<open>io.Writer\<close>, the
  count that \<open>Pipe\<close> returns is the number of bytes sent, modulo \<open>2\<^sup>6\<^sup>4\<close>; and both connections are
  closed.\<close>

theorem Pipe_prefix_and_counts:
  assumes "Pipe a b = (c, a', b')"
  shows "closed (conn a') \<and> closed (conn b') \<and>
    (\<exists>k \<le> length (arriving (conn a)). tx (conn b') = tx (conn b) @ take k (arriving (conn a)) \<and>
       (keepsContract CopyRead a b \<longrightarrow> AToB c = word_of_nat k)) \<and>
    (\<exists>k \<le> length (arriving (conn b)). tx (conn a') = tx (conn a) @ take k (arriving (conn b)) \<and>
       (keepsContract CopyRead b a \<longrightarrow> BToA c = word_of_nat k))"
proof -
  obtain a1 b1 a2 b2 where c: "ioCopy CopyRead a b 0 = (a1, b1, AToB c)" "ioCopy CopyRead b1 a1 0 = (b2, a2, BToA c)"
    "a' = a2\<lparr>conn := stream_Close (conn a2)\<rparr>" "b' = b2\<lparr>conn := stream_Close (conn b2)\<rparr>"
    by (rule Pipe_parts [OF assms])
  note f1 = ioCopy_frame [OF c(1)] and f2 = ioCopy_frame [OF c(2)]
  have "keepsContract CopyRead b a \<Longrightarrow> keepsContract CopyRead b1 a1"
    using f1 by (intro keepsContract_cong [of b b1 a a1]) auto
  then show ?thesis
    using ioCopy_delivers [OF c(1)] ioCopy_delivers [OF c(2)] f1 f2 by (auto simp: c(3,4) pending_def arriving_def)
qed

theorem Pipe_prefix_and_counts_witness:
  "let a = sampleEnd [[1, 2], [3]] [(2, None), (0, Some DeadlineExceeded)] True; b = sampleEnd [[9]] [] False in
   \<exists>c a' b'. Pipe b a = (c, b', a') \<and>
     (\<exists>k \<le> length (arriving (conn a)). tx (conn b') = tx (conn b) @ take k (arriving (conn a)) \<and>
       (keepsContract CopyRead a b \<longrightarrow> BToA c = word_of_nat k))"
proof -
  let ?a = "sampleEnd [[1, 2], [3]] [(2, None), (0, Some DeadlineExceeded)] True" and ?b = "sampleEnd [[9]] [] False"
  obtain c a' b' where p: "Pipe ?b ?a = (c, b', a')" by (metis prod_cases3)
  from Pipe_prefix_and_counts [OF p] p show ?thesis unfolding Let_def by blast
qed

end
