(* ===== verification/Logging.thy ===== *)
theory Logging
  imports Go_Strings
begin

text \<open>
  \<open>internal/logging/logging.go\<close>: a levelled key/value logger. A field value is one of the dynamic
  types that mule logs (strings, integers, errors, a nil error); the output is the list of records written, a
  text line or the map that \<open>encoding/json\<close> is given.
\<close>

datatype any = AString string | AInt int | AError string | ANil

datatype log_line = TextLine string | JSONLine "any gomap"

record Logger =
  logFormat :: string
  logLevel :: int
  logOut :: "log_line list"

text \<open>The levels of \<open>log/slog\<close>.\<close>

definition LevelDebug :: int where "LevelDebug = -4"
definition LevelInfo :: int where "LevelInfo = 0"
definition LevelWarn :: int where "LevelWarn = 4"
definition LevelError :: int where "LevelError = 8"

lemmas level_defs = LevelDebug_def LevelInfo_def LevelWarn_def LevelError_def

text \<open>\<open>strings.ToLower(level.String())\<close> on the four levels that are logged.\<close>

definition levelName :: "int \<Rightarrow> string" where
  "levelName l =
     (if l < LevelInfo then ''debug'' else if l < LevelWarn then ''info''
      else if l < LevelError then ''warn'' else ''error'')"

definition NewForWriter :: "string \<Rightarrow> string \<Rightarrow> log_line list \<Rightarrow> Logger" where
  "NewForWriter format level out =
     \<lparr>logFormat = format,
      logLevel = (if level = ''debug'' then LevelDebug else if level = ''warn'' then LevelWarn
        else if level = ''error'' then LevelError else LevelInfo),
      logOut = out\<rparr>"

text \<open>\<open>%v\<close> of a field, and \<open>%s\<close> of the level entry of the map.\<close>

fun fmt_v :: "any \<Rightarrow> string" where
  "fmt_v (AString s) = s"
| "fmt_v (AInt i) = int_dec i"
| "fmt_v (AError e) = e"
| "fmt_v ANil = ''<nil>''"

fun fmt_s :: "any option \<Rightarrow> string" where
  "fmt_s None = ''%!s(<nil>)''"
| "fmt_s (Some ANil) = ''%!s(<nil>)''"
| "fmt_s (Some (AInt i)) = ''%!s(int='' @ int_dec i @ '')''"
| "fmt_s (Some v) = fmt_v v"

text \<open>The two loops over \<open>fields\<close>: pairs whose key is not a string are skipped, and so is a last odd field.\<close>

fun addFields :: "any gomap \<Rightarrow> any list \<Rightarrow> any gomap" where
  "addFields m (AString key # v # kvs) = addFields (AList.update key v m) kvs"
| "addFields m (_ # _ # kvs) = addFields m kvs"
| "addFields m _ = m"

fun textFields :: "any list \<Rightarrow> string" where
  "textFields (AString key # v # kvs) = '' '' @ key @ ''='' @ fmt_v v @ textFields kvs"
| "textFields (_ # _ # kvs) = textFields kvs"
| "textFields _ = []"

definition log :: "int \<Rightarrow> string \<Rightarrow> any list \<Rightarrow> Logger \<Rightarrow> Logger" where
  "log level event kvs l =
     (if level < logLevel l then l
      else
        let m = addFields [(''level'', AString (levelName level)), (''event'', AString event)] kvs in
        if logFormat l = ''json'' then l\<lparr>logOut := logOut l @ [JSONLine m]\<rparr>
        else l\<lparr>logOut := logOut l @ [TextLine (''level='' @ fmt_s (map_of m ''level'') @ '' event='' @ event @
               textFields kvs @ [CHR 0x0A])]\<rparr>)"

definition Debug :: "string \<Rightarrow> any list \<Rightarrow> Logger \<Rightarrow> Logger" where
  "Debug event kvs = log LevelDebug event kvs"

definition Info :: "string \<Rightarrow> any list \<Rightarrow> Logger \<Rightarrow> Logger" where
  "Info event kvs = log LevelInfo event kvs"

definition Warn :: "string \<Rightarrow> any list \<Rightarrow> Logger \<Rightarrow> Logger" where
  "Warn event kvs = log LevelWarn event kvs"

definition Error :: "string \<Rightarrow> any list \<Rightarrow> Logger \<Rightarrow> Logger" where
  "Error event kvs = log LevelError event kvs"

end
