(* ===== verification/Semaphore.thy ===== *)
theory Semaphore
  imports Mule_Prelude
begin

text \<open>
  A buffered channel of empty structs used as a counting semaphore:
  \<open>select { case c <- struct{}{}: ... default: ... }\<close> takes a slot if one is free,
  \<open><-c\<close> gives one back. The server bounds its dials, its probes and its reverse connections this
  way, the agent its forwarded connections. The locale \<open>semaphore\<close> is the contract those
  components rely on.
\<close>

text \<open>The number of elements in the channel; its capacity is fixed when it is made.\<close>

type_synonym channel = nat

definition trySend :: "int \<Rightarrow> channel \<Rightarrow> channel option" where
  "trySend capacity c = (if int c < capacity then Some (Suc c) else None)"

definition receive :: "channel \<Rightarrow> channel" where
  "receive c = c - 1"

locale semaphore =
  fixes acquire :: "'s \<Rightarrow> 's option" and release :: "'s \<Rightarrow> 's" and held :: "'s \<Rightarrow> nat" and slots :: nat
  assumes acquire_Some: "acquire s = Some s' \<Longrightarrow> held s < slots \<and> held s' = Suc (held s)"
    and acquire_None: "acquire s = None \<Longrightarrow> slots \<le> held s"
    and release_held: "held (release s) = held s - 1"
begin

lemma acquire_bounded: "acquire s = Some s' \<Longrightarrow> held s' \<le> slots"
  using acquire_Some by fastforce

lemma release_bounded: "held s \<le> slots \<Longrightarrow> held (release s) \<le> slots"
  by (simp add: release_held)

lemma acquire_iff: "(\<exists>s'. acquire s = Some s') \<longleftrightarrow> held s < slots"
  using acquire_Some [of s] acquire_None [of s] by (cases "acquire s") auto

lemma release_acquire: "acquire s = Some s' \<Longrightarrow> held (release s') = held s"
  using acquire_Some by (simp add: release_held)

text \<open>After a release a slot is free again.\<close>

lemma release_frees: "held s \<le> slots \<Longrightarrow> 0 < held s \<Longrightarrow> \<exists>s'. acquire (release s) = Some s'"
  unfolding acquire_iff release_held by linarith

end

interpretation channel: semaphore "trySend capacity" receive "\<lambda>c. c" "nat capacity" for capacity
  by unfold_locales (auto simp: trySend_def receive_def split: if_splits)

end
