(* ===== verification/Handlers.thy ===== *)
theory Handlers
  imports Protocol Transport Logging Semaphore Go_Encoding
begin

text \<open>
  What the connection handlers of the agent and of the server have in common: the outside that a
  handler asks (clock, dialling, randomness), the two replies of the control protocol, the ends of
  a tunnelled connection and the id of a connection, which both packages define alike.
\<close>

section \<open>The outside\<close>

text \<open>
  One run of a handler sees one clock reading, one duration, one outcome of dialling an address
  and one outcome of reading eight random bytes. A QUIC connection is an opaque number.
\<close>

record senv =
  now :: int
  elapsedMs :: int
  dialTCP :: "string \<Rightarrow> string + endpoint"
  randomID :: "bytes option"

type_synonym connection = nat

definition str :: "string \<Rightarrow> any" where "str s = AString s"

definition proto_text :: "proto_error \<Rightarrow> string" where
  "proto_text e = (case e of
       ErrFrameTooLarge \<Rightarrow> ''control frame too large'' | ErrBadVersion \<Rightarrow> ''unsupported control protocol version''
     | ErrBadFrame \<Rightarrow> ''invalid control frame''
     | ErrUnknownType t \<Rightarrow> ''invalid control frame: unknown type '' @ int_dec (uint t)
     | IOError _ \<Rightarrow> ''i/o error'')"

section \<open>Replies\<close>

definition errorFrame :: "byte \<Rightarrow> Frame" where
  "errorFrame code = zeroFrame\<lparr>Type := TypeError, Code := code\<rparr>"

definition okFrame :: Frame where "okFrame = zeroFrame\<lparr>Type := TypeOK\<rparr>"

text \<open>\<open>_ = protocol.WriteFrame(stream, Frame{Type: TypeError, Code: code}); _ = stream.Close()\<close>\<close>

definition refuse :: "byte \<Rightarrow> stream \<Rightarrow> stream" where
  "refuse code st = stream_Close (snd (WriteFrame stream_Write (errorFrame code) st))"

definition accept :: "stream \<Rightarrow> stream" where
  "accept st = stream_Close (snd (WriteFrame stream_Write okFrame st))"

section \<open>Ends of a connection\<close>

definition closeEnd :: "endpoint \<Rightarrow> endpoint" where
  "closeEnd e = e\<lparr>conn := stream_Close (conn e)\<rparr>"

definition quicEnd :: "stream \<Rightarrow> endpoint" where
  "quicEnd st = \<lparr>conn = st, hasCloseWrite = False, writeClosed = False\<rparr>"

text \<open>\<open>%x\<close> of eight random bytes, or the clock in decimal.\<close>

definition newConnectionID :: "senv \<Rightarrow> string" where
  "newConnectionID env = (case randomID env of
     None \<Rightarrow> int_dec (now env) | Some b \<Rightarrow> hex_EncodeToString b)"

text \<open>
  What is known of the outside: eight bytes were asked for, and the clock is a 64-bit count of
  nanoseconds since 1970.
\<close>

definition validEnv :: "senv \<Rightarrow> bool" where
  "validEnv env \<longleftrightarrow> 0 \<le> now env \<and> now env < 2 ^ 63 \<and> (case randomID env of None \<Rightarrow> True | Some b \<Rightarrow> length b = 8)"

lemma length_newConnectionID: "validEnv env \<Longrightarrow> length (newConnectionID env) \<le> 20"
proof -
  assume v: "validEnv env"
  then have "nat (now env) < 2 ^ 63" by (simp add: validEnv_def nat_less_iff)
  then have "length (nat_dec (nat (now env))) \<le> 20" by (intro length_nat_dec) simp_all
  with v show ?thesis by (auto simp: newConnectionID_def validEnv_def int_dec_def split: option.splits)
qed

section \<open>Lemmas on replies\<close>

lemma ReadFrame_rx: "\<exists>cs. snd (ReadFrame s) = s\<lparr>rx := cs\<rparr>"
proof -
  obtain r1 s1 where 1: "ReadFull 2 s = (r1, s1)" by (cases "ReadFull 2 s")
  then obtain cs where s1: "s1 = s\<lparr>rx := cs\<rparr>" using ReadFull_frame [of 2 s] by auto
  show ?thesis
  proof (cases "\<exists>hdr. r1 = Inr hdr \<and> \<not> MaxFrameLen < unat (Uint16 hdr) \<and> \<not> unat (Uint16 hdr) < 2")
    case True
    then obtain hdr where hdr: "r1 = Inr hdr" "\<not> MaxFrameLen < unat (Uint16 hdr)" "\<not> unat (Uint16 hdr) < 2" by blast
    obtain r2 s2 where 2: "ReadFull (unat (Uint16 hdr)) s1 = (r2, s2)"
      by (cases "ReadFull (unat (Uint16 hdr)) s1")
    then obtain ds where "s2 = s\<lparr>rx := ds\<rparr>" using ReadFull_frame [of "unat (Uint16 hdr)" s1] s1 by auto
    with 1 2 hdr show ?thesis by (cases r2) (auto simp: ReadFrame_def Let_def)
  next
    case False
    with 1 have "snd (ReadFrame s) = s1" by (cases r1) (auto simp: ReadFrame_def Let_def)
    with s1 show ?thesis by blast
  qed
qed

lemma ReadFrame_sides:
  assumes "ReadFrame s = (r, s')"
  shows "tx s' = tx s" "wr_script s' = wr_script s"
  using ReadFrame_rx [of s] assms by auto

lemma WriteFrame_accepting:
  assumes "wr_script st = []" "frameBody f = Inr (bodyOf f)"
  shows "WriteFrame stream_Write f st = (None, st\<lparr>tx := tx st @ frameBytes f\<rparr>)"
  using assms by (simp add: WriteFrame_def writeFull_accepting frameBytes_def)

lemma replies_wellFormed:
  "wellFormed okFrame" "validErrorCode code \<Longrightarrow> wellFormed (errorFrame code)"
  by (simp_all add: wellFormed_def okFrame_def errorFrame_def zeroFrame_def opens_def length_bodyOf MaxFrameLen_def)

lemma replies_wire: "wireFrame okFrame = okFrame" "wireFrame (errorFrame code) = errorFrame code"
  by (simp_all add: wireFrame_def okFrame_def errorFrame_def zeroFrame_def opens_def)

lemma codes_valid [simp]:
  "validErrorCode ErrorUnauthorized" "validErrorCode ErrorOverloaded" "validErrorCode ErrorDialFailed"
  by (simp_all add: validErrorCode_def)

lemma refuse_eq: "wr_script st = [] \<Longrightarrow> validErrorCode code \<Longrightarrow>
    refuse code st = st\<lparr>tx := tx st @ frameBytes (errorFrame code), closed := True\<rparr>"
  by (simp add: refuse_def WriteFrame_accepting wellFormed_frameBody replies_wellFormed stream_Close_def)

lemma accept_eq: "wr_script st = [] \<Longrightarrow> accept st = st\<lparr>tx := tx st @ frameBytes okFrame, closed := True\<rparr>"
  by (simp add: accept_def WriteFrame_accepting wellFormed_frameBody replies_wellFormed stream_Close_def)

lemma okFrame_accepting: "wr_script st = [] \<Longrightarrow>
    WriteFrame stream_Write okFrame st = (None, st\<lparr>tx := tx st @ frameBytes okFrame\<rparr>)"
  by (simp add: WriteFrame_accepting wellFormed_frameBody replies_wellFormed)

text \<open>A copy towards a stream that accepts every write sends everything.\<close>

lemma Pipe_to_accepting:
  assumes "wr_script (conn b) = []" "Pipe a b = (n, a', b')"
  shows "tx (conn b') = tx (conn b) @ arriving (conn a)"
proof -
  obtain a1 b1 a2 b2 where c: "ioCopy CopyRead a b 0 = (a1, b1, AToB n)" "ioCopy CopyRead b1 a1 0 = (b2, a2, BToA n)"
    "a' = a2\<lparr>conn := stream_Close (conn a2)\<rparr>" "b' = b2\<lparr>conn := stream_Close (conn b2)\<rparr>"
    by (rule Pipe_parts [OF assms(2)])
  show ?thesis
    using ioCopy_complete [OF c(1) assms(1)] ioCopy_frame [OF c(2)] by (simp add: c(4) pending_def)
qed

lemma arriving_more: "arriving (s\<lparr>tx := x\<rparr>) = arriving s"
  by (simp add: arriving_def)

section \<open>A concrete outside\<close>

definition sampleStream :: "bytes list \<Rightarrow> stream" where
  "sampleStream input = \<lparr>rx = input, rx_err = EOF, tx = [], wr_script = [], deadline = None, closed = False\<rparr>"

definition sampleEnv :: senv where
  "sampleEnv = \<lparr>now = 0, elapsedMs = 0,
     dialTCP = (\<lambda>a. if a = ''h:80'' then Inr (sampleEnd [[7, 8]] [] True) else Inl ''refused''), randomID = None\<rparr>"

end
