(* ===== verification/Metrics.thy ===== *)
theory Metrics
  imports Go_Strings "HOL-Library.Char_ord" "HOL-Library.List_Lexorder"
begin

text \<open>
  \<open>internal/metrics/metrics.go\<close>: the process counters, the connection status of the agents and
  the HTTP handler that reports them. Counters are 64-bit words, the signed gauges read with
  \<open>sint\<close>; a nil \<open>connectedAgents\<close> map is \<open>None\<close>. The body of \<open>/status\<close> is kept as the value
  that \<open>encoding/json\<close> is given.
\<close>

section \<open>State\<close>

record Metrics =
  ActiveTCPConnections :: "64 word"
  ActiveQUICStreams :: "64 word"
  QUICConnections :: "64 word"
  TCPConnectionsTotal :: "64 word"
  StreamsTotal :: "64 word"
  StreamErrorsTotal :: "64 word"
  TargetDialErrors :: "64 word"
  AuthFailuresTotal :: "64 word"
  BytesClientToTarget :: "64 word"
  BytesTargetToClient :: "64 word"
  mRole :: string
  mAgentID :: string
  mServer :: string
  connectedAgents :: "bool gomap option"

record Status =
  StatusRole :: string
  StatusAgentID :: string
  StatusServer :: string
  Connected :: "bool option"
  ConnectedAgents :: "string list"
  ConfiguredAgentCount :: nat
  StatusQUICConnections :: int

definition New :: Metrics where
  "New = \<lparr>ActiveTCPConnections = 0, ActiveQUICStreams = 0, QUICConnections = 0, TCPConnectionsTotal = 0,
     StreamsTotal = 0, StreamErrorsTotal = 0, TargetDialErrors = 0, AuthFailuresTotal = 0,
     BytesClientToTarget = 0, BytesTargetToClient = 0, mRole = [], mAgentID = [], mServer = [],
     connectedAgents = None\<rparr>"

text \<open>\<open>atomic\<close> addition on one counter, given its record update.\<close>

definition Add :: "((64 word \<Rightarrow> 64 word) \<Rightarrow> Metrics \<Rightarrow> Metrics) \<Rightarrow> 64 word \<Rightarrow> Metrics \<Rightarrow> Metrics" where
  "Add upd d m = upd (\<lambda>x. x + d) m"

definition ConfigureAgent :: "string \<Rightarrow> string \<Rightarrow> Metrics \<Rightarrow> Metrics" where
  "ConfigureAgent agentID server m =
     m\<lparr>mRole := ''agent'', mAgentID := agentID, mServer := server, connectedAgents := Some [(agentID, False)]\<rparr>"

definition ConfigureServer :: "string list \<Rightarrow> Metrics \<Rightarrow> Metrics" where
  "ConfigureServer agentIDs m =
     m\<lparr>mRole := ''server'', connectedAgents := Some (foldl (\<lambda>c i. AList.update i False c) [] agentIDs)\<rparr>"

definition SetAgentConnected :: "string \<Rightarrow> bool \<Rightarrow> Metrics \<Rightarrow> Metrics" where
  "SetAgentConnected agentID connected m =
     m\<lparr>connectedAgents := Some (AList.update agentID connected
         (case connectedAgents m of None \<Rightarrow> [] | Some c \<Rightarrow> c))\<rparr>"

section \<open>Reports\<close>

definition agentsOf :: "Metrics \<Rightarrow> bool gomap" where
  "agentsOf m = (case connectedAgents m of None \<Rightarrow> [] | Some c \<Rightarrow> c)"

definition StatusOf :: "Metrics \<Rightarrow> Status" where
  "StatusOf m =
     (let status = \<lparr>StatusRole = mRole m, StatusAgentID = mAgentID m, StatusServer = mServer m,
            Connected = None, ConnectedAgents = [], ConfiguredAgentCount = 0,
            StatusQUICConnections = sint (QUICConnections m)\<rparr>;
          status = (if mRole m = ''agent''
            then status\<lparr>Connected := Some (map_of (agentsOf m) (mAgentID m) = Some True)\<rparr> else status)
      in if mRole m = ''server''
         then status\<lparr>ConfiguredAgentCount := length (agentsOf m),
                ConnectedAgents := sort (map fst (filter snd (agentsOf m)))\<rparr>
         else status)"

datatype body = Text string | StatusJSON Status

record response =
  StatusCode :: nat
  ContentType :: string
  Body :: body

definition metricLine :: "string \<Rightarrow> int \<Rightarrow> string" where
  "metricLine name v = name @ '' '' @ int_dec v @ [CHR 0x0A]"

definition Handler :: "Metrics \<Rightarrow> string \<Rightarrow> response" where
  "Handler m path =
     (if path = ''/status''
      then
        (if StatusRole (StatusOf m) = []
         then \<lparr>StatusCode = 503, ContentType = ''application/json'',
                Body = Text (''{\"status\":\"starting\"}'' @ [CHR 0x0A])\<rparr>
         else \<lparr>StatusCode = 200, ContentType = ''application/json'', Body = StatusJSON (StatusOf m)\<rparr>)
      else \<lparr>StatusCode = 200, ContentType = ''text/plain; version=0.0.4'', Body = Text (
        metricLine ''mule_active_tcp_connections'' (sint (ActiveTCPConnections m)) @
        metricLine ''mule_active_quic_streams'' (sint (ActiveQUICStreams m)) @
        metricLine ''mule_quic_connections'' (sint (QUICConnections m)) @
        metricLine ''mule_tcp_connections_total'' (uint (TCPConnectionsTotal m)) @
        metricLine ''mule_streams_total'' (uint (StreamsTotal m)) @
        metricLine ''mule_stream_errors_total'' (uint (StreamErrorsTotal m)) @
        metricLine ''mule_target_dial_errors_total'' (uint (TargetDialErrors m)) @
        metricLine ''mule_auth_failures_total'' (uint (AuthFailuresTotal m)) @
        metricLine ''mule_bytes_client_to_target_total'' (uint (BytesClientToTarget m)) @
        metricLine ''mule_bytes_target_to_client_total'' (uint (BytesTargetToClient m)))\<rparr>)"

text \<open>
  \<open>Serve\<close>: with an address it runs the HTTP server until it fails or the context ends and the server
  is shut down; in both cases the result is the error of \<open>ListenAndServe\<close>, nil when the server
  was closed.
\<close>

datatype listen_end = ErrServerClosed | ListenErr string

definition Serve :: "string \<Rightarrow> listen_end \<Rightarrow> string option" where
  "Serve addr e = (if addr = [] then None else case e of ErrServerClosed \<Rightarrow> None | ListenErr err \<Rightarrow> Some err)"

section \<open>Lemmas\<close>

lemma wf_ConfigureServer: "wf_map (agentsOf (ConfigureServer ids m))"
proof -
  have "wf_map (foldl (\<lambda>c i. AList.update i False c) acc ids)" if "wf_map acc" for acc :: "bool gomap"
    using that by (induction ids arbitrary: acc) simp_all
  then show ?thesis by (simp add: agentsOf_def ConfigureServer_def)
qed

lemma map_of_ConfigureServer:
  "map_of (agentsOf (ConfigureServer ids m)) i = (if i \<in> set ids then Some False else None)"
proof -
  have "map_of (foldl (\<lambda>c i. AList.update i False c) acc ids) i =
      (if i \<in> set ids then Some False else map_of acc i)" for acc :: "bool gomap"
    by (induction ids arbitrary: acc) auto
  then show ?thesis by (simp add: agentsOf_def ConfigureServer_def)
qed

lemma agentsOf_Set [simp]: "agentsOf (SetAgentConnected i b m) = AList.update i b (agentsOf m)"
  by (simp add: agentsOf_def SetAgentConnected_def)

lemma mRole_Set [simp]: "mRole (SetAgentConnected i b m) = mRole m"
  by (simp add: SetAgentConnected_def)

definition applyEvents :: "(string \<times> bool) list \<Rightarrow> Metrics \<Rightarrow> Metrics" where
  "applyEvents es m = foldl (\<lambda>m (i, b). SetAgentConnected i b m) m es"

lemma applyEvents_simps [simp]:
  "applyEvents [] m = m"
  "applyEvents ((i, b) # es) m = applyEvents es (SetAgentConnected i b m)"
  by (simp_all add: applyEvents_def)

lemma applyEvents_agents:
  "wf_map (agentsOf m) \<Longrightarrow> wf_map (agentsOf (applyEvents es m)) \<and> mRole (applyEvents es m) = mRole m \<and>
    map_of (agentsOf (applyEvents es m)) i =
      (case map_of (rev es) i of Some b \<Rightarrow> Some b | None \<Rightarrow> map_of (agentsOf m) i)"
proof (induction es arbitrary: m)
  case (Cons e es)
  obtain j b where "e = (j, b)" by (cases e)
  with Cons show ?case by (auto simp: map_add_def split: option.splits)
qed simp

lemma sort_filter_canonical:
  assumes "wf_map m"
  shows "sort (map fst (filter snd m)) = sorted_list_of_set {i. map_of m i = Some True}"
proof -
  have d: "distinct (map fst (filter snd m))"
    using assms by (simp add: wf_map_def distinct_map_filter)
  have "set (map fst (filter snd m)) = {i. map_of m i = Some True}"
    using map_of_wf_iff [OF assms, where v = True] by force
  with d show ?thesis
    by (metis sorted_list_of_set_sort_remdups distinct_remdups_id)
qed

section \<open>Property\<close>

text \<open>C37: After the server has configured its agents and any sequence of connect and disconnect
  reports for them, the status lists exactly the agents whose last report was a connect, in
  increasing order and without repetition, and counts every configured agent; the report does not
  depend on the order in which the map is visited.\<close>

theorem Status_server_exact:
  assumes "distinct ids" "\<forall>(i, b) \<in> set es. i \<in> set ids"
    and "m' = applyEvents es (ConfigureServer ids m)" "same_map c (agentsOf m')"
  shows "ConnectedAgents (StatusOf m') = sorted_list_of_set {i. map_of (rev es) i = Some True} \<and>
    ConfiguredAgentCount (StatusOf m') = length ids \<and>
    StatusOf (m'\<lparr>connectedAgents := Some c\<rparr>) = StatusOf m'"
proof -
  note ev = applyEvents_agents [OF wf_ConfigureServer [of ids m], of es, folded assms(3)]
  have role: "mRole m' = ''server''" using ev by (simp add: ConfigureServer_def)
  have wf: "wf_map (agentsOf m')" using ev by blast
  have val: "map_of (agentsOf m') i =
      (case map_of (rev es) i of Some b \<Rightarrow> Some b | None \<Rightarrow> if i \<in> set ids then Some False else None)" for i
    using ev by (simp add: map_of_ConfigureServer split: option.splits)
  then have up: "{i. map_of (agentsOf m') i = Some True} = {i. map_of (rev es) i = Some True}"
    by (auto split: option.splits if_splits)
  have "map_of (rev es) i \<noteq> None \<Longrightarrow> i \<in> set ids" for i
    using assms(2) by (auto simp: map_of_eq_None_iff)
  then have "map_of (agentsOf m') i = None \<longleftrightarrow> i \<notin> set ids" for i
    using val [of i] by (cases "map_of (rev es) i") auto
  then have "fst ` set (agentsOf m') = set ids"
    unfolding map_of_eq_None_iff by blast
  then have "length (agentsOf m') = length ids"
    using wf assms(1) by (metis distinct_card length_map list.set_map wf_map_def)
  moreover have "sort (map fst (filter snd c)) = sort (map fst (filter snd (agentsOf m')))" "length c = length (agentsOf m')"
    using assms(4) sort_filter_canonical [of c] sort_filter_canonical [OF wf] same_map_of [OF assms(4)]
    by (simp_all add: same_map_def wf_map_def) (metis distinct_card distinct_map length_map list.set_map)
  moreover have "agentsOf (m'\<lparr>connectedAgents := Some c\<rparr>) = c" by (simp add: agentsOf_def)
  ultimately show ?thesis
    using role sort_filter_canonical [OF wf] up by (simp add: StatusOf_def Let_def)
qed

theorem Status_server_exact_witness:
  "ConnectedAgents (StatusOf (applyEvents [(''b'', True), (''a'', True), (''b'', False), (''c'', True)]
     (ConfigureServer [''c'', ''b'', ''a''] New))) = [''a'', ''c'']"
proof -
  let ?es = "[(''b'', True), (''a'', True), (''b'', False), (''c'', True)]" and ?ids = "[''c'', ''b'', ''a'']"
  let ?m = "applyEvents ?es (ConfigureServer ?ids New)"
  have "same_map (agentsOf ?m) (agentsOf ?m)"
    using applyEvents_agents [OF wf_ConfigureServer [of ?ids New], of ?es] by (simp only: same_map_def simp_thms)
  then have "ConnectedAgents (StatusOf ?m) = sorted_list_of_set {i. map_of (rev ?es) i = Some True}"
    using Status_server_exact [of ?ids ?es ?m New "agentsOf ?m"] by simp
  moreover have "{i. map_of (rev ?es) i = Some True} = set [''a'', ''c'']" by auto
  moreover have "sort (remdups [''a'', ''c'']) = [''a'', ''c'']" by code_simp
  ultimately show ?thesis by (simp only: sorted_list_of_set_sort_remdups)
qed

end
