(* ===== verification/Server.thy ===== *)
theory Server
  imports Server_Config Identity Handlers Metrics
begin

text \<open>
  The request handlers and the connection registry of \<open>internal/server/server.go\<close>.

  A handler is a goroutine. Its definition is cut into parts such that each part changes at most one
  of the things that the goroutines share (a semaphore, a gauge, the registry) and waits at most
  before or after that change; the handler is the composition of its parts, and
  \<open>Server_Lifecycle\<close> interleaves them. \<open>dialed\<close> records the
  addresses given to \<open>DialContext\<close>, each with the agent that asked.
\<close>

section \<open>State\<close>

record Server =
  cfg :: SrvConfig
  slog :: Logger
  metrics :: Metrics
  conns :: "connection gomap"
  dials :: channel
  dialed :: "(string \<times> string) list"

definition logS :: "(Logger \<Rightarrow> Logger) \<Rightarrow> Server \<Rightarrow> Server" where
  "logS f s = s\<lparr>slog := f (slog s)\<rparr>"

definition addM :: "((64 word \<Rightarrow> 64 word) \<Rightarrow> Metrics \<Rightarrow> Metrics) \<Rightarrow> 64 word \<Rightarrow> Server \<Rightarrow> Server" where
  "addM upd d s = s\<lparr>metrics := Add upd d (metrics s)\<rparr>"

text \<open>The fields that every event of the server starts with.\<close>

definition base :: "string \<Rightarrow> any list" where
  "base agentID = [str ''role'', str ''server'', str ''agent_id'', str agentID]"

section \<open>The registry\<close>

definition register :: "string \<Rightarrow> connection \<Rightarrow> Server \<Rightarrow> bool \<times> Server" where
  "register agentID c s =
     (if map_of (conns s) agentID \<noteq> None then (False, s)
      else (True, s\<lparr>conns := AList.update agentID c (conns s)\<rparr>))"

definition unregister :: "string \<Rightarrow> connection \<Rightarrow> Server \<Rightarrow> Server" where
  "unregister agentID c s =
     (if map_of (conns s) agentID = Some c then s\<lparr>conns := AList.delete agentID (conns s)\<rparr> else s)"

definition connOf :: "string \<Rightarrow> Server \<Rightarrow> connection option" where
  "connOf agentID s = map_of (conns s) agentID"

text \<open>The connections that are then closed with code 0, in the order of the range loop.\<close>

definition closeConnections :: "Server \<Rightarrow> connection list \<times> Server" where
  "closeConnections s = (map snd (conns s), s\<lparr>conns := []\<rparr>)"

section \<open>Probes\<close>

text \<open>Where a stream's goroutine stands.\<close>

datatype stage =
    Finished stream
  | Dialing string Frame stream
  | ProbeDialing string stream
  | Connected Frame stream endpoint
  | Aborted stream endpoint
  | Piping Frame stream endpoint

definition takeDial :: "Server \<Rightarrow> Server option" where
  "takeDial s = (case trySend (sMaxPendingDials (cfg s)) (dials s) of
     None \<Rightarrow> None | Some d \<Rightarrow> Some (s\<lparr>dials := d\<rparr>))"

definition giveDial :: "Server \<Rightarrow> Server" where
  "giveDial s = s\<lparr>dials := receive (dials s)\<rparr>"

text \<open>\<open>handleProbe\<close> up to the dial.\<close>

definition probeBegin :: "string \<Rightarrow> Frame \<Rightarrow> stream \<Rightarrow> Server \<Rightarrow> stage \<times> Server" where
  "probeBegin agentID frame st s =
     (if Direction frame = DirectionForward then
        (case forwardTarget (cfg s) agentID (Service frame) of
           None \<Rightarrow> (Finished (refuse ErrorUnauthorized st), s)
         | Some target \<Rightarrow>
             (case takeDial s of
                None \<Rightarrow> (Finished (refuse ErrorOverloaded st), s)
              | Some s' \<Rightarrow> (ProbeDialing target st, s'\<lparr>dialed := dialed s' @ [(agentID, target)]\<rparr>)))
      else if Direction frame = DirectionReverse then
        if \<not> reverseAllowed (cfg s) agentID (Service frame)
        then (Finished (refuse ErrorUnauthorized st), s)
        else (Finished (accept st), s)
      else (Finished (refuse ErrorUnauthorized st), s))"

text \<open>
  After the dial: a connection to the target is closed again, and the slot is given back when the
  handler returns.
\<close>

definition probeDialed :: "string + endpoint \<Rightarrow> stream \<Rightarrow> Server \<Rightarrow> stream \<times> endpoint option \<times> Server" where
  "probeDialed outcome st s =
     (case outcome of
        Inl err \<Rightarrow> (refuse ErrorDialFailed st, None, giveDial s)
      | Inr c \<Rightarrow> (accept st, Some (closeEnd c), giveDial s))"

definition handleProbe :: "senv \<Rightarrow> string \<Rightarrow> Frame \<Rightarrow> stream \<Rightarrow> Server \<Rightarrow> stream \<times> endpoint option \<times> Server" where
  "handleProbe env agentID frame st s =
     (case probeBegin agentID frame st s of
        (ProbeDialing target st', s') \<Rightarrow> probeDialed (dialTCP env target) st' s'
      | (Finished st', s') \<Rightarrow> (st', None, s')
      | (_, s') \<Rightarrow> (st, None, s'))"

section \<open>Forwarded streams\<close>

definition streamFields :: "string \<Rightarrow> Frame \<Rightarrow> string \<Rightarrow> any list" where
  "streamFields agentID frame target = base agentID @
     [str ''service'', str (Service frame), str ''direction'', str ''forward'',
      str ''target_address'', str target, str ''connection_id'', str (ConnectionID frame)]"

text \<open>\<open>defer s.metrics.ActiveQUICStreams.Add(-1)\<close>\<close>

definition streamExit :: "Server \<Rightarrow> Server" where
  "streamExit s = addM ActiveQUICStreams_update (-1) s"

text \<open>The counters at the start of \<open>handleAgentStream\<close>.\<close>

definition streamEnter :: "Server \<Rightarrow> Server" where
  "streamEnter s = addM ActiveQUICStreams_update 1 (addM StreamsTotal_update 1 s)"

text \<open>The request is awaited and decided upon; an accepted one takes a slot for the dial.\<close>

definition streamRequest :: "senv \<Rightarrow> string \<Rightarrow> stream \<Rightarrow> Server \<Rightarrow> stage \<times> Server" where
  "streamRequest env agentID st s =
     (let st = stream_SetDeadline (Some (now env + sHandshakeTimeout (cfg s))) st
      in case ReadFrame st of
          (Inl err, st) \<Rightarrow>
            (Finished (refuse ErrorUnauthorized st),
             logS (Debug ''control_frame_error'' (base agentID @ [str ''error'', AError (proto_text err)]))
               (addM StreamErrorsTotal_update 1 s))
        | (Inr frame, st) \<Rightarrow>
            (let s = logS (Debug ''control_frame_received'' (base agentID @
                   [str ''type'', AInt (uint (Type frame)), str ''direction'', AInt (uint (Direction frame)),
                    str ''service'', str (Service frame), str ''connection_id'', str (ConnectionID frame)])) s
             in if Type frame = TypeProbe then probeBegin agentID frame st s
                else if Type frame \<noteq> TypeOpen \<or> Direction frame \<noteq> DirectionForward
                then (Finished (refuse ErrorUnauthorized st), s)
                else
                  (case forwardTarget (cfg s) agentID (Service frame) of
                     None \<Rightarrow>
                       (Finished (refuse ErrorUnauthorized st),
                        logS (Warn ''stream_rejected'' (base agentID @ [str ''service'', str (Service frame),
                          str ''direction'', str ''forward'', str ''reason'', str ''unauthorized''])) s)
                   | Some target \<Rightarrow>
                       (case takeDial s of
                          None \<Rightarrow> (Finished (refuse ErrorOverloaded st), s)
                        | Some s' \<Rightarrow>
                            (Dialing target frame st,
                             (logS (Debug ''target_dial_started'' (streamFields agentID frame target)) s')
                               \<lparr>dialed := dialed s' @ [(agentID, target)]\<rparr>)))))"

text \<open>\<open>handleAgentStream\<close> up to the dial.\<close>

definition streamBegin :: "senv \<Rightarrow> string \<Rightarrow> stream \<Rightarrow> Server \<Rightarrow> stage \<times> Server" where
  "streamBegin env agentID st s = streamRequest env agentID st (streamEnter s)"

text \<open>When the dial returns the slot is given back at once; a failure is answered.\<close>

definition streamOutcome :: "string \<Rightarrow> string \<Rightarrow> Frame \<Rightarrow> string + endpoint \<Rightarrow> stream \<Rightarrow> Server \<Rightarrow> stage \<times> Server" where
  "streamOutcome agentID target frame outcome st s =
     (let s = giveDial s in
      case outcome of
        Inl err \<Rightarrow>
          (Finished (refuse ErrorDialFailed st),
           logS (Warn ''target_dial_failed'' (base agentID @ [str ''service'', str (Service frame),
               str ''direction'', str ''forward'', str ''target_address'', str target]))
             (logS (Debug ''target_dial_error'' (streamFields agentID frame target @ [str ''error'', AError err]))
               (addM StreamErrorsTotal_update 1 (addM TargetDialErrors_update 1 s))))
      | Inr tcpConn \<Rightarrow> (Connected frame st tcpConn, s))"

text \<open>A target connection is counted, then the request is answered; \<open>uncountTCP\<close> is the deferred decrement.\<close>

definition countTarget :: "string \<Rightarrow> string \<Rightarrow> Frame \<Rightarrow> Server \<Rightarrow> Server" where
  "countTarget agentID target frame s =
     logS (Debug ''target_dial_succeeded'' (streamFields agentID frame target))
       (addM ActiveTCPConnections_update 1 (addM TCPConnectionsTotal_update 1 s))"

definition uncountTCP :: "Server \<Rightarrow> Server" where
  "uncountTCP s = addM ActiveTCPConnections_update (-1) s"

definition streamReply :: "Frame \<Rightarrow> endpoint \<Rightarrow> stream \<Rightarrow> stage" where
  "streamReply frame tcpConn st =
     (case WriteFrame stream_Write okFrame st of
        (Some err, st) \<Rightarrow> Aborted (stream_Close st) tcpConn
      | (None, st) \<Rightarrow> Piping frame (stream_SetDeadline None st) tcpConn)"

text \<open>After the dial, up to the copy.\<close>

definition streamDialed :: "string \<Rightarrow> string \<Rightarrow> Frame \<Rightarrow> string + endpoint \<Rightarrow> stream \<Rightarrow> Server \<Rightarrow> stage \<times> Server" where
  "streamDialed agentID target frame outcome st s =
     (case streamOutcome agentID target frame outcome st s of
        (Connected frame st tcpConn, s) \<Rightarrow>
          (let s = countTarget agentID target frame s in
           case streamReply frame tcpConn st of
             Aborted st tcpConn \<Rightarrow> (Aborted st (closeEnd tcpConn), uncountTCP s)
           | g \<Rightarrow> (g, s))
      | x \<Rightarrow> x)"

text \<open>The copy with the accounting after it, and then the deferred decrement.\<close>

definition streamCopied :: "senv \<Rightarrow> string \<Rightarrow> Frame \<Rightarrow> endpoint \<Rightarrow> stream \<Rightarrow> Server \<Rightarrow> stream \<times> endpoint \<times> Server" where
  "streamCopied env agentID frame tcpConn st s =
     (case Pipe tcpConn (quicEnd st) of (count, tcpConn', st') \<Rightarrow>
        (conn st', tcpConn',
         logS (Info ''connection_closed'' (base agentID @ [str ''service'', str (Service frame),
             str ''direction'', str ''forward'', str ''connection_id'', str (ConnectionID frame),
             str ''duration_ms'', AInt (elapsedMs env), str ''bytes_client_to_target'', AInt (uint (BToA count)),
             str ''bytes_target_to_client'', AInt (uint (AToB count))]))
           (addM BytesTargetToClient_update (AToB count) (addM BytesClientToTarget_update (BToA count) s))))"

definition streamPiped :: "senv \<Rightarrow> string \<Rightarrow> Frame \<Rightarrow> endpoint \<Rightarrow> stream \<Rightarrow> Server \<Rightarrow> stream \<times> endpoint \<times> Server" where
  "streamPiped env agentID frame tcpConn st s =
     (case streamCopied env agentID frame tcpConn st s of (st', tcpConn', s') \<Rightarrow> (st', tcpConn', uncountTCP s'))"

text \<open>The whole handler; the second component is the target connection, if there was one.\<close>

definition handleAgentStream :: "senv \<Rightarrow> string \<Rightarrow> stream \<Rightarrow> Server \<Rightarrow> stream \<times> endpoint option \<times> Server" where
  "handleAgentStream env agentID st s =
     (case streamBegin env agentID st s of
        (Finished st, s) \<Rightarrow> (st, None, streamExit s)
      | (ProbeDialing target st, s) \<Rightarrow>
          (case probeDialed (dialTCP env target) st s of (st, t, s) \<Rightarrow> (st, t, streamExit s))
      | (Dialing target frame st, s) \<Rightarrow>
          (case streamDialed agentID target frame (dialTCP env target) st s of
             (Piping frame st tcpConn, s) \<Rightarrow>
               (case streamPiped env agentID frame tcpConn st s of (st, t, s) \<Rightarrow> (st, Some t, streamExit s))
           | (Aborted st t, s) \<Rightarrow> (st, Some t, streamExit s)
           | (Finished st, s) \<Rightarrow> (st, None, streamExit s)
           | (_, s) \<Rightarrow> (st, None, s))
      | (_, s) \<Rightarrow> (st, None, s))"

section \<open>Probe connections\<close>

text \<open>
  The goroutine of one stream on a probe connection, up to the dial; the flag says that it closes the
  connection because the stream was not a probe.
\<close>

definition probeStreamBegin :: "senv \<Rightarrow> string \<Rightarrow> stream \<Rightarrow> Server \<Rightarrow> stage \<times> bool \<times> Server" where
  "probeStreamBegin env agentID st s =
     (let st = stream_SetDeadline (Some (now env + sHandshakeTimeout (cfg s))) st in
      case ReadFrame st of
        (Inl err, st) \<Rightarrow> (Finished (refuse ErrorUnauthorized st), True, s)
      | (Inr frame, st) \<Rightarrow>
          if Type frame \<noteq> TypeProbe then (Finished (refuse ErrorUnauthorized st), True, s)
          else (case probeBegin agentID frame st s of (g, s) \<Rightarrow> (g, False, s)))"

text \<open>The whole goroutine; the second component is the code with which it closes the connection, if it does.\<close>

definition probeStream :: "senv \<Rightarrow> string \<Rightarrow> stream \<Rightarrow> Server \<Rightarrow> stream \<times> nat option \<times> Server" where
  "probeStream env agentID st s =
     (case probeStreamBegin env agentID st s of
        (Finished st, bad, s) \<Rightarrow> (st, if bad then Some 3 else None, s)
      | (ProbeDialing target st, _, s) \<Rightarrow>
          (case probeDialed (dialTCP env target) st s of (st, _, s) \<Rightarrow> (st, None, s))
      | (_, _, s) \<Rightarrow> (st, None, s))"

text \<open>
  \<open>handleProbeConnection\<close>: the streams it accepts until \<open>AcceptStream\<close> fails, here handled one
  after the other, and the close codes sent: those of the streams and the deferred 0.
\<close>

fun probeStreams :: "senv \<Rightarrow> string \<Rightarrow> stream list \<Rightarrow> Server \<Rightarrow> stream list \<times> nat list \<times> Server" where
  "probeStreams env agentID [] s = ([], [], s)"
| "probeStreams env agentID (st # sts) s =
     (case probeStream env agentID st s of (st', code, s') \<Rightarrow>
      case probeStreams env agentID sts s' of (sts', codes, s'') \<Rightarrow>
        (st' # sts', (case code of None \<Rightarrow> [] | Some c \<Rightarrow> [c]) @ codes, s''))"

definition handleProbeConnection :: "senv \<Rightarrow> string \<Rightarrow> stream list \<Rightarrow> Server \<Rightarrow> stream list \<times> nat list \<times> Server" where
  "handleProbeConnection env agentID accepted s =
     (case probeStreams env agentID accepted s of (sts, codes, s') \<Rightarrow> (sts, codes @ [0], s'))"

text \<open>
  \<open>handleLegacyProbeConnection\<close>: at most one stream (none when \<open>AcceptStream\<close> times out), then the
  deferred close with code 0.
\<close>

definition legacyBegin :: "senv \<Rightarrow> string \<Rightarrow> string \<Rightarrow> stream \<Rightarrow> Server \<Rightarrow> stage \<times> Server" where
  "legacyBegin env agentID peerAddress st s =
     (let st = stream_SetDeadline (Some (now env + sHandshakeTimeout (cfg s))) st in
      case ReadFrame st of
        (Inl err, st) \<Rightarrow> (Finished (refuse ErrorUnauthorized st), s)
      | (Inr frame, st) \<Rightarrow>
          if Type frame \<noteq> TypeProbe then (Finished (refuse ErrorUnauthorized st), s)
          else probeBegin agentID frame st
            (logS (Info ''legacy_probe_connection_accepted''
               (base agentID @ [str ''peer_address'', str peerAddress])) s))"

definition handleLegacyProbeConnection :: "senv \<Rightarrow> string \<Rightarrow> string \<Rightarrow> stream option \<Rightarrow> Server \<Rightarrow>
    stream option \<times> nat list \<times> Server" where
  "handleLegacyProbeConnection env agentID peerAddress accepted s =
     (case accepted of
        None \<Rightarrow> (None, [0], s)
      | Some st \<Rightarrow>
          (case legacyBegin env agentID peerAddress st s of
             (Finished st, s) \<Rightarrow> (Some st, [0], s)
           | (ProbeDialing target st, s) \<Rightarrow>
               (case probeDialed (dialTCP env target) st s of (st, _, s) \<Rightarrow> (Some st, [0], s))
           | (_, s) \<Rightarrow> (Some st, [0], s)))"

section \<open>Reverse connections\<close>

definition reverseFields :: "string \<Rightarrow> string \<Rightarrow> any list" where
  "reverseFields agentID service = base agentID @ [str ''service'', str service]"

definition openReverse :: "senv \<Rightarrow> string \<Rightarrow> string \<Rightarrow> string \<Rightarrow> string \<Rightarrow> Frame" where
  "openReverse env agentID service listener remote =
     zeroFrame\<lparr>Type := TypeOpen, Direction := DirectionReverse, Service := service, PeerID := agentID,
       Listener := listener, SourceAddr := remote, ConnectionID := newConnectionID env\<rparr>"

datatype reverse_stage =
    ReverseDone "stream option"
  | ReversePiping stream

text \<open>
  \<open>handleReverseTCP\<close>: the counters, the agent's connection, the stream that \<open>OpenStreamSync\<close> opened on
  it (or the text of the error), and the exchange of the OPEN frame and its answer.
\<close>

definition reverseEnter :: "Server \<Rightarrow> Server" where
  "reverseEnter s = addM ActiveTCPConnections_update 1 (addM TCPConnectionsTotal_update 1 s)"

definition reverseLookup :: "string \<Rightarrow> string \<Rightarrow> Server \<Rightarrow> connection option \<times> Server" where
  "reverseLookup agentID service s =
     (case connOf agentID s of
        None \<Rightarrow>
          (None, logS (Warn ''reverse_rejected''
             (reverseFields agentID service @ [str ''reason'', str ''agent_offline''])) s)
      | Some c \<Rightarrow> (Some c, s))"

definition reverseOpened :: "senv \<Rightarrow> string \<Rightarrow> string \<Rightarrow> string + stream \<Rightarrow> Server \<Rightarrow> stream option \<times> Server" where
  "reverseOpened env agentID service opened s =
     (case opened of
        Inl err \<Rightarrow>
          (None,
           logS (Warn ''reverse_rejected'' (reverseFields agentID service @ [str ''reason'', str ''open_stream_failed'']))
             (logS (Debug ''stream_open_error'' (reverseFields agentID service @ [str ''direction'', str ''reverse'',
                str ''connection_id'', str (newConnectionID env), str ''error'', AError err]))
               (addM StreamErrorsTotal_update 1 s)))
      | Inr st \<Rightarrow>
          (Some (stream_SetDeadline (Some (now env + sHandshakeTimeout (cfg s))) st),
           logS (Debug ''stream_opened'' (reverseFields agentID service @ [str ''direction'', str ''reverse'',
               str ''connection_id'', str (newConnectionID env)]))
             (addM ActiveQUICStreams_update 1 (addM StreamsTotal_update 1 s))))"

definition reverseExchange :: "senv \<Rightarrow> string \<Rightarrow> string \<Rightarrow> string \<Rightarrow> string \<Rightarrow> stream \<Rightarrow> reverse_stage" where
  "reverseExchange env agentID service listener remote st =
     (case WriteFrame stream_Write (openReverse env agentID service listener remote) st of
        (Some err, st) \<Rightarrow> ReverseDone (Some (stream_Close st))
      | (None, st) \<Rightarrow>
          (case ReadFrame st of
             (Inr resp, st) \<Rightarrow>
               if Type resp \<noteq> TypeOK then ReverseDone (Some (stream_Close st))
               else ReversePiping (stream_SetDeadline None st)
           | (Inl err, st) \<Rightarrow> ReverseDone (Some (stream_Close st))))"

text \<open>\<open>handleReverseTCP\<close> up to the copy.\<close>

definition reverseBegin :: "senv \<Rightarrow> string \<Rightarrow> string \<Rightarrow> string \<Rightarrow> string \<Rightarrow> (connection \<Rightarrow> string + stream) \<Rightarrow>
    Server \<Rightarrow> reverse_stage \<times> Server" where
  "reverseBegin env agentID service listener remote opened s =
     (case reverseLookup agentID service (reverseEnter s) of
        (None, s) \<Rightarrow> (ReverseDone None, s)
      | (Some c, s) \<Rightarrow>
          (case reverseOpened env agentID service (opened c) s of
             (None, s) \<Rightarrow> (ReverseDone None, s)
           | (Some st, s) \<Rightarrow>
               (case reverseExchange env agentID service listener remote st of
                  ReverseDone st \<Rightarrow> (ReverseDone st, streamExit s)
                | ReversePiping st \<Rightarrow> (ReversePiping st, s))))"

definition reverseCopied :: "senv \<Rightarrow> string \<Rightarrow> string \<Rightarrow> endpoint \<Rightarrow> stream \<Rightarrow> Server \<Rightarrow> endpoint \<times> stream \<times> Server" where
  "reverseCopied env agentID service tcpConn st s =
     (case Pipe tcpConn (quicEnd st) of (count, tcpConn', st') \<Rightarrow>
        (tcpConn', conn st',
         logS (Info ''connection_closed'' (reverseFields agentID service @ [str ''direction'', str ''reverse'',
             str ''connection_id'', str (newConnectionID env), str ''duration_ms'', AInt (elapsedMs env),
             str ''bytes_client_to_target'', AInt (uint (AToB count)),
             str ''bytes_target_to_client'', AInt (uint (BToA count))]))
           (addM BytesTargetToClient_update (BToA count) (addM BytesClientToTarget_update (AToB count) s))))"

definition reversePiped :: "senv \<Rightarrow> string \<Rightarrow> string \<Rightarrow> endpoint \<Rightarrow> stream \<Rightarrow> Server \<Rightarrow> endpoint \<times> stream \<times> Server" where
  "reversePiped env agentID service tcpConn st s =
     (case reverseCopied env agentID service tcpConn st s of (tcpConn', st', s') \<Rightarrow> (tcpConn', st', streamExit s'))"

text \<open>The deferred calls of \<open>handleReverseTCP\<close>: the gauge and \<open>tcpConn.Close()\<close>.\<close>

definition reverseExit :: "endpoint \<Rightarrow> Server \<Rightarrow> endpoint \<times> Server" where
  "reverseExit tcpConn s =
     (closeEnd tcpConn, uncountTCP s)"

definition handleReverseTCP :: "senv \<Rightarrow> endpoint \<Rightarrow> string \<Rightarrow> string \<Rightarrow> string \<Rightarrow> string \<Rightarrow>
    (connection \<Rightarrow> string + stream) \<Rightarrow> Server \<Rightarrow> endpoint \<times> stream option \<times> Server" where
  "handleReverseTCP env tcpConn agentID service listener remote opened s =
     (case reverseBegin env agentID service listener remote opened s of
        (ReverseDone st, s) \<Rightarrow> (case reverseExit tcpConn s of (t, s) \<Rightarrow> (t, st, s))
      | (ReversePiping st, s) \<Rightarrow>
          (case reversePiped env agentID service tcpConn st s of
             (t, st, s) \<Rightarrow> (case reverseExit t s of (t, s) \<Rightarrow> (t, Some st, s))))"

section \<open>Accepted connections\<close>

text \<open>What the accept loop of \<open>Run\<close> does with a connection that completed the handshake.\<close>

datatype admission =
    Closed nat
  | StartProbe string
  | StartLegacyProbe string
  | StartAgent string

record Run =
  server :: Server
  probes :: channel
  authn :: MultiClientAuthenticator

definition admitConn :: "connection \<Rightarrow> tls_state \<Rightarrow> string \<Rightarrow> Run \<Rightarrow> admission \<times> Run" where
  "admitConn c tls peerAddress r =
     (case ClientIDForTLSState (ClientByPublicKey (authn r)) tls of
        None \<Rightarrow> (Closed 1, r\<lparr>server := addM AuthFailuresTotal_update 1 (server r)\<rparr>)
      | Some agentID \<Rightarrow>
          (let peer = base agentID @ [str ''peer_address'', str peerAddress];
               limit = sMaxPendingDials (cfg (server r));
               r = r\<lparr>server := logS (Debug ''quic_peer_authenticated'' peer) (server r)\<rparr>
           in if ServerName tls = ProbeServerNameForClient agentID then
                (case trySend limit (probes r) of
                   None \<Rightarrow> (Closed 2, r)
                 | Some p \<Rightarrow>
                     (StartProbe agentID,
                      r\<lparr>probes := p, server := logS (Info ''probe_connection_accepted'' peer) (server r)\<rparr>))
              else
                (case register agentID c (server r) of
                   (False, _) \<Rightarrow>
                     (case trySend limit (probes r) of
                        None \<Rightarrow> (Closed 2, r)
                      | Some p \<Rightarrow> (StartLegacyProbe agentID, r\<lparr>probes := p\<rparr>))
                 | (True, s) \<Rightarrow> (StartAgent agentID, r\<lparr>server := s\<rparr>))))"

text \<open>What follows a registration: the gauge, then the status and the log.\<close>

definition countConn :: "Server \<Rightarrow> Server" where
  "countConn s = addM QUICConnections_update 1 s"

definition markConnected :: "string \<Rightarrow> string \<Rightarrow> Server \<Rightarrow> Server" where
  "markConnected agentID peerAddress s =
     logS (Info ''agent_connected'' (base agentID @ [str ''peer_address'', str peerAddress]))
       (s\<lparr>metrics := SetAgentConnected agentID True (metrics s)\<rparr>)"

definition admit :: "connection \<Rightarrow> tls_state \<Rightarrow> string \<Rightarrow> Run \<Rightarrow> admission \<times> Run" where
  "admit c tls peerAddress r =
     (case admitConn c tls peerAddress r of
        (StartAgent agentID, r) \<Rightarrow>
          (StartAgent agentID, r\<lparr>server := markConnected agentID peerAddress (countConn (server r))\<rparr>)
      | x \<Rightarrow> x)"

text \<open>The deferred function of \<open>handleAgent\<close>: it unregisters, then the gauge, then the status and the log.\<close>

definition uncountConn :: "Server \<Rightarrow> Server" where
  "uncountConn s = addM QUICConnections_update (-1) s"

definition markDisconnected :: "string \<Rightarrow> string \<Rightarrow> Server \<Rightarrow> Server" where
  "markDisconnected agentID peerAddress s =
     logS (Info ''agent_disconnected'' (base agentID @ [str ''peer_address'', str peerAddress]))
       (s\<lparr>metrics := SetAgentConnected agentID False (metrics s)\<rparr>)"

definition agentGone :: "string \<Rightarrow> connection \<Rightarrow> string \<Rightarrow> Server \<Rightarrow> Server" where
  "agentGone agentID c peerAddress s =
     markDisconnected agentID peerAddress (uncountConn (unregister agentID c s))"

text \<open>\<open>handleAgent\<close>: the streams accepted until \<open>AcceptStream\<close> fails, here one after the other.\<close>

fun handleStreams :: "senv \<Rightarrow> string \<Rightarrow> stream list \<Rightarrow> Server \<Rightarrow> stream list \<times> Server" where
  "handleStreams env agentID [] s = ([], s)"
| "handleStreams env agentID (st # sts) s =
     (case handleAgentStream env agentID st (logS (Debug ''stream_accepted'' (base agentID)) s) of (st', _, s') \<Rightarrow>
      case handleStreams env agentID sts s' of (sts', s'') \<Rightarrow> (st' # sts', s''))"

definition handleAgent :: "senv \<Rightarrow> string \<Rightarrow> connection \<Rightarrow> string \<Rightarrow> stream list \<Rightarrow> Server \<Rightarrow> stream list \<times> Server" where
  "handleAgent env agentID c peerAddress accepted s =
     (case handleStreams env agentID accepted s of (sts, s') \<Rightarrow> (sts, agentGone agentID c peerAddress s'))"

text \<open>
  One turn of the loop of \<open>Run\<close>: the \<open>select\<close> delivers an accepted connection, a failure of
  \<open>ln.Accept\<close>, a failure of a reverse listener, or the end of the context.
\<close>

datatype run_event =
    ConnAccepted connection tls_state string
  | AcceptFailed string
  | ReverseFailed string
  | CtxDone

datatype run_outcome = Continue admission | ReturnNil | ReturnErr string

definition shutdownLog :: "Run \<Rightarrow> Run" where
  "shutdownLog r = r\<lparr>server := logS (Info ''shutdown'' [str ''role'', str ''server'']) (server r)\<rparr>"

definition runTurn :: "bool \<Rightarrow> run_event \<Rightarrow> Run \<Rightarrow> run_outcome \<times> Run" where
  "runTurn ctxErr ev r =
     (case ev of
        ReverseFailed err \<Rightarrow> (ReturnErr (''reverse listener failed: '' @ err), r)
      | CtxDone \<Rightarrow> (ReturnNil, shutdownLog r)
      | AcceptFailed err \<Rightarrow> if ctxErr then (ReturnNil, shutdownLog r) else (ReturnErr err, r)
      | ConnAccepted c tls peer \<Rightarrow> (case admit c tls peer r of (a, r') \<Rightarrow> (Continue a, r')))"

text \<open>
  One turn of \<open>acceptReverse\<close>: a connection takes a slot or is closed, an error ends the loop and,
  unless the context is done, is reported to \<open>Run\<close>.
\<close>

datatype reverse_turn = SpawnReverse endpoint | RejectReverse endpoint | StopReverse "string option"

definition acceptReverse :: "bool \<Rightarrow> string \<Rightarrow> string \<Rightarrow> string + endpoint \<Rightarrow> channel \<Rightarrow> Server \<Rightarrow>
    reverse_turn \<times> channel \<times> Server" where
  "acceptReverse ctxErr agentID service accepted sem s =
     (case accepted of
        Inl err \<Rightarrow> (StopReverse (if ctxErr then None else Some err), sem, s)
      | Inr tcpConn \<Rightarrow>
          (case trySend (sMaxStreams (cfg s)) sem of
             Some sem' \<Rightarrow> (SpawnReverse tcpConn, sem', s)
           | None \<Rightarrow>
               (RejectReverse (closeEnd tcpConn), sem,
                logS (Warn ''reverse_rejected'' (reverseFields agentID service @
                  [str ''reason'', str ''connection_limit''])) s)))"

text \<open>The startup part of \<open>Run\<close>: defaults, validation, status, secrets and the authenticator.\<close>

datatype run_error = ConfigInvalid srv_config_error | SecretInvalid secret_error | AuthFailed auth_error

fun loadClients :: "os \<Rightarrow> AgentConfig list \<Rightarrow> run_error + ClientIdentity list" where
  "loadClients env [] = Inr []"
| "loadClients env (agent # agents) =
     bind_result (map_error SecretInvalid (LoadSecretFile env (sSecretFile agent))) (\<lambda>secret.
     bind_result (loadClients env agents) (\<lambda>clients.
       Inr (\<lparr>ID = sAgentID agent, ClientSecret = secret\<rparr> # clients)))"

definition startRun :: "crypto \<Rightarrow> os \<Rightarrow> Server \<Rightarrow> run_error + Run" where
  "startRun c env s =
     (let s = s\<lparr>cfg := srvApplyDefaults (cfg s)\<rparr> in
      bind_result (map_error ConfigInvalid (srvValidateConfig (cfg s))) (\<lambda>_.
      let s = s\<lparr>metrics := ConfigureServer (map sAgentID (sAgents (cfg s))) (metrics s)\<rparr> in
      bind_result (loadClients env (sAgents (cfg s))) (\<lambda>clients.
      bind_result (map_error AuthFailed (MultiClientTLSConfig c clients)) (\<lambda>a.
        Inr \<lparr>server = s\<lparr>dials := 0\<rparr>, probes = 0, authn = a\<rparr>))))"

definition newServer :: "SrvConfig \<Rightarrow> Logger \<Rightarrow> Metrics \<Rightarrow> Server" where
  "newServer c l m = \<lparr>cfg = c, slog = l, metrics = m, conns = [], dials = 0, dialed = []\<rparr>"

section \<open>Lemmas on the state\<close>

lemmas stream_part_defs = streamBegin_def streamRequest_def streamEnter_def streamDialed_def streamOutcome_def
  countTarget_def uncountTCP_def streamReply_def streamPiped_def streamCopied_def

lemmas reverse_part_defs = reverseBegin_def reverseEnter_def reverseLookup_def reverseOpened_def reverseExchange_def
  reversePiped_def reverseCopied_def reverseExit_def uncountTCP_def

lemma addM_fields [simp]:
  "cfg (addM u d s) = cfg s" "conns (addM u d s) = conns s" "dials (addM u d s) = dials s"
  "dialed (addM u d s) = dialed s" "slog (addM u d s) = slog s" "metrics (addM u d s) = Add u d (metrics s)"
  by (simp_all add: addM_def)

lemma logS_fields [simp]:
  "cfg (logS f s) = cfg s" "conns (logS f s) = conns s" "dials (logS f s) = dials s"
  "dialed (logS f s) = dialed s" "metrics (logS f s) = metrics s"
  by (simp_all add: logS_def)

lemma giveDial_fields [simp]:
  "cfg (giveDial s) = cfg s" "conns (giveDial s) = conns s" "dials (giveDial s) = dials s - 1"
  "dialed (giveDial s) = dialed s" "metrics (giveDial s) = metrics s"
  by (simp_all add: giveDial_def receive_def)

lemma newServer_fields:
  "cfg (newServer c l m) = c" "conns (newServer c l m) = []" "metrics (newServer c l m) = m"
  "dials (newServer c l m) = 0" "dialed (newServer c l m) = []"
  by (simp_all add: newServer_def)

lemma takeDial_Some:
  "takeDial s = Some s' \<Longrightarrow> s' = s\<lparr>dials := Suc (dials s)\<rparr> \<and> int (dials s) < sMaxPendingDials (cfg s)"
  by (auto simp: takeDial_def trySend_def split: if_splits)

lemma takeDial_None: "takeDial s = None \<longleftrightarrow> sMaxPendingDials (cfg s) \<le> int (dials s)"
  by (auto simp: takeDial_def trySend_def)

text \<open>The clients loaded are the configured agents with the secrets of their files.\<close>

lemma loadClients_ids: "loadClients env agents = Inr clients \<Longrightarrow> map ID clients = map sAgentID agents"
  by (induction agents arbitrary: clients) (auto simp: result_iff)

lemma loadClients_secret:
  "loadClients env agents = Inr clients \<Longrightarrow> x \<in> set agents \<Longrightarrow> LoadSecretFile env (sSecretFile x) = Inr sec \<Longrightarrow>
    \<lparr>ID = sAgentID x, ClientSecret = sec\<rparr> \<in> set clients"
  by (induction agents arbitrary: clients) (auto simp: result_iff)

end
