(* ===== verification/Tunnel.thy ===== *)
theory Tunnel
  imports Handlers
begin

text \<open>
  The contract between the two ends of a tunnelled connection, for either direction. The opener
  holds the client's TCP connection, sends an OPEN frame on a stream and copies once it has read
  OK; the acceptor reads the frame, dials the target, answers OK and copies. Each end is a
  relation between what it is given and what it leaves, with the numbers of bytes that it added
  to its counters; the end-to-end theorem is proved once from the two contracts.
\<close>

section \<open>The two ends\<close>

text \<open>
  \<open>opens_with tcp st tcp' st' up down\<close>: an opener with the TCP connection \<open>tcp\<close> and the stream \<open>st\<close>
  leaves \<open>tcp'\<close> and \<open>st'\<close>, having counted \<open>up\<close> bytes from the client and \<open>down\<close> bytes to it.
\<close>

locale opener =
  fixes opens_with :: "endpoint \<Rightarrow> stream \<Rightarrow> endpoint \<Rightarrow> stream \<Rightarrow> 64 word \<Rightarrow> 64 word \<Rightarrow> bool"
    and request_frame :: Frame
  assumes sends_request: "opens_with tcp st tcp' st' up down \<Longrightarrow> wellFormed request_frame \<Longrightarrow> wr_script st = [] \<Longrightarrow>
      \<exists>w. tx st' = tx st @ frameBytes request_frame @ w"
    and copies_after_ok: "opens_with tcp st tcp' st' up down \<Longrightarrow> wellFormed request_frame \<Longrightarrow> wr_script st = [] \<Longrightarrow>
      wr_script (conn tcp) = [] \<Longrightarrow> arriving st = frameBytes okFrame @ reply \<Longrightarrow>
      tx st' = tx st @ frameBytes request_frame @ arriving (conn tcp) \<and> tx (conn tcp') = tx (conn tcp) @ reply \<and>
      up = word_of_nat (length (arriving (conn tcp))) \<and> down = word_of_nat (length reply)"

locale acceptor =
  fixes serves :: "endpoint \<Rightarrow> stream \<Rightarrow> endpoint option \<Rightarrow> stream \<Rightarrow> 64 word \<Rightarrow> 64 word \<Rightarrow> bool"
    and request_frame :: Frame
  assumes answers_ok: "serves target st t st' up down \<Longrightarrow> wellFormed request_frame \<Longrightarrow> wr_script st = [] \<Longrightarrow>
      wr_script (conn target) = [] \<Longrightarrow> arriving st = frameBytes request_frame @ payload \<Longrightarrow>
      tx st' = tx st @ frameBytes okFrame @ arriving (conn target) \<and>
      (\<exists>target'. t = Some target' \<and> tx (conn target') = tx (conn target) @ payload) \<and>
      up = word_of_nat (length payload) \<and> down = word_of_nat (length (arriving (conn target)))"

section \<open>How an opener ends\<close>

text \<open>
  Both openers end in the same way once the OPEN frame is written: they read the response, and copy
  when it is OK and close the stream otherwise. This implies the contract.
\<close>

definition accepts :: "proto_error + Frame \<Rightarrow> bool" where
  "accepts r \<longleftrightarrow> (\<exists>resp. r = Inr resp \<and> Type resp = TypeOK)"

definition openerEnds :: "Frame \<Rightarrow> endpoint \<Rightarrow> stream \<Rightarrow> endpoint \<Rightarrow> stream \<Rightarrow> 64 word \<Rightarrow> 64 word \<Rightarrow> bool" where
  "openerEnds f tcp st tcp' st' up down \<longleftrightarrow>
     (\<exists>d r st2. ReadFrame ((stream_SetDeadline d st)\<lparr>tx := tx st @ frameBytes f\<rparr>) = (r, st2) \<and>
        (if accepts r
         then \<exists>count t q. Pipe tcp (quicEnd (stream_SetDeadline None st2)) = (count, t, q) \<and>
           st' = conn q \<and> tcp' = closeEnd t \<and> up = AToB count \<and> down = BToA count
         else st' = stream_Close st2))"

lemma openerEndsI:
  assumes "ReadFrame ((stream_SetDeadline d st)\<lparr>tx := tx st @ frameBytes f\<rparr>) = (r, st2)"
    and "if accepts r
      then \<exists>count t q. Pipe tcp (quicEnd (stream_SetDeadline None st2)) = (count, t, q) \<and>
        st' = conn q \<and> tcp' = closeEnd t \<and> up = AToB count \<and> down = BToA count
      else st' = stream_Close st2"
  shows "openerEnds f tcp st tcp' st' up down"
  using assms unfolding openerEnds_def by blast

lemma openerEnds_sends:
  assumes "openerEnds f tcp st tcp' st' up down" "wr_script st = []"
  shows "\<exists>w. tx st' = tx st @ frameBytes f @ w"
proof -
  obtain d r st2 where r: "ReadFrame ((stream_SetDeadline d st)\<lparr>tx := tx st @ frameBytes f\<rparr>) = (r, st2)"
    and e: "if accepts r
      then \<exists>count t q. Pipe tcp (quicEnd (stream_SetDeadline None st2)) = (count, t, q) \<and>
        st' = conn q \<and> tcp' = closeEnd t \<and> up = AToB count \<and> down = BToA count
      else st' = stream_Close st2"
    using assms(1) unfolding openerEnds_def by blast
  have "tx st2 = tx st @ frameBytes f" "wr_script st2 = []" using ReadFrame_sides [OF r] assms(2) by simp_all
  with e show ?thesis
    using Pipe_to_accepting [of "quicEnd (stream_SetDeadline None st2)" tcp]
    by (auto simp: quicEnd_def split: if_splits)
qed

lemma openerEnds_copies:
  assumes "openerEnds f tcp st tcp' st' up down" "wr_script st = []"
    and tcp: "wr_script (conn tcp) = []" and ok: "arriving st = frameBytes okFrame @ reply"
  shows "tx st' = tx st @ frameBytes f @ arriving (conn tcp) \<and> tx (conn tcp') = tx (conn tcp) @ reply \<and>
    up = word_of_nat (length (arriving (conn tcp))) \<and> down = word_of_nat (length reply)"
proof -
  obtain d r st2 where r: "ReadFrame ((stream_SetDeadline d st)\<lparr>tx := tx st @ frameBytes f\<rparr>) = (r, st2)" (is "ReadFrame ?st = _")
    and e: "if accepts r
      then \<exists>count t q. Pipe tcp (quicEnd (stream_SetDeadline None st2)) = (count, t, q) \<and>
        st' = conn q \<and> tcp' = closeEnd t \<and> up = AToB count \<and> down = BToA count
      else st' = stream_Close st2"
    using assms(1) unfolding openerEnds_def by blast
  have st2: "tx st2 = tx st @ frameBytes f" "wr_script st2 = []" using ReadFrame_sides [OF r] assms(2) by simp_all
  have "r = Inr okFrame" and arr: "arriving st2 = reply"
    using ReadFrame_reads [OF replies_wellFormed(1), of ?st reply] ok r by (auto simp: arriving_more replies_wire)
  then obtain count t q where p: "Pipe tcp (quicEnd (stream_SetDeadline None st2)) = (count, t, q)" "st' = conn q"
      "tcp' = closeEnd t" "up = AToB count" "down = BToA count"
    using e by (auto simp: accepts_def okFrame_def zeroFrame_def)
  have "wr_script (conn (quicEnd (stream_SetDeadline None st2))) = []" using st2(2) by (simp add: quicEnd_def)
  from Pipe_full [OF tcp this] p show ?thesis
    using arr st2(1) by (auto simp: quicEnd_def closeEnd_def)
qed

lemma openerI:
  assumes "\<And>tcp st tcp' st' up down. opens_with tcp st tcp' st' up down \<Longrightarrow> wellFormed f \<Longrightarrow> wr_script st = [] \<Longrightarrow>
    openerEnds f tcp st tcp' st' up down"
  shows "opener opens_with f"
proof unfold_locales
  fix tcp st tcp' st' up down
  assume st: "wr_script st = []" and "opens_with tcp st tcp' st' up down" "wellFormed f"
  from assms [OF this(2,3) st] have ends: "openerEnds f tcp st tcp' st' up down" .
  from openerEnds_sends [OF ends st] show "\<exists>w. tx st' = tx st @ frameBytes f @ w" .
  fix reply
  assume "wr_script (conn tcp) = []" "arriving st = frameBytes okFrame @ reply"
  from openerEnds_copies [OF ends st this]
  show "tx st' = tx st @ frameBytes f @ arriving (conn tcp) \<and> tx (conn tcp') = tx (conn tcp) @ reply \<and>
    up = word_of_nat (length (arriving (conn tcp))) \<and> down = word_of_nat (length reply)" .
qed

section \<open>End to end\<close>

locale tunnel = opener opens_with request_frame + acceptor serves request_frame
  for opens_with serves request_frame
begin

text \<open>
  When each end receives what the other one sent, the client's bytes reach the target, the
  target's bytes reach the client, and both ends count the same bytes.
\<close>

lemma end_to_end:
  assumes o: "opens_with tcp sa tcp' sa' up down" and s: "serves target ss t ss' up' down'"
    and f: "wellFormed request_frame"
    and fresh: "tx sa = []" "tx ss = []" "wr_script sa = []" "wr_script ss = []"
      "wr_script (conn tcp) = []" "wr_script (conn target) = []"
    and wire: "arriving ss = tx sa'" "arriving sa = tx ss'"
  shows "tx (conn tcp') = tx (conn tcp) @ arriving (conn target) \<and>
    (\<exists>target'. t = Some target' \<and> tx (conn target') = tx (conn target) @ arriving (conn tcp)) \<and>
    up' = up \<and> down' = down"
proof -
  obtain w where w: "tx sa' = frameBytes request_frame @ w"
    using sends_request [OF o f fresh(3)] fresh(1) by auto
  then have "arriving ss = frameBytes request_frame @ w" using wire by simp
  note acc = answers_ok [OF s f fresh(4) fresh(6) this]
  then have "arriving sa = frameBytes okFrame @ arriving (conn target)" using wire fresh(2) by simp
  note opn = copies_after_ok [OF o f fresh(3) fresh(5) this]
  then have "w = arriving (conn tcp)" using w fresh(1) by simp
  with acc opn show ?thesis by auto
qed

end

end
