(* ===== verification/Server_Streams.thy ===== *)
theory Server_Streams
  imports Server Tunnel
begin

text \<open>
  What the server does with the streams of an authenticated agent: the decision it takes on a
  request, stated once as \<open>verdict\<close> and independently of the handlers, and the theorems that
  \<open>handleAgentStream\<close> implements it on every branch, leaves slots and gauges as it found them, and
  carries the bytes of an accepted request end to end.
\<close>

section \<open>The decision on a request\<close>

datatype verdict = Refuse byte | AcceptProbe | DialProbe string | DialOpen string

definition dialsFull :: "Server \<Rightarrow> bool" where
  "dialsFull s \<longleftrightarrow> sMaxPendingDials (cfg s) \<le> int (dials s)"

definition verdict :: "SrvConfig \<Rightarrow> bool \<Rightarrow> string \<Rightarrow> proto_error + Frame \<Rightarrow> verdict" where
  "verdict c isFull agentID r =
     (case r of
        Inl _ \<Rightarrow> Refuse ErrorUnauthorized
      | Inr f \<Rightarrow>
          if Type f = TypeProbe \<and> Direction f = DirectionReverse then
            if reverseAllowed c agentID (Service f) then AcceptProbe else Refuse ErrorUnauthorized
          else if Direction f = DirectionForward \<and> (Type f = TypeProbe \<or> Type f = TypeOpen) then
            (case forwardTarget c agentID (Service f) of
               None \<Rightarrow> Refuse ErrorUnauthorized
             | Some target \<Rightarrow>
                 if isFull then Refuse ErrorOverloaded
                 else if Type f = TypeProbe then DialProbe target else DialOpen target)
          else Refuse ErrorUnauthorized)"

text \<open>The addresses a verdict dials.\<close>

fun dialsOf :: "verdict \<Rightarrow> string list" where
  "dialsOf (DialProbe t) = [t]"
| "dialsOf (DialOpen t) = [t]"
| "dialsOf _ = []"

text \<open>The answer to the peer, given the outcome of a dial.\<close>

definition replyTo :: "(string \<Rightarrow> string + endpoint) \<Rightarrow> verdict \<Rightarrow> Frame" where
  "replyTo dial v =
     (case v of
        Refuse code \<Rightarrow> errorFrame code
      | AcceptProbe \<Rightarrow> okFrame
      | DialProbe t \<Rightarrow> if is_ok (dial t) then okFrame else errorFrame ErrorDialFailed
      | DialOpen t \<Rightarrow> if is_ok (dial t) then okFrame else errorFrame ErrorDialFailed)"

section \<open>Stages\<close>

definition request :: "senv \<Rightarrow> Server \<Rightarrow> stream \<Rightarrow> (proto_error + Frame) \<times> stream" where
  "request env s st = ReadFrame (stream_SetDeadline (Some (now env + sHandshakeTimeout (cfg s))) st)"

lemma request_sides:
  assumes "request env s st = (r, st1)"
  shows "tx st1 = tx st" "wr_script st1 = wr_script st"
  using ReadFrame_sides [OF assms [unfolded request_def]] by simp_all

definition requestMetrics :: "proto_error + Frame \<Rightarrow> Metrics \<Rightarrow> Metrics" where
  "requestMetrics r m = (case r of Inl _ \<Rightarrow> Add StreamErrorsTotal_update 1 m | Inr _ \<Rightarrow> m)"

definition startMetrics :: "proto_error + Frame \<Rightarrow> Metrics \<Rightarrow> Metrics" where
  "startMetrics r m = requestMetrics r (Add ActiveQUICStreams_update 1 (Add StreamsTotal_update 1 m))"

lemma probeBegin_stage:
  assumes "Type f = TypeProbe"
  shows "\<exists>s'. probeBegin agentID f st s = ((case verdict (cfg s) (dialsFull s) agentID (Inr f) of
       Refuse c \<Rightarrow> Finished (refuse c st) | AcceptProbe \<Rightarrow> Finished (accept st)
     | DialProbe t \<Rightarrow> ProbeDialing t st | DialOpen t \<Rightarrow> Dialing t f st), s') \<and>
    cfg s' = cfg s \<and> conns s' = conns s \<and> metrics s' = metrics s \<and>
    dials s' = dials s + length (dialsOf (verdict (cfg s) (dialsFull s) agentID (Inr f))) \<and>
    dialed s' = dialed s @ map (Pair agentID) (dialsOf (verdict (cfg s) (dialsFull s) agentID (Inr f)))"
  using assms takeDial_Some [of s] takeDial_None [of s]
  by (auto simp: probeBegin_def verdict_def dialsFull_def split: option.splits)

lemma streamRequest_stage:
  fixes agentID :: string
  assumes req: "request env s st = (r, st1)"
  defines "v \<equiv> verdict (cfg s) (dialsFull s) agentID r"
  shows "\<exists>s'. streamRequest env agentID st s = ((case v of
       Refuse c \<Rightarrow> Finished (refuse c st1) | AcceptProbe \<Rightarrow> Finished (accept st1)
     | DialProbe t \<Rightarrow> ProbeDialing t st1 | DialOpen t \<Rightarrow> Dialing t (projr r) st1), s') \<and>
    cfg s' = cfg s \<and> conns s' = conns s \<and> metrics s' = requestMetrics r (metrics s) \<and>
    dials s' = dials s + length (dialsOf v) \<and> dialed s' = dialed s @ map (Pair agentID) (dialsOf v)"
proof (cases r)
  case (Inl e)
  then show ?thesis
    using req by (auto simp: streamRequest_def request_def Let_def v_def verdict_def requestMetrics_def)
next
  case (Inr f)
  define s0 where "s0 = logS (Debug ''control_frame_received'' (base agentID @
     [str ''type'', AInt (uint (Type f)), str ''direction'', AInt (uint (Direction f)),
      str ''service'', str (Service f), str ''connection_id'', str (ConnectionID f)])) s"
  have s0: "cfg s0 = cfg s" "conns s0 = conns s" "dials s0 = dials s" "dialed s0 = dialed s"
    "metrics s0 = requestMetrics r (metrics s)" "dialsFull s0 = dialsFull s"
    by (simp_all add: s0_def requestMetrics_def Inr dialsFull_def)
  have request_eq: "streamRequest env agentID st s =
     (if Type f = TypeProbe then probeBegin agentID f st1 s0
      else if Type f \<noteq> TypeOpen \<or> Direction f \<noteq> DirectionForward then (Finished (refuse ErrorUnauthorized st1), s0)
      else case forwardTarget (cfg s0) agentID (Service f) of
         None \<Rightarrow> (Finished (refuse ErrorUnauthorized st1), logS (Warn ''stream_rejected'' (base agentID @
            [str ''service'', str (Service f), str ''direction'', str ''forward'', str ''reason'', str ''unauthorized''])) s0)
       | Some target \<Rightarrow> (case takeDial s0 of
            None \<Rightarrow> (Finished (refuse ErrorOverloaded st1), s0)
          | Some s' \<Rightarrow> (Dialing target f st1,
              (logS (Debug ''target_dial_started'' (streamFields agentID f target)) s')\<lparr>dialed := dialed s' @ [(agentID, target)]\<rparr>)))"
    unfolding s0_def using req Inr by (simp add: streamRequest_def request_def Let_def)
  show ?thesis
  proof (cases "Type f = TypeProbe")
    case True
    with probeBegin_stage [OF True, of agentID st1 s0] Inr show ?thesis
      unfolding request_eq v_def by (auto simp: s0 verdict_def split: option.splits)
  next
    case False
    with takeDial_Some [of s0] takeDial_None [of s0] Inr show ?thesis
      unfolding request_eq v_def by (auto simp: s0 verdict_def dialsFull_def split: option.splits)
  qed
qed

lemma streamBegin_stage:
  fixes agentID :: string
  assumes "request env s st = (r, st1)"
  defines "v \<equiv> verdict (cfg s) (dialsFull s) agentID r"
  shows "\<exists>s'. streamBegin env agentID st s = ((case v of
       Refuse c \<Rightarrow> Finished (refuse c st1) | AcceptProbe \<Rightarrow> Finished (accept st1)
     | DialProbe t \<Rightarrow> ProbeDialing t st1 | DialOpen t \<Rightarrow> Dialing t (projr r) st1), s') \<and>
    cfg s' = cfg s \<and> conns s' = conns s \<and> metrics s' = startMetrics r (metrics s) \<and>
    dials s' = dials s + length (dialsOf v) \<and> dialed s' = dialed s @ map (Pair agentID) (dialsOf v)"
proof -
  have "request env (streamEnter s) st = (r, st1)"
    using assms(1) by (simp add: request_def streamEnter_def)
  from streamRequest_stage [OF this, of agentID] show ?thesis
    by (simp add: v_def streamBegin_def streamEnter_def dialsFull_def startMetrics_def)
qed

lemma streamDialed_stage:
  "\<exists>s'. streamDialed agentID target f outcome st s = ((case outcome of
       Inl err \<Rightarrow> Finished (refuse ErrorDialFailed st)
     | Inr c \<Rightarrow> (case WriteFrame stream_Write okFrame st of
          (Some e, st2) \<Rightarrow> Aborted (stream_Close st2) (closeEnd c)
        | (None, st2) \<Rightarrow> Piping f (stream_SetDeadline None st2) c)), s') \<and>
    cfg s' = cfg s \<and> conns s' = conns s \<and> dials s' = dials s - 1 \<and> dialed s' = dialed s \<and>
    ActiveQUICStreams (metrics s') = ActiveQUICStreams (metrics s) \<and>
    BytesClientToTarget (metrics s') = BytesClientToTarget (metrics s) \<and>
    BytesTargetToClient (metrics s') = BytesTargetToClient (metrics s) \<and>
    ActiveTCPConnections (metrics s') = ActiveTCPConnections (metrics s) +
      (if is_ok outcome \<and> fst (WriteFrame stream_Write okFrame st) = None then 1 else 0)"
proof (cases outcome)
  case (Inl err)
  then show ?thesis by (simp add: stream_part_defs Let_def Add_def)
next
  case (Inr c)
  then show ?thesis
    by (cases "WriteFrame stream_Write okFrame st"; cases "fst (WriteFrame stream_Write okFrame st)")
      (simp_all add: stream_part_defs Let_def Add_def)
qed

lemma streamPiped_stage:
  assumes "Pipe c (quicEnd st) = (count, c', q')"
  shows "\<exists>s'. streamPiped env agentID f c st s = (conn q', c', s') \<and>
    cfg s' = cfg s \<and> conns s' = conns s \<and> dials s' = dials s \<and> dialed s' = dialed s \<and>
    ActiveQUICStreams (metrics s') = ActiveQUICStreams (metrics s) \<and>
    ActiveTCPConnections (metrics s') = ActiveTCPConnections (metrics s) - 1 \<and>
    BytesClientToTarget (metrics s') = BytesClientToTarget (metrics s) + BToA count \<and>
    BytesTargetToClient (metrics s') = BytesTargetToClient (metrics s) + AToB count"
  using assms by (simp add: stream_part_defs Add_def)

section \<open>The whole handler\<close>

text \<open>What a finished request leaves behind, by verdict; \<open>st1\<close> is the stream after the request was read.\<close>

definition finalStream :: "senv \<Rightarrow> verdict \<Rightarrow> stream \<Rightarrow> stream" where
  "finalStream env v st1 =
     (case v of
        Refuse c \<Rightarrow> refuse c st1
      | AcceptProbe \<Rightarrow> accept st1
      | DialProbe a \<Rightarrow> if is_ok (dialTCP env a) then accept st1 else refuse ErrorDialFailed st1
      | DialOpen a \<Rightarrow>
          (case dialTCP env a of
             Inl _ \<Rightarrow> refuse ErrorDialFailed st1
           | Inr c \<Rightarrow>
               (case WriteFrame stream_Write okFrame st1 of
                  (Some e, st2) \<Rightarrow> stream_Close st2
                | (None, st2) \<Rightarrow> conn (snd (snd (Pipe c (quicEnd (stream_SetDeadline None st2))))))))"

lemma handleAgentStream_final:
  assumes req: "request env s st = (r, st1)" and v: "v = verdict (cfg s) (dialsFull s) agentID r"
    and h: "handleAgentStream env agentID st s = (st', t, s')"
  shows "st' = finalStream env v st1 \<and> cfg s' = cfg s \<and> conns s' = conns s \<and> dials s' = dials s \<and>
    dialed s' = dialed s @ map (Pair agentID) (dialsOf v) \<and>
    ActiveQUICStreams (metrics s') = ActiveQUICStreams (metrics s) \<and>
    ActiveTCPConnections (metrics s') = ActiveTCPConnections (metrics s)"
proof -
  obtain s1 where b: "streamBegin env agentID st s = ((case v of
       Refuse c \<Rightarrow> Finished (refuse c st1) | AcceptProbe \<Rightarrow> Finished (accept st1)
     | DialProbe t \<Rightarrow> ProbeDialing t st1 | DialOpen t \<Rightarrow> Dialing t (projr r) st1), s1)"
    and s1: "cfg s1 = cfg s" "conns s1 = conns s" "dials s1 = dials s + length (dialsOf v)"
      "dialed s1 = dialed s @ map (Pair agentID) (dialsOf v)" "metrics s1 = startMetrics r (metrics s)"
    using streamBegin_stage [OF req, of agentID] v by blast
  have m: "ActiveQUICStreams (metrics s1) = ActiveQUICStreams (metrics s) + 1"
    "ActiveTCPConnections (metrics s1) = ActiveTCPConnections (metrics s)"
    by (simp_all add: s1 startMetrics_def requestMetrics_def Add_def split: sum.split)
  show ?thesis
  proof (cases v)
    case (DialOpen a)
    obtain s2 where d: "streamDialed agentID a (projr r) (dialTCP env a) st1 s1 = ((case dialTCP env a of
         Inl err \<Rightarrow> Finished (refuse ErrorDialFailed st1)
       | Inr c \<Rightarrow> (case WriteFrame stream_Write okFrame st1 of
            (Some e, st2) \<Rightarrow> Aborted (stream_Close st2) (closeEnd c)
          | (None, st2) \<Rightarrow> Piping (projr r) (stream_SetDeadline None st2) c)), s2)"
      and s2: "cfg s2 = cfg s" "conns s2 = conns s" "dials s2 = dials s" "dialed s2 = dialed s @ map (Pair agentID) (dialsOf v)"
        "ActiveQUICStreams (metrics s2) = ActiveQUICStreams (metrics s) + 1"
        "ActiveTCPConnections (metrics s2) = ActiveTCPConnections (metrics s) +
          (if is_ok (dialTCP env a) \<and> fst (WriteFrame stream_Write okFrame st1) = None then 1 else 0)"
      using streamDialed_stage [of agentID a "projr r" "dialTCP env a" st1 s1] s1 m DialOpen by auto
    show ?thesis
    proof (cases "dialTCP env a")
      case (Inl err)
      with h b d DialOpen s2 show ?thesis
        by (auto simp: handleAgentStream_def finalStream_def streamExit_def Add_def)
    next
      case (Inr c)
      obtain e st2 where w: "WriteFrame stream_Write okFrame st1 = (e, st2)"
        by (cases "WriteFrame stream_Write okFrame st1")
      obtain n c' q' where p: "Pipe c (quicEnd (stream_SetDeadline None st2)) = (n, c', q')" by (metis prod_cases3)
      obtain s3 where s3: "streamPiped env agentID (projr r) c (stream_SetDeadline None st2) s2 = (conn q', c', s3)"
          "cfg s3 = cfg s2" "conns s3 = conns s2" "dials s3 = dials s2" "dialed s3 = dialed s2"
          "ActiveQUICStreams (metrics s3) = ActiveQUICStreams (metrics s2)"
          "ActiveTCPConnections (metrics s3) = ActiveTCPConnections (metrics s2) - 1"
        using streamPiped_stage [OF p] by blast
      show ?thesis
        using h b d DialOpen s2 Inr w p s3
        by (cases e) (auto simp: handleAgentStream_def finalStream_def streamExit_def Add_def)
    qed
  qed (use h b s1 m in \<open>auto simp: handleAgentStream_def finalStream_def streamExit_def Add_def probeDialed_def
      split: sum.splits\<close>)
qed

text \<open>The bytes that follow the answer: those of the target, when a request was accepted.\<close>

definition payloadTo :: "(string \<Rightarrow> string + endpoint) \<Rightarrow> verdict \<Rightarrow> bytes" where
  "payloadTo dial v = (case v of
       DialOpen a \<Rightarrow> (case dial a of Inr c \<Rightarrow> arriving (conn c) | Inl _ \<Rightarrow> [])
     | _ \<Rightarrow> [])"

lemma verdict_codes: "verdict c isFull agentID r = Refuse code \<Longrightarrow> validErrorCode code"
  by (auto simp: verdict_def split: sum.splits if_splits option.splits)

lemma finalStream_tx:
  assumes "wr_script st1 = []" "\<And>code. v = Refuse code \<Longrightarrow> validErrorCode code"
  shows "tx (finalStream env v st1) = tx st1 @ frameBytes (replyTo (dialTCP env) v) @ payloadTo (dialTCP env) v"
proof (cases v)
  case (DialOpen a)
  show ?thesis
  proof (cases "dialTCP env a")
    case (Inr c)
    let ?q = "quicEnd (stream_SetDeadline None (st1\<lparr>tx := tx st1 @ frameBytes okFrame\<rparr>))"
    obtain n c' q' where p: "Pipe c ?q = (n, c', q')" by (metis prod_cases3)
    have "wr_script (conn ?q) = []" using assms(1) by (simp add: quicEnd_def)
    from Pipe_to_accepting [OF this p] show ?thesis
      using Inr DialOpen p assms(1)
      by (simp add: finalStream_def replyTo_def payloadTo_def okFrame_accepting quicEnd_def)
  qed (use DialOpen assms in \<open>simp add: finalStream_def replyTo_def payloadTo_def refuse_eq\<close>)
qed (use assms in \<open>auto simp: finalStream_def replyTo_def payloadTo_def refuse_eq accept_eq\<close>)

section \<open>An accepted request, end to end\<close>

lemma forward_accepted:
  assumes f: "wellFormed f" "wireFrame f = f" "Type f = TypeOpen" "Direction f = DirectionForward"
    and st: "arriving st = frameBytes f @ payload" "wr_script st = []"
    and pol: "forwardTarget (cfg s) agentID (Service f) = Some target" "\<not> dialsFull s"
    and dial: "dialTCP env target = Inr c" "wr_script (conn c) = []"
  shows "\<exists>st' c' s'. handleAgentStream env agentID st s = (st', Some c', s') \<and>
    tx (conn c') = tx (conn c) @ payload \<and> tx st' = tx st @ frameBytes okFrame @ arriving (conn c) \<and>
    BytesClientToTarget (metrics s') = BytesClientToTarget (metrics s) + word_of_nat (length payload) \<and>
    BytesTargetToClient (metrics s') = BytesTargetToClient (metrics s) + word_of_nat (length (arriving (conn c)))"
proof -
  obtain st1 where req: "request env s st = (Inr f, st1)" and arr: "arriving st1 = payload"
    using ReadFrame_reads [OF f(1), of "stream_SetDeadline (Some (now env + sHandshakeTimeout (cfg s))) st" payload] st(1) f(2)
    by (auto simp: request_def)
  note st1 = request_sides [OF req]
  have v: "verdict (cfg s) (dialsFull s) agentID (Inr f) = DialOpen target"
    using f pol by (simp add: verdict_def)
  obtain s1 where b: "streamBegin env agentID st s = (Dialing target f st1, s1)" and s1: "metrics s1 = startMetrics (Inr f) (metrics s)"
    using streamBegin_stage [OF req, of agentID] unfolding v by auto
  let ?st2 = "stream_SetDeadline None (st1\<lparr>tx := tx st1 @ frameBytes okFrame\<rparr>)"
  have w: "WriteFrame stream_Write okFrame st1 = (None, st1\<lparr>tx := tx st1 @ frameBytes okFrame\<rparr>)"
    using st1 st(2) by (simp add: okFrame_accepting)
  obtain s2 where d: "streamDialed agentID target f (dialTCP env target) st1 s1 = (Piping f ?st2 c, s2)"
    and s2: "BytesClientToTarget (metrics s2) = BytesClientToTarget (metrics s1)"
      "BytesTargetToClient (metrics s2) = BytesTargetToClient (metrics s1)"
    using streamDialed_stage [of agentID target f "dialTCP env target" st1 s1] by (auto simp: dial(1) w)
  have q: "wr_script (conn (quicEnd ?st2)) = []" "arriving (conn (quicEnd ?st2)) = payload"
    "tx (conn (quicEnd ?st2)) = tx st @ frameBytes okFrame"
    using st1 st(2) arr by (simp_all add: quicEnd_def arriving_more)
  obtain c' q' where p: "Pipe c (quicEnd ?st2) = (\<lparr>AToB = word_of_nat (length (arriving (conn c))),
      BToA = word_of_nat (length payload)\<rparr>, c', q')"
    and tx: "tx (conn q') = tx st @ frameBytes okFrame @ arriving (conn c)" "tx (conn c') = tx (conn c) @ payload"
    using Pipe_full [OF dial(2) q(1)] by (auto simp: q)
  obtain s3 where "streamPiped env agentID f c ?st2 s2 = (conn q', c', s3)"
      "BytesClientToTarget (metrics s3) = BytesClientToTarget (metrics s2) + word_of_nat (length payload)"
      "BytesTargetToClient (metrics s3) = BytesTargetToClient (metrics s2) + word_of_nat (length (arriving (conn c)))"
    using streamPiped_stage [OF p, of env agentID f s2] by auto
  then show ?thesis
    using b d s1 s2 tx by (simp add: handleAgentStream_def streamExit_def startMetrics_def requestMetrics_def Add_def)
qed

section \<open>A probe on a probe connection\<close>

text \<open>The answer to a probe is the one that the decision calls for, and the dial slot is given back.\<close>

lemma probeStream_reply:
  assumes f: "wellFormed f" "wireFrame f = f" "Type f = TypeProbe"
    and st: "arriving st = frameBytes f @ rest" "wr_script st = []"
    and h: "probeStream env agentID st s = (st', code, s')"
  shows "tx st' = tx st @ frameBytes (replyTo (dialTCP env) (verdict (cfg s) (dialsFull s) agentID (Inr f))) \<and>
    code = None \<and> dials s' = dials s"
proof -
  let ?v = "verdict (cfg s) (dialsFull s) agentID (Inr f)"
  obtain st1 where r: "request env s st = (Inr f, st1)"
    using ReadFrame_reads [OF f(1), of "stream_SetDeadline (Some (now env + sHandshakeTimeout (cfg s))) st" rest] st(1) f(2)
    by (auto simp: request_def)
  have st1: "tx st1 = tx st" "wr_script st1 = []" using request_sides [OF r] st(2) by simp_all
  obtain g s1 where b: "probeBegin agentID f st1 s = (g, s1)" by (cases "probeBegin agentID f st1 s")
  from probeBegin_stage [OF f(3), of agentID st1 s] b
  have g: "g = (case ?v of Refuse c \<Rightarrow> Finished (refuse c st1) | AcceptProbe \<Rightarrow> Finished (accept st1)
     | DialProbe t \<Rightarrow> ProbeDialing t st1 | DialOpen t \<Rightarrow> Dialing t f st1)"
    and s1: "dials s1 = dials s + length (dialsOf ?v)" by auto
  have no_open: "?v \<noteq> DialOpen t" for t using f(3) by (auto simp: verdict_def split: option.splits)
  have "probeStreamBegin env agentID st s = (g, False, s1)"
    using r f(3) b by (simp add: probeStreamBegin_def request_def Let_def)
  with h g s1 no_open st1 verdict_codes [of "cfg s" "dialsFull s" agentID "Inr f"] show ?thesis
    by (cases ?v)
      (auto simp: probeStream_def probeDialed_def replyTo_def refuse_eq accept_eq split: sum.splits)
qed

section \<open>The server as acceptor and as opener\<close>

definition forwardServes :: "senv \<Rightarrow> string \<Rightarrow> Server \<Rightarrow> Frame \<Rightarrow> endpoint \<Rightarrow> stream \<Rightarrow> endpoint option \<Rightarrow> stream \<Rightarrow>
    64 word \<Rightarrow> 64 word \<Rightarrow> bool" where
  "forwardServes env agentID s f c st t st' up down \<longleftrightarrow>
     wireFrame f = f \<and> Type f = TypeOpen \<and> Direction f = DirectionForward \<and> \<not> dialsFull s \<and>
     (\<exists>target s'. forwardTarget (cfg s) agentID (Service f) = Some target \<and> dialTCP env target = Inr c \<and>
        handleAgentStream env agentID st s = (st', t, s') \<and>
        up = BytesClientToTarget (metrics s') - BytesClientToTarget (metrics s) \<and>
        down = BytesTargetToClient (metrics s') - BytesTargetToClient (metrics s))"

interpretation forward_acceptor: acceptor "forwardServes env agentID s f" f for env agentID s f
proof unfold_locales
  fix c st t st' up down payload
  assume s: "forwardServes env agentID s f c st t st' up down" and f: "wellFormed f"
    and scripts: "wr_script st = []" "wr_script (conn c) = []" and arr: "arriving st = frameBytes f @ payload"
  from s obtain target s' where h: "forwardTarget (cfg s) agentID (Service f) = Some target" "dialTCP env target = Inr c"
      "handleAgentStream env agentID st s = (st', t, s')"
      "up = BytesClientToTarget (metrics s') - BytesClientToTarget (metrics s)"
      "down = BytesTargetToClient (metrics s') - BytesTargetToClient (metrics s)"
    and open_frame: "wireFrame f = f" "Type f = TypeOpen" "Direction f = DirectionForward" "\<not> dialsFull s"
    unfolding forwardServes_def by blast
  from forward_accepted [OF f open_frame(1-3) arr scripts(1) h(1) open_frame(4) h(2) scripts(2)] h(3-5)
  show "tx st' = tx st @ frameBytes okFrame @ arriving (conn c) \<and>
      (\<exists>target'. t = Some target' \<and> tx (conn target') = tx (conn c) @ payload) \<and>
      up = word_of_nat (length payload) \<and> down = word_of_nat (length (arriving (conn c)))"
    by auto
qed

definition reverseOpens :: "senv \<Rightarrow> string \<Rightarrow> string \<Rightarrow> string \<Rightarrow> string \<Rightarrow> Server \<Rightarrow>
    endpoint \<Rightarrow> stream \<Rightarrow> endpoint \<Rightarrow> stream \<Rightarrow> 64 word \<Rightarrow> 64 word \<Rightarrow> bool" where
  "reverseOpens env agentID service listener remote s tcp st tcp' st' up down \<longleftrightarrow>
     (\<exists>opened c s'. connOf agentID s = Some c \<and> opened c = Inr st \<and>
        handleReverseTCP env tcp agentID service listener remote opened s = (tcp', Some st', s') \<and>
        up = BytesClientToTarget (metrics s') - BytesClientToTarget (metrics s) \<and>
        down = BytesTargetToClient (metrics s') - BytesTargetToClient (metrics s))"

lemma openReverse_fields [simp]:
  "Type (openReverse env agentID service listener remote) = TypeOpen"
  "Direction (openReverse env agentID service listener remote) = DirectionReverse"
  "Service (openReverse env agentID service listener remote) = service"
  "wireFrame (openReverse env agentID service listener remote) = openReverse env agentID service listener remote"
  by (simp_all add: openReverse_def wireFrame_def opens_def zeroFrame_def)

lemma openReverse_wellFormed:
  assumes "srvValidateConfig (cfg s) = Inr ()" "reverseAllowed (cfg s) agentID service" "validEnv env"
    and "length listener + length remote \<le> 3900"
  shows "wellFormed (openReverse env agentID service listener remote)"
proof -
  obtain agent where "agent \<in> set (sAgents (cfg s))" "sAgentID agent = agentID" "has_key service (sReverse agent)"
    using assms(1,2) reverseAllowed_iff by (auto simp: srvValidateConfig_iff)
  moreover from this have "agentOK agent" using assms(1) by (auto simp: srvValidateConfig_iff)
  ultimately have "clientIDPattern agentID" "routeIDPattern service" by (auto simp: agentOK_def has_key_iff)
  then have "length agentID \<le> 63" "length service \<le> 64"
    by (simp_all add: clientIDPattern_def routeIDPattern_def)
  with length_newConnectionID [OF assms(3)] assms(4) show ?thesis
    by (simp add: openReverse_def wellFormed_def opens_def zeroFrame_def validDirection_def length_bodyOf MaxFrameLen_def)
qed

lemma reverseBegin_stage:
  fixes env agentID service listener remote
  defines "f \<equiv> openReverse env agentID service listener remote"
  assumes f: "wellFormed f" and st: "wr_script st = []" and o: "connOf agentID s = Some c" "opened c = Inr st"
    and r: "ReadFrame ((stream_SetDeadline (Some (now env + sHandshakeTimeout (cfg s))) st)\<lparr>tx := tx st @ frameBytes f\<rparr>) = (r, st2)"
  shows "\<exists>s'. reverseBegin env agentID service listener remote opened s =
      ((if accepts r then ReversePiping (stream_SetDeadline None st2) else ReverseDone (Some (stream_Close st2))), s') \<and>
    BytesClientToTarget (metrics s') = BytesClientToTarget (metrics s) \<and>
    BytesTargetToClient (metrics s') = BytesTargetToClient (metrics s)"
proof -
  let ?st = "stream_SetDeadline (Some (now env + sHandshakeTimeout (cfg s))) st"
  have w: "WriteFrame stream_Write (openReverse env agentID service listener remote) ?st =
      (None, ?st\<lparr>tx := tx st @ frameBytes f\<rparr>)"
    using WriteFrame_accepting [of ?st f] st wellFormed_frameBody [OF f] by (simp add: f_def)
  have "connOf agentID (addM u d (addM u' d' s)) = Some c" for u d u' d'
    using o(1) by (simp add: connOf_def)
  with o(2) r w show ?thesis
    by (cases r) (auto simp: reverse_part_defs Let_def accepts_def streamExit_def Add_def)
qed

lemma reverseOpensI:
  assumes "connOf agentID s = Some c" "opened c = Inr st"
    and "handleReverseTCP env tcp agentID service listener remote opened s = (tcp', Some st', s')"
  shows "reverseOpens env agentID service listener remote s tcp st tcp' st'
    (BytesClientToTarget (metrics s') - BytesClientToTarget (metrics s))
    (BytesTargetToClient (metrics s') - BytesTargetToClient (metrics s))"
  using assms unfolding reverseOpens_def by blast

lemma handleReverseTCP_opened:
  assumes "connOf agentID s = Some c" "opened c = Inr st"
  shows "\<exists>tcp' st' s'. handleReverseTCP env tcp agentID service listener remote opened s = (tcp', Some st', s')"
proof -
  have "connOf agentID (addM u d (addM u' d' s)) = Some c" for u d u' d'
    using assms(1) by (simp add: connOf_def)
  with assms(2) show ?thesis
    by (auto simp: handleReverseTCP_def reverse_part_defs Let_def split: prod.split option.split sum.split)
qed

lemma reverseOpens_run:
  fixes env agentID service listener remote
  defines "f \<equiv> openReverse env agentID service listener remote"
  assumes run: "reverseOpens env agentID service listener remote s tcp st tcp' st' up down"
    and f: "wellFormed f" and st: "wr_script st = []"
  shows "openerEnds f tcp st tcp' st' up down"
proof -
  obtain opened c s' where h: "connOf agentID s = Some c" "opened c = Inr st"
      "handleReverseTCP env tcp agentID service listener remote opened s = (tcp', Some st', s')"
      "up = BytesClientToTarget (metrics s') - BytesClientToTarget (metrics s)"
      "down = BytesTargetToClient (metrics s') - BytesTargetToClient (metrics s)"
    using run unfolding reverseOpens_def by blast
  let ?st = "(stream_SetDeadline (Some (now env + sHandshakeTimeout (cfg s))) st)\<lparr>tx := tx st @ frameBytes f\<rparr>"
  obtain r st2 where r: "ReadFrame ?st = (r, st2)" by (cases "ReadFrame ?st")
  obtain s1 where b: "reverseBegin env agentID service listener remote opened s =
      ((if accepts r then ReversePiping (stream_SetDeadline None st2) else ReverseDone (Some (stream_Close st2))), s1)"
      "BytesClientToTarget (metrics s1) = BytesClientToTarget (metrics s)"
      "BytesTargetToClient (metrics s1) = BytesTargetToClient (metrics s)"
    using reverseBegin_stage [of env agentID service listener remote st s c opened r st2, folded f_def, OF f st h(1,2) r]
    by blast
  obtain count t q where p: "Pipe tcp (quicEnd (stream_SetDeadline None st2)) = (count, t, q)" by (metis prod_cases3)
  show ?thesis
    using h(3-5) b p
    by (intro openerEndsI [OF r])
      (auto simp: handleReverseTCP_def reversePiped_def reverseCopied_def reverseExit_def uncountTCP_def streamExit_def Add_def split: if_splits)
qed

interpretation reverse_opener: opener "reverseOpens env agentID service listener remote s"
    "openReverse env agentID service listener remote" for env agentID service listener remote s
  by (rule openerI) (rule reverseOpens_run)

section \<open>Properties\<close>

text \<open>C10: The stream handler implements the server's decision on every request. On a stream that accepts
  what is written, the peer is sent exactly the answer that the decision calls for (an error with
  its code, or OK), followed by the target's bytes when an OPEN was accepted and by nothing
  otherwise; and the server dials exactly the address that the decision names, which is none for a
  refused request and the configured target of that service for the agent that the connection
  authenticated.\<close>

theorem handleAgentStream_implements_verdict:
  assumes "request env s st = (r, st1)" "wr_script st = []"
    and "handleAgentStream env agentID st s = (st', t, s')"
  shows "let v = verdict (cfg s) (dialsFull s) agentID r in
    tx st' = tx st @ frameBytes (replyTo (dialTCP env) v) @ payloadTo (dialTCP env) v \<and>
    dialed s' = dialed s @ map (Pair agentID) (dialsOf v)"
proof -
  let ?v = "verdict (cfg s) (dialsFull s) agentID r"
  note f = handleAgentStream_final [OF assms(1) refl assms(3)]
  have "tx (finalStream env ?v st1) = tx st1 @ frameBytes (replyTo (dialTCP env) ?v) @ payloadTo (dialTCP env) ?v"
    using request_sides [OF assms(1)] assms(2) verdict_codes by (intro finalStream_tx) auto
  then show ?thesis
    using f request_sides(1) [OF assms(1)] by (simp add: Let_def)
qed

definition sampleCfg :: SrvConfig where
  "sampleCfg = \<lparr>sListenUDP = '':7000'',
     sAgents = [\<lparr>sAgentID = ''a'', sSecretFile = ''/etc/mule/a.key'', sForward = [(''web'', ''h:80'')], sReverse = [(''ssh'', ''127.0.0.1:22'')]\<rparr>],
     sHandshakeTimeout = 1, sIdleTimeout = 1, sDialTimeout = 1, sMaxStreams = 1, sMaxPendingDials = 1,
     sKeepAlive = 1\<rparr>"

definition sampleServer :: Server where
  "sampleServer = newServer sampleCfg (NewForWriter ''text'' ''error'' []) New"

definition sampleOpen :: Frame where
  "sampleOpen = zeroFrame\<lparr>Type := TypeOpen, Direction := DirectionForward, Service := ''web''\<rparr>"

lemma sampleOpen_wellFormed: "wellFormed sampleOpen" "wireFrame sampleOpen = sampleOpen"
  by (simp_all add: sampleOpen_def wellFormed_def wireFrame_def opens_def zeroFrame_def validDirection_def
      length_bodyOf MaxFrameLen_def)

lemma request_sample: "\<exists>st1. request sampleEnv s (sampleStream [frameBytes sampleOpen @ rest]) = (Inr sampleOpen, st1)"
proof -
  let ?st = "stream_SetDeadline (Some (now sampleEnv + sHandshakeTimeout (cfg s))) (sampleStream [frameBytes sampleOpen @ rest])"
  have "arriving ?st = frameBytes sampleOpen @ rest" by (subst arriving_SetDeadline) (simp add: arriving_def sampleStream_def)
  from ReadFrame_reads [OF sampleOpen_wellFormed(1) this] sampleOpen_wellFormed(2) show ?thesis
    unfolding request_def by auto
qed

theorem handleAgentStream_implements_verdict_witness:
  "\<exists>st' t s'. handleAgentStream sampleEnv ''a'' (sampleStream [frameBytes sampleOpen @ [1, 2]]) sampleServer = (st', t, s') \<and>
     tx st' = frameBytes okFrame @ [7, 8] \<and> dialed s' = [(''a'', ''h:80'')]"
proof -
  let ?st = "sampleStream [frameBytes sampleOpen @ [1, 2]]"
  obtain st1 where r: "request sampleEnv sampleServer ?st = (Inr sampleOpen, st1)"
    using request_sample by blast
  obtain st' t s' where h: "handleAgentStream sampleEnv ''a'' ?st sampleServer = (st', t, s')" by (metis prod_cases3)
  have v: "verdict (cfg sampleServer) (dialsFull sampleServer) ''a'' (Inr sampleOpen) = DialOpen ''h:80''"
    by (simp add: verdict_def sampleOpen_def zeroFrame_def sampleServer_def newServer_def sampleCfg_def
        forwardTarget_def dialsFull_def)
  have st: "wr_script ?st = []" "tx ?st = []" "dialed sampleServer = []"
    by (simp_all add: sampleStream_def sampleServer_def newServer_def)
  have "replyTo (dialTCP sampleEnv) (DialOpen ''h:80'') = okFrame"
    "payloadTo (dialTCP sampleEnv) (DialOpen ''h:80'') = [7, 8]"
    by (simp_all add: replyTo_def payloadTo_def sampleEnv_def sampleEnd_def arriving_def)
  with handleAgentStream_implements_verdict [OF r st(1) h, unfolded v Let_def] st h show ?thesis by simp
qed

text \<open>Whatever the peer sends and however the transport and the dial behave, a stream handler that
  returns has given back its dial slot and both gauges stand where they stood; configuration and
  registry are unchanged.\<close>

lemma handleAgentStream_balanced:
  assumes "handleAgentStream env agentID st s = (st', t, s')"
  shows "dials s' = dials s \<and> ActiveQUICStreams (metrics s') = ActiveQUICStreams (metrics s) \<and>
    ActiveTCPConnections (metrics s') = ActiveTCPConnections (metrics s) \<and> cfg s' = cfg s \<and> conns s' = conns s"
proof -
  obtain r st1 where "request env s st = (r, st1)" by (cases "request env s st")
  from handleAgentStream_final [OF this refl assms] show ?thesis by blast
qed

end
