(* ===== verification/Step_Systems.thy ===== *)
theory Step_Systems
  imports Mule_Prelude
begin

text \<open>
  Concurrent processes as step relations: the contract of an inductive invariant, and the counting
  lemmas for a list of goroutines of which one moves or one is added per step.
\<close>

section \<open>Inductive invariants\<close>

text \<open>
  An invariant that holds initially and that every step keeps holds in every state that the
  process can reach.
\<close>

locale invariant_system =
  fixes initial :: "'s \<Rightarrow> bool" and step :: "'s \<Rightarrow> 's \<Rightarrow> bool" and inv :: "'s \<Rightarrow> bool"
  assumes initial_inv: "initial s \<Longrightarrow> inv s"
    and step_inv: "step s t \<Longrightarrow> inv s \<Longrightarrow> inv t"
begin

lemma run_inv: "step\<^sup>*\<^sup>* s t \<Longrightarrow> inv s \<Longrightarrow> inv t"
  by (induction rule: rtranclp_induct) (auto intro: step_inv)

lemma reachable_inv: "initial s \<Longrightarrow> step\<^sup>*\<^sup>* s t \<Longrightarrow> inv t"
  using run_inv initial_inv by blast

end

section \<open>Counting goroutines\<close>

definition count :: "('g \<Rightarrow> bool) \<Rightarrow> 'g list \<Rightarrow> nat" where
  "count P gs = length (filter P gs)"

lemma count_simps [simp]:
  "count P [] = 0"
  "count P (g # gs) = of_bool (P g) + count P gs"
  "count P (gs @ hs) = count P gs + count P hs"
  by (simp_all add: count_def)

lemma count_update:
  assumes "i < length gs"
  shows "count P (gs[i := g]) + of_bool (P (gs ! i)) = count P gs + of_bool (P g)"
  using assms
proof (induction gs arbitrary: i)
  case (Cons h gs)
  then show ?case by (cases i) auto
qed simp

text \<open>The same as a rewrite rule, in any ring: a word counter or an integer.\<close>

lemma of_nat_count_update:
  "i < length gs \<Longrightarrow> (of_nat (count P (gs[i := g])) :: 'a :: ring_1) =
     of_nat (count P gs) + of_bool (P g) - of_bool (P (gs ! i))"
  using arg_cong [OF count_update, of i gs "of_nat :: nat \<Rightarrow> 'a" P g] by (simp add: algebra_simps)

lemma count_positive: "i < length gs \<Longrightarrow> P (gs ! i) \<Longrightarrow> 0 < count P gs"
  by (auto simp: count_def filter_empty_conv intro: nth_mem)

lemma set_update_subset: "x \<in> set (gs[i := g]) \<Longrightarrow> x = g \<or> x \<in> set gs"
  using set_update_subset_insert by fastforce

end
