(* ===== verification/Server_Lifecycle.thy ===== *)
theory Server_Lifecycle
  imports Server_Streams Step_Systems
begin

text \<open>
  The running server: the accept loop of \<open>Run\<close>, the listeners for reverse services and all the
  goroutines they start, interleaved in any order. A goroutine is one of the stages below; a step
  takes it from one stage to the next by one part of its handler. A part changes at most one of the
  things that are counted here (a semaphore, a gauge, the registry), so a goroutine that waits, for a
  frame, a dial, a stream or the end of a copy, waits in a stage of its own, with its gauges raised and
  its slots taken as in the program. What the peers send, what dialling yields, when connections end
  and when the context is cancelled is left open, so the theorems hold for every such behaviour.

  The accept loop may be anywhere in its turn: registering a connection, adding it to the gauge and
  marking the agent as connected are separate steps, as are the three parts of the deferred function
  of \<open>handleAgent\<close>.
\<close>

section \<open>Goroutines\<close>

text \<open>
  The accept loop after a registration and \<open>handleAgent\<close>; \<open>handleAgentStream\<close> from its first line
  (\<open>StreamStart\<close>) over the wait for the request, the dial, the count, the answer and the copy to its
  two deferred decrements (\<open>StreamClose\<close>, \<open>StreamLeave\<close>); the two kinds of probe connection with their
  streams; \<open>handleReverseTCP\<close> from \<open>ReverseStart\<close> to the slot that its goroutine still holds when the
  handler has returned (\<open>ReverseFree\<close>).
\<close>

datatype goroutine =
    Announce1 string connection
  | Announce2 string connection
  | AgentLoop string connection
  | Leave1 string connection
  | Leave2 string connection
  | StreamStart string stream
  | StreamWait string stream
  | StreamDial string string Frame stream
  | StreamProbe string string stream
  | StreamConnected string string Frame stream endpoint
  | StreamReply string Frame stream endpoint
  | StreamPipe string Frame stream endpoint
  | StreamClose string
  | StreamLeave string
  | ProbeConn string
  | ProbeStart string stream
  | ProbeDial string string stream
  | LegacyConn string
  | LegacyDial string string stream
  | LegacyLeave string
  | ReverseStart senv string string endpoint
  | ReverseCounted senv string string endpoint
  | ReverseOpening senv string string connection endpoint
  | ReverseExchange senv string string stream endpoint
  | ReversePipe senv string string stream endpoint
  | ReverseStreamLeave endpoint
  | ReverseLeave endpoint
  | ReverseFree
  | Exited

record sys =
  run :: Run
  reverseConnections :: channel
  goroutines :: "goroutine list"
  nextConn :: connection
  stopped :: bool

text \<open>The goroutine that a connection starts, and the one that a handler continues as after a part.\<close>

fun spawn :: "connection \<Rightarrow> admission \<Rightarrow> goroutine list" where
  "spawn c (Closed code) = []"
| "spawn c (StartProbe agentID) = [ProbeConn agentID]"
| "spawn c (StartLegacyProbe agentID) = [LegacyConn agentID]"
| "spawn c (StartAgent agentID) = [Announce1 agentID c]"

fun requestNext :: "string \<Rightarrow> stage \<Rightarrow> goroutine" where
  "requestNext agentID (Dialing target frame st) = StreamDial agentID target frame st"
| "requestNext agentID (ProbeDialing target st) = StreamProbe agentID target st"
| "requestNext agentID _ = StreamLeave agentID"

fun outcomeNext :: "string \<Rightarrow> string \<Rightarrow> stage \<Rightarrow> goroutine" where
  "outcomeNext agentID target (Connected frame st c) = StreamConnected agentID target frame st c"
| "outcomeNext agentID target _ = StreamLeave agentID"

fun replyNext :: "string \<Rightarrow> stage \<Rightarrow> goroutine" where
  "replyNext agentID (Piping frame st c) = StreamPipe agentID frame st c"
| "replyNext agentID _ = StreamClose agentID"

fun probeNext :: "string \<Rightarrow> stage \<Rightarrow> goroutine" where
  "probeNext agentID (ProbeDialing target st) = ProbeDial agentID target st"
| "probeNext agentID _ = Exited"

fun legacyNext :: "string \<Rightarrow> stage \<Rightarrow> goroutine" where
  "legacyNext agentID (ProbeDialing target st) = LegacyDial agentID target st"
| "legacyNext agentID _ = LegacyLeave agentID"

fun lookupNext :: "senv \<Rightarrow> string \<Rightarrow> string \<Rightarrow> endpoint \<Rightarrow> connection option \<Rightarrow> goroutine" where
  "lookupNext env agentID service tcp (Some c) = ReverseOpening env agentID service c tcp"
| "lookupNext env agentID service tcp None = ReverseLeave tcp"

fun openedNext :: "senv \<Rightarrow> string \<Rightarrow> string \<Rightarrow> endpoint \<Rightarrow> stream option \<Rightarrow> goroutine" where
  "openedNext env agentID service tcp (Some st) = ReverseExchange env agentID service st tcp"
| "openedNext env agentID service tcp None = ReverseLeave tcp"

fun exchangeNext :: "senv \<Rightarrow> string \<Rightarrow> string \<Rightarrow> endpoint \<Rightarrow> reverse_stage \<Rightarrow> goroutine" where
  "exchangeNext env agentID service tcp (ReversePiping st) = ReversePipe env agentID service st tcp"
| "exchangeNext env agentID service tcp (ReverseDone _) = ReverseStreamLeave tcp"

abbreviation srv :: "sys \<Rightarrow> Server" where
  "srv S \<equiv> server (run S)"

definition setSrv :: "Server \<Rightarrow> sys \<Rightarrow> sys" where
  "setSrv s S = S\<lparr>run := (run S)\<lparr>server := s\<rparr>\<rparr>"

definition move :: "nat \<Rightarrow> goroutine \<Rightarrow> sys \<Rightarrow> sys" where
  "move i g S = S\<lparr>goroutines := (goroutines S)[i := g]\<rparr>"

definition start :: "goroutine list \<Rightarrow> sys \<Rightarrow> sys" where
  "start gs S = S\<lparr>goroutines := goroutines S @ gs\<rparr>"

definition freeProbe :: "sys \<Rightarrow> sys" where
  "freeProbe S = S\<lparr>run := (run S)\<lparr>probes := receive (probes (run S))\<rparr>\<rparr>"

definition freeReverse :: "sys \<Rightarrow> sys" where
  "freeReverse S = S\<lparr>reverseConnections := receive (reverseConnections S)\<rparr>"

definition runs :: "sys \<Rightarrow> nat \<Rightarrow> goroutine \<Rightarrow> bool" where
  "runs S i g \<longleftrightarrow> i < length (goroutines S) \<and> goroutines S ! i = g"

section \<open>Steps\<close>

text \<open>One part of a handler, on the state of the server that all goroutines share.\<close>

inductive gstep :: "goroutine \<Rightarrow> Server \<Rightarrow> goroutine \<Rightarrow> Server \<Rightarrow> bool" where
  announce1: "gstep (Announce1 a c) s (Announce2 a c) (countConn s)"
| announce2: "gstep (Announce2 a c) s (AgentLoop a c) (markConnected a peer s)"
| agentEnds: "gstep (AgentLoop a c) s (Leave1 a c) (unregister a c s)"
| leave1: "gstep (Leave1 a c) s (Leave2 a c) (uncountConn s)"
| leave2: "gstep (Leave2 a c) s Exited (markDisconnected a peer s)"
| entered: "gstep (StreamStart a st) s (StreamWait a st) (streamEnter s)"
| requested: "streamRequest env a st s = (g, s') \<Longrightarrow> gstep (StreamWait a st) s (requestNext a g) s'"
| probed: "probeDialed outcome st s = (st', t, s') \<Longrightarrow> gstep (StreamProbe a target st) s (StreamLeave a) s'"
| dialled: "streamOutcome a target f outcome st s = (g, s') \<Longrightarrow>
    gstep (StreamDial a target f st) s (outcomeNext a target g) s'"
| counted: "gstep (StreamConnected a target f st c) s (StreamReply a f st c) (countTarget a target f s)"
| replied: "gstep (StreamReply a f st c) s (replyNext a (streamReply f c st)) s"
| copied: "streamCopied env a f c st s = (st', c', s') \<Longrightarrow> gstep (StreamPipe a f st c) s (StreamClose a) s'"
| closed: "gstep (StreamClose a) s (StreamLeave a) (uncountTCP s)"
| left: "gstep (StreamLeave a) s Exited (streamExit s)"
| probeRequested: "probeStreamBegin env a st s = (g, bad, s') \<Longrightarrow> gstep (ProbeStart a st) s (probeNext a g) s'"
| probeDialled: "probeDialed outcome st s = (st', t, s') \<Longrightarrow> gstep (ProbeDial a target st) s Exited s'"
| legacyNone: "gstep (LegacyConn a) s (LegacyLeave a) s"
| legacyRequested: "legacyBegin env a peer st s = (g, s') \<Longrightarrow> gstep (LegacyConn a) s (legacyNext a g) s'"
| legacyDialled: "probeDialed outcome st s = (st', t, s') \<Longrightarrow> gstep (LegacyDial a target st) s (LegacyLeave a) s'"
| reverseEntered: "gstep (ReverseStart env a service tcp) s (ReverseCounted env a service tcp) (reverseEnter s)"
| reverseLooked: "reverseLookup a service s = (found, s') \<Longrightarrow>
    gstep (ReverseCounted env a service tcp) s (lookupNext env a service tcp found) s'"
| reverseOpens: "reverseOpened env a service opened s = (st, s') \<Longrightarrow>
    gstep (ReverseOpening env a service c tcp) s (openedNext env a service tcp st) s'"
| reverseAnswered: "gstep (ReverseExchange env a service st tcp) s
    (exchangeNext env a service tcp (reverseExchange env a service listener remote st)) s"
| reverseCopied: "reverseCopied env a service tcp st s = (tcp', st', s') \<Longrightarrow>
    gstep (ReversePipe env a service st tcp) s (ReverseStreamLeave tcp') s'"
| reverseStreamLeft: "gstep (ReverseStreamLeave tcp) s (ReverseLeave tcp) (streamExit s)"
| reverseLeft: "reverseExit tcp s = (tcp', s') \<Longrightarrow> gstep (ReverseLeave tcp) s ReverseFree s'"

text \<open>
  The system: a connection is admitted, a goroutine takes a step of its handler, a loop starts a
  goroutine, a goroutine that holds a slot of \<open>Run\<close> gives it back, or \<open>Run\<close> ends.
\<close>

inductive sys_step :: "sys \<Rightarrow> sys \<Rightarrow> bool" where
  admit: "\<not> stopped S \<Longrightarrow> admitConn (nextConn S) tls peer (run S) = (a, r) \<Longrightarrow>
     sys_step S (start (spawn (nextConn S) a) (S\<lparr>run := r, nextConn := Suc (nextConn S)\<rparr>))"
| moves: "runs S i g \<Longrightarrow> gstep g (srv S) g' s' \<Longrightarrow> sys_step S (move i g' (setSrv s' S))"
| acceptStream: "runs S i (AgentLoop agentID c) \<Longrightarrow>
     sys_step S (start [StreamStart agentID st] (setSrv (logS (Debug ''stream_accepted'' (base agentID)) (srv S)) S))"
| probeAccept: "runs S i (ProbeConn agentID) \<Longrightarrow> sys_step S (start [ProbeStart agentID st] S)"
| probeEnds: "runs S i (ProbeConn agentID) \<Longrightarrow> sys_step S (move i Exited (freeProbe S))"
| legacyEnds: "runs S i (LegacyLeave agentID) \<Longrightarrow> sys_step S (move i Exited (freeProbe S))"
| reverseAccept: "agent \<in> set (sAgents (cfg (srv S))) \<Longrightarrow> (service, addr) \<in> set (sReverse agent) \<Longrightarrow>
     acceptReverse ctxErr (sAgentID agent) service (Inr tcp) (reverseConnections S) (srv S) = (SpawnReverse tcp', sem, s) \<Longrightarrow>
     sys_step S (start [ReverseStart env (sAgentID agent) service tcp'] (setSrv s (S\<lparr>reverseConnections := sem\<rparr>)))"
| reverseReject: "agent \<in> set (sAgents (cfg (srv S))) \<Longrightarrow> (service, addr) \<in> set (sReverse agent) \<Longrightarrow>
     acceptReverse ctxErr (sAgentID agent) service (Inr tcp) (reverseConnections S) (srv S) = (RejectReverse tcp', sem, s) \<Longrightarrow>
     sys_step S (setSrv s (S\<lparr>reverseConnections := sem\<rparr>))"
| reverseEnds: "runs S i ReverseFree \<Longrightarrow> sys_step S (move i Exited (freeReverse S))"
| shutdown: "sys_step S ((setSrv (snd (closeConnections (srv S))) S)\<lparr>stopped := True\<rparr>)"

text \<open>The state after the startup part of \<open>Run\<close>.\<close>

definition sys_init :: "crypto \<Rightarrow> os \<Rightarrow> SrvConfig \<Rightarrow> Logger \<Rightarrow> sys \<Rightarrow> bool" where
  "sys_init c env config l S \<longleftrightarrow>
     startRun c env (newServer config l New) = Inr (run S) \<and>
     S = \<lparr>run = run S, reverseConnections = 0, goroutines = [], nextConn = 0, stopped = False\<rparr>"

section \<open>What a goroutine holds\<close>

text \<open>
  Where a goroutine stands between taking a slot and giving it back, and between raising a gauge and
  lowering it again.
\<close>

fun holdsDial :: "goroutine \<Rightarrow> bool" where
  "holdsDial (StreamDial _ _ _ _) = True"
| "holdsDial (StreamProbe _ _ _) = True"
| "holdsDial (ProbeDial _ _ _) = True"
| "holdsDial (LegacyDial _ _ _) = True"
| "holdsDial _ = False"

fun holdsProbe :: "goroutine \<Rightarrow> bool" where
  "holdsProbe (ProbeConn _) = True"
| "holdsProbe (LegacyConn _) = True"
| "holdsProbe (LegacyDial _ _ _) = True"
| "holdsProbe (LegacyLeave _) = True"
| "holdsProbe _ = False"

fun holdsReverse :: "goroutine \<Rightarrow> bool" where
  "holdsReverse (ReverseStart _ _ _ _) = True"
| "holdsReverse (ReverseCounted _ _ _ _) = True"
| "holdsReverse (ReverseOpening _ _ _ _ _) = True"
| "holdsReverse (ReverseExchange _ _ _ _ _) = True"
| "holdsReverse (ReversePipe _ _ _ _ _) = True"
| "holdsReverse (ReverseStreamLeave _) = True"
| "holdsReverse (ReverseLeave _) = True"
| "holdsReverse ReverseFree = True"
| "holdsReverse _ = False"

fun activeStream :: "goroutine \<Rightarrow> bool" where
  "activeStream (StreamWait _ _) = True"
| "activeStream (StreamDial _ _ _ _) = True"
| "activeStream (StreamProbe _ _ _) = True"
| "activeStream (StreamConnected _ _ _ _ _) = True"
| "activeStream (StreamReply _ _ _ _) = True"
| "activeStream (StreamPipe _ _ _ _) = True"
| "activeStream (StreamClose _) = True"
| "activeStream (StreamLeave _) = True"
| "activeStream (ReverseExchange _ _ _ _ _) = True"
| "activeStream (ReversePipe _ _ _ _ _) = True"
| "activeStream (ReverseStreamLeave _) = True"
| "activeStream _ = False"

fun activeTCP :: "goroutine \<Rightarrow> bool" where
  "activeTCP (StreamReply _ _ _ _) = True"
| "activeTCP (StreamPipe _ _ _ _) = True"
| "activeTCP (StreamClose _) = True"
| "activeTCP (ReverseCounted _ _ _ _) = True"
| "activeTCP (ReverseOpening _ _ _ _ _) = True"
| "activeTCP (ReverseExchange _ _ _ _ _) = True"
| "activeTCP (ReversePipe _ _ _ _ _) = True"
| "activeTCP (ReverseStreamLeave _) = True"
| "activeTCP (ReverseLeave _) = True"
| "activeTCP _ = False"

fun countedConn :: "goroutine \<Rightarrow> bool" where
  "countedConn (Announce2 _ _) = True"
| "countedConn (AgentLoop _ _) = True"
| "countedConn (Leave1 _ _) = True"
| "countedConn _ = False"

section \<open>Accounting\<close>

text \<open>Slots and gauges agree with the goroutines, and no semaphore exceeds its capacity.\<close>

definition acct :: "Run \<Rightarrow> channel \<Rightarrow> goroutine list \<Rightarrow> bool" where
  "acct r v gs \<longleftrightarrow>
     dials (server r) = count holdsDial gs \<and> int (dials (server r)) \<le> sMaxPendingDials (cfg (server r)) \<and>
     probes r = count holdsProbe gs \<and> int (probes r) \<le> sMaxPendingDials (cfg (server r)) \<and>
     v = count holdsReverse gs \<and> int v \<le> sMaxStreams (cfg (server r)) \<and>
     ActiveQUICStreams (metrics (server r)) = of_nat (count activeStream gs) \<and>
     ActiveTCPConnections (metrics (server r)) = of_nat (count activeTCP gs) \<and>
     QUICConnections (metrics (server r)) = of_nat (count countedConn gs)"

text \<open>The change of the server's state that goes with a goroutine moving from \<open>g\<close> to \<open>g'\<close>.\<close>

definition changes :: "Server \<Rightarrow> Server \<Rightarrow> goroutine \<Rightarrow> goroutine \<Rightarrow> bool" where
  "changes s s' g g' \<longleftrightarrow> cfg s' = cfg s \<and>
     dials s' + of_bool (holdsDial g) = dials s + of_bool (holdsDial g') \<and>
     (holdsDial g' \<and> \<not> holdsDial g \<longrightarrow> int (dials s) < sMaxPendingDials (cfg s)) \<and>
     ActiveQUICStreams (metrics s') = ActiveQUICStreams (metrics s) + of_bool (activeStream g') - of_bool (activeStream g) \<and>
     ActiveTCPConnections (metrics s') = ActiveTCPConnections (metrics s) + of_bool (activeTCP g') - of_bool (activeTCP g) \<and>
     QUICConnections (metrics s') = QUICConnections (metrics s) + of_bool (countedConn g') - of_bool (countedConn g)"

lemma acct_move:
  assumes a: "acct r v gs" and i: "i < length gs" "gs ! i = g" and c: "changes (server r) s' g g'"
    and p: "p' + of_bool (holdsProbe g) = probes r + of_bool (holdsProbe g')" "p' \<le> probes r"
    and v: "v' + of_bool (holdsReverse g) = v + of_bool (holdsReverse g')" "v' \<le> v"
  shows "acct (r\<lparr>server := s', probes := p'\<rparr>) v' (gs[i := g'])"
proof -
  note cu = count_update [OF i(1), unfolded i(2)]
  have "dials s' = count holdsDial (gs[i := g'])" "p' = count holdsProbe (gs[i := g'])"
    "v' = count holdsReverse (gs[i := g'])"
    using a c p(1) v(1) cu [of holdsDial g'] cu [of holdsProbe g'] cu [of holdsReverse g']
    by (auto simp: acct_def changes_def)
  moreover have "int (dials s') \<le> sMaxPendingDials (cfg s')"
    using a c by (cases "holdsDial g"; cases "holdsDial g'") (auto simp: acct_def changes_def)
  moreover have "int p' \<le> sMaxPendingDials (cfg s')" "int v' \<le> sMaxStreams (cfg s')"
    using a c p(2) v(2) by (auto simp: acct_def changes_def)
  ultimately show ?thesis
    using a c i by (simp add: acct_def changes_def of_nat_count_update)
qed

text \<open>The common case: only the server's own state changes.\<close>

lemma acct_move_srv:
  assumes "acct (run S) (reverseConnections S) (goroutines S)" "runs S i g" "changes (srv S) s' g g'"
    and "holdsProbe g' = holdsProbe g" "holdsReverse g' = holdsReverse g"
  defines "T \<equiv> move i g' (setSrv s' S)"
  shows "acct (run T) (reverseConnections T) (goroutines T)"
proof -
  have "acct ((run S)\<lparr>server := s', probes := probes (run S)\<rparr>) (reverseConnections S) ((goroutines S)[i := g'])"
    using assms(2,4,5) by (intro acct_move [OF assms(1) _ _ assms(3)]) (auto simp: runs_def)
  then show ?thesis by (simp add: T_def move_def setSrv_def)
qed

lemma acct_move_probe:
  assumes "acct (run S) (reverseConnections S) (goroutines S)" "runs S i g" "changes (srv S) (srv S) g Exited"
    and "holdsProbe g" "\<not> holdsReverse g"
  defines "T \<equiv> move i Exited (freeProbe S)"
  shows "acct (run T) (reverseConnections T) (goroutines T)"
proof -
  have "0 < probes (run S)"
    using assms(1,2,4) count_positive [of i "goroutines S" holdsProbe] by (auto simp: acct_def runs_def)
  then have "acct ((run S)\<lparr>server := srv S, probes := probes (run S) - 1\<rparr>) (reverseConnections S) ((goroutines S)[i := Exited])"
    using assms(2,4,5) by (intro acct_move [OF assms(1) _ _ assms(3)]) (auto simp: runs_def)
  then show ?thesis by (simp add: T_def move_def freeProbe_def receive_def)
qed

lemma acct_move_reverse:
  assumes "acct (run S) (reverseConnections S) (goroutines S)" "runs S i g" "changes (srv S) (srv S) g Exited"
    and "\<not> holdsProbe g" "holdsReverse g"
  defines "T \<equiv> move i Exited (freeReverse S)"
  shows "acct (run T) (reverseConnections T) (goroutines T)"
proof -
  have "0 < reverseConnections S"
    using assms(1,2,5) count_positive [of i "goroutines S" holdsReverse] by (auto simp: acct_def runs_def)
  then have "acct ((run S)\<lparr>server := srv S, probes := probes (run S)\<rparr>) (reverseConnections S - 1) ((goroutines S)[i := Exited])"
    using assms(2,4,5) by (intro acct_move [OF assms(1) _ _ assms(3)]) (auto simp: runs_def)
  then show ?thesis by (simp add: T_def move_def freeReverse_def receive_def)
qed

section \<open>Every handler part changes the accounts as its goroutine moves\<close>

lemma SetAgentConnected_gauges [simp]:
  "ActiveQUICStreams (SetAgentConnected a b m) = ActiveQUICStreams m"
  "ActiveTCPConnections (SetAgentConnected a b m) = ActiveTCPConnections m"
  "QUICConnections (SetAgentConnected a b m) = QUICConnections m"
  by (simp_all add: SetAgentConnected_def)

lemma changes_session:
  "changes s (countConn s) (Announce1 a c) (Announce2 a c)"
  "changes s (markConnected a peer s) (Announce2 a c) (AgentLoop a c)"
  "changes s (unregister a c s) (AgentLoop a c) (Leave1 a c)"
  "changes s (uncountConn s) (Leave1 a c) (Leave2 a c)"
  "changes s (markDisconnected a peer s) (Leave2 a c) Exited"
  by (simp_all add: changes_def countConn_def markConnected_def unregister_def uncountConn_def
      markDisconnected_def Add_def)

lemma verdict_takes_slot:
  "dialsOf (verdict (cfg s) (dialsFull s) a r) \<noteq> [] \<Longrightarrow> int (dials s) < sMaxPendingDials (cfg s)"
  by (auto simp: verdict_def dialsFull_def split: sum.splits if_splits option.splits)

lemma requestMetrics_gauges [simp]:
  "ActiveQUICStreams (requestMetrics r m) = ActiveQUICStreams m"
  "ActiveTCPConnections (requestMetrics r m) = ActiveTCPConnections m"
  "QUICConnections (requestMetrics r m) = QUICConnections m"
  by (simp_all add: requestMetrics_def Add_def split: sum.split)

lemma changes_streamRequest:
  assumes "streamRequest env a st s = (g, s')"
  shows "changes s s' (StreamWait a st) (requestNext a g)"
proof -
  obtain r st1 where req: "request env s st = (r, st1)" by (cases "request env s st")
  let ?v = "verdict (cfg s) (dialsFull s) a r"
  from streamRequest_stage [OF req, of a] assms
  have g: "g = (case ?v of Refuse c \<Rightarrow> Finished (refuse c st1) | AcceptProbe \<Rightarrow> Finished (accept st1)
     | DialProbe t \<Rightarrow> ProbeDialing t st1 | DialOpen t \<Rightarrow> Dialing t (projr r) st1)"
    and s': "cfg s' = cfg s" "metrics s' = requestMetrics r (metrics s)" "dials s' = dials s + length (dialsOf ?v)"
    by auto
  show ?thesis
    using g s' verdict_takes_slot [of s a r] by (cases ?v) (simp_all add: changes_def)
qed

lemma changes_stream:
  "changes s (streamEnter s) (StreamStart a st) (StreamWait a st)"
  "streamOutcome a t f outcome st s = (g, s') \<Longrightarrow> 0 < dials s \<Longrightarrow> changes s s' (StreamDial a t f st) (outcomeNext a t g)"
  "changes s (countTarget a t f s) (StreamConnected a t f st c) (StreamReply a f st c)"
  "changes s s (StreamReply a f st c) (replyNext a (streamReply f c st))"
  "streamCopied env a f c st s = (st', c', s') \<Longrightarrow> changes s s' (StreamPipe a f st c) (StreamClose a)"
  "changes s (uncountTCP s) (StreamClose a) (StreamLeave a)"
  "changes s (streamExit s) (StreamLeave a) Exited"
  by (auto simp: changes_def streamEnter_def streamOutcome_def countTarget_def streamReply_def streamCopied_def
      uncountTCP_def streamExit_def Add_def Let_def split: sum.splits prod.splits option.splits)

lemma changes_probeDialed:
  assumes "probeDialed outcome st s = (st', t', s')" "0 < dials s"
  shows "changes s s' (StreamProbe a t st) (StreamLeave a)"
    and "changes s s' (ProbeDial a t st) Exited"
    and "changes s s' (LegacyDial a t st) (LegacyLeave a)"
  using assms by (auto simp: probeDialed_def changes_def split: sum.splits)

lemma probeBegin_slots:
  assumes "probeBegin a f st s = (g, s')" "Type f = TypeProbe"
  shows "cfg s' = cfg s \<and> metrics s' = metrics s \<and>
    (case g of Finished _ \<Rightarrow> dials s' = dials s
     | ProbeDialing t st1 \<Rightarrow> dials s' = Suc (dials s) \<and> int (dials s) < sMaxPendingDials (cfg s) \<and> st1 = st
     | _ \<Rightarrow> False)"
  using assms takeDial_Some [of s]
  by (auto simp: probeBegin_def split: if_splits option.splits)

lemma probeStreamBegin_cases:
  assumes "probeStreamBegin env a st s = (g, bad, s')"
  obtains (probe) f st1 where "Type f = TypeProbe" "probeBegin a f st1 s = (g, s')"
  | (other) x where "s' = s" "g = Finished x"
proof -
  obtain r st1 where req: "request env s st = (r, st1)" by (cases "request env s st")
  with assms show thesis
    by (cases r) (auto simp: probeStreamBegin_def request_def Let_def split: if_splits prod.splits intro: probe other)
qed

lemma legacyBegin_cases:
  assumes "legacyBegin env a peer st s = (g, s')"
  obtains (probe) f st1 x where "Type f = TypeProbe" "probeBegin a f st1 (logS x s) = (g, s')"
  | (other) x where "s' = s" "g = Finished x"
proof -
  obtain r st1 where req: "request env s st = (r, st1)" by (cases "request env s st")
  with assms show thesis
    by (cases r) (auto simp: legacyBegin_def request_def Let_def split: if_splits intro: probe other)
qed

lemma changes_probeBegin:
  assumes "probeStreamBegin env a st s = (g, bad, s')"
  shows "changes s s' (ProbeStart a st) (probeNext a g)"
  using assms
proof (cases rule: probeStreamBegin_cases)
  case (probe f st1)
  from probeBegin_slots [OF probe(2,1)] show ?thesis by (cases g) (auto simp: changes_def)
qed (simp add: changes_def)

lemma changes_legacyBegin:
  assumes "legacyBegin env a peer st s = (g, s')"
  shows "changes s s' (LegacyConn a) (legacyNext a g)"
  using assms
proof (cases rule: legacyBegin_cases)
  case (probe f st1 x)
  from probeBegin_slots [OF probe(2,1)] show ?thesis by (cases g) (auto simp: changes_def)
qed (simp add: changes_def)

lemma changes_reverse:
  "changes s (reverseEnter s) (ReverseStart env a service tcp) (ReverseCounted env a service tcp)"
  "reverseOpened env a service opened s = (st, s') \<Longrightarrow>
     changes s s' (ReverseOpening env a service c tcp) (openedNext env a service tcp st)"
  "reverseCopied env a service tcp st1 s = (tcp', st2, s') \<Longrightarrow>
     changes s s' (ReversePipe env a service st1 tcp) (ReverseStreamLeave tcp')"
  "changes s (streamExit s) (ReverseStreamLeave tcp) (ReverseLeave tcp)"
  "reverseExit tcp s = (tcp', s') \<Longrightarrow> changes s s' (ReverseLeave tcp) ReverseFree"
  by (auto simp: reverseEnter_def reverseOpened_def reverseCopied_def reverseExit_def uncountTCP_def
      changes_def streamExit_def Add_def split: option.splits sum.splits prod.splits)

lemma changes_lookup:
  "reverseLookup a service s = (found, s') \<Longrightarrow>
     changes s s' (ReverseCounted env a service tcp) (lookupNext env a service tcp found)"
  by (cases found) (auto simp: reverseLookup_def changes_def split: option.splits)

lemma changes_exchange: "changes s s (ReverseExchange env a service st tcp) (exchangeNext env a service tcp rs)"
  by (cases rs) (simp_all add: changes_def)

lemma changes_refl: "changes s s (ProbeConn a) Exited" "changes s s (LegacyConn a) (LegacyLeave a)"
  "changes s s (LegacyLeave a) Exited" "changes s s ReverseFree Exited"
  by (simp_all add: changes_def)

lemma next_kinds [simp]:
  "\<not> holdsProbe (requestNext a g)" "\<not> holdsReverse (requestNext a g)"
  "\<not> holdsProbe (outcomeNext a t g)" "\<not> holdsReverse (outcomeNext a t g)"
  "\<not> holdsProbe (replyNext a g)" "\<not> holdsReverse (replyNext a g)"
  "\<not> holdsProbe (probeNext a g)" "\<not> holdsReverse (probeNext a g)"
  "holdsProbe (legacyNext a g)" "\<not> holdsReverse (legacyNext a g)"
  by (cases g; simp)+

lemma reverse_next_kinds [simp]:
  "\<not> holdsProbe (lookupNext env a service tcp found)" "holdsReverse (lookupNext env a service tcp found)"
  "\<not> holdsProbe (openedNext env a service tcp st)" "holdsReverse (openedNext env a service tcp st)"
  "\<not> holdsProbe (exchangeNext env a service tcp rs)" "holdsReverse (exchangeNext env a service tcp rs)"
proof -
  show "\<not> holdsProbe (lookupNext env a service tcp found)" "holdsReverse (lookupNext env a service tcp found)"
    by (cases found; simp)+
  show "\<not> holdsProbe (openedNext env a service tcp st)" "holdsReverse (openedNext env a service tcp st)"
    by (cases st; simp)+
  show "\<not> holdsProbe (exchangeNext env a service tcp rs)" "holdsReverse (exchangeNext env a service tcp rs)"
    by (cases rs; simp)+
qed

text \<open>A part moves the accounts as it moves its goroutine, and leaves the slots of \<open>Run\<close> alone.\<close>

lemma gstep_changes: "gstep g s g' s' \<Longrightarrow> (holdsDial g \<Longrightarrow> 0 < dials s) \<Longrightarrow> changes s s' g g'"
  by (induction rule: gstep.induct)
    (simp_all add: changes_session changes_streamRequest changes_stream changes_probeDialed changes_probeBegin
      changes_legacyBegin changes_reverse changes_lookup changes_exchange changes_refl)

lemma gstep_kinds: "gstep g s g' s' \<Longrightarrow> holdsProbe g' = holdsProbe g \<and> holdsReverse g' = holdsReverse g"
  by (induction rule: gstep.induct) auto

section \<open>The accounts are an invariant\<close>

definition same_accounts :: "Server \<Rightarrow> Server \<Rightarrow> bool" where
  "same_accounts s s' \<longleftrightarrow> cfg s' = cfg s \<and> dials s' = dials s \<and>
     ActiveQUICStreams (metrics s') = ActiveQUICStreams (metrics s) \<and>
     ActiveTCPConnections (metrics s') = ActiveTCPConnections (metrics s) \<and>
     QUICConnections (metrics s') = QUICConnections (metrics s)"

lemma acct_start:
  assumes "acct r v gs" "same_accounts (server r) (server r')"
    and "probes r' = probes r + count holdsProbe new" "int (probes r') \<le> sMaxPendingDials (cfg (server r))"
    and "v' = v + count holdsReverse new" "int v' \<le> sMaxStreams (cfg (server r))"
    and "count holdsDial new = 0" "count activeStream new = 0" "count activeTCP new = 0" "count countedConn new = 0"
  shows "acct r' v' (gs @ new)"
  using assms by (simp add: acct_def same_accounts_def)

lemma admitConn_effect:
  assumes "admitConn c tls peer r = (a, r')" "int (probes r) \<le> sMaxPendingDials (cfg (server r))"
  shows "same_accounts (server r) (server r') \<and> authn r' = authn r \<and> dialed (server r') = dialed (server r) \<and>
    probes r' = probes r + count holdsProbe (spawn c a) \<and> int (probes r') \<le> sMaxPendingDials (cfg (server r))"
  using assms
  by (auto simp: admitConn_def Let_def same_accounts_def register_def trySend_def Add_def
      split: option.splits if_splits)

lemma spawn_idle [simp]:
  "count holdsDial (spawn c a) = 0" "count activeStream (spawn c a) = 0" "count activeTCP (spawn c a) = 0"
  "count countedConn (spawn c a) = 0" "count holdsReverse (spawn c a) = 0"
  by (cases a; simp)+

definition accounts :: "sys \<Rightarrow> bool" where
  "accounts S \<longleftrightarrow> acct (run S) (reverseConnections S) (goroutines S)"

lemma dialing_positive: "accounts S \<Longrightarrow> runs S i g \<Longrightarrow> holdsDial g \<Longrightarrow> 0 < dials (srv S)"
  using count_positive [of i "goroutines S" holdsDial] by (auto simp: accounts_def acct_def runs_def)

lemma accounts_move:
  "accounts S \<Longrightarrow> runs S i g \<Longrightarrow> changes (srv S) s' g g' \<Longrightarrow> holdsProbe g' = holdsProbe g \<Longrightarrow>
     holdsReverse g' = holdsReverse g \<Longrightarrow> accounts (move i g' (setSrv s' S))"
  unfolding accounts_def by (rule acct_move_srv)

lemma accounts_move_probe:
  "accounts S \<Longrightarrow> runs S i g \<Longrightarrow> changes (srv S) (srv S) g Exited \<Longrightarrow> holdsProbe g \<Longrightarrow> \<not> holdsReverse g \<Longrightarrow>
     accounts (move i Exited (freeProbe S))"
  unfolding accounts_def by (rule acct_move_probe)

lemma accounts_move_reverse:
  "accounts S \<Longrightarrow> runs S i g \<Longrightarrow> changes (srv S) (srv S) g Exited \<Longrightarrow> \<not> holdsProbe g \<Longrightarrow> holdsReverse g \<Longrightarrow>
     accounts (move i Exited (freeReverse S))"
  unfolding accounts_def by (rule acct_move_reverse)

lemma accounts_start:
  assumes "accounts S" "same_accounts (srv S) s" "count holdsProbe new = 0" "int sem \<le> sMaxStreams (cfg (srv S))"
    and "sem = reverseConnections S + count holdsReverse new"
    and "count holdsDial new = 0" "count activeStream new = 0" "count activeTCP new = 0" "count countedConn new = 0"
  shows "accounts (start new (setSrv s (S\<lparr>reverseConnections := sem\<rparr>)))"
  using acct_start [of "run S" "reverseConnections S" "goroutines S" "(run S)\<lparr>server := s\<rparr>" new sem] assms
  by (simp add: accounts_def start_def setSrv_def acct_def)

lemma setSrv_id [simp]: "setSrv (srv S) S = S"
  by (simp add: setSrv_def)

lemma acceptReverse_effect:
  assumes "acceptReverse ctxErr a service (Inr tcp) sem s = (t, sem', s')"
  shows "same_accounts s s' \<and> conns s' = conns s \<and> dialed s' = dialed s \<and>
    (case t of SpawnReverse _ \<Rightarrow> sem' = Suc sem \<and> int sem' \<le> sMaxStreams (cfg s) | _ \<Rightarrow> sem' = sem)"
  using assms by (auto simp: acceptReverse_def same_accounts_def trySend_def split: option.splits if_splits)

lemma accounts_sem: "accounts S \<Longrightarrow> int (reverseConnections S) \<le> sMaxStreams (cfg (srv S))"
  by (simp add: accounts_def acct_def)

lemma accounts_step: "sys_step S T \<Longrightarrow> accounts S \<Longrightarrow> accounts T"
proof (induction rule: sys_step.induct)
  case (admit S tls peer a r)
  have "int (probes (run S)) \<le> sMaxPendingDials (cfg (srv S))"
    using admit.prems by (simp add: accounts_def acct_def)
  from admitConn_effect [OF admit.hyps(2) this] admit.prems accounts_sem [OF admit.prems] show ?case
    by (auto simp: accounts_def start_def intro!: acct_start)
next
  case (acceptStream S i agentID c st)
  then show ?case
    using accounts_start [of S "logS (Debug ''stream_accepted'' (base agentID)) (srv S)" "[StreamStart agentID st]"
        "reverseConnections S"] accounts_sem [of S]
    by (simp add: same_accounts_def setSrv_def)
next
  case (probeAccept S i agentID st)
  then show ?case
    using accounts_start [of S "srv S" "[ProbeStart agentID st]" "reverseConnections S"] accounts_sem [of S]
    by (simp add: same_accounts_def setSrv_def)
next
  case (moves S i g g' s')
  then show ?case
    using gstep_kinds [OF moves.hyps(2)] gstep_changes [OF moves.hyps(2) dialing_positive [OF moves.prems moves.hyps(1)]]
    by (intro accounts_move [OF moves.prems moves.hyps(1)]) auto
next
  case (reverseAccept agent S service addr ctxErr tcp tcp' sem s env)
  then show ?case
    using acceptReverse_effect [OF reverseAccept.hyps(3)] by (intro accounts_start) auto
next
  case (reverseReject agent S service addr ctxErr tcp tcp' sem s)
  then show ?case
    using acceptReverse_effect [OF reverseReject.hyps(3)] accounts_start [of S s "[]" sem] accounts_sem [of S]
    by (simp add: start_def)
next
  case (shutdown S)
  then show ?case
    by (simp add: accounts_def acct_def setSrv_def closeConnections_def)
qed (auto intro: accounts_move_probe accounts_move_reverse changes_refl)

lemma startRun_Inr:
  assumes "startRun c env s = Inr r"
  shows "cfg (server r) = srvApplyDefaults (cfg s) \<and> srvValidateConfig (srvApplyDefaults (cfg s)) = Inr () \<and>
    metrics (server r) = ConfigureServer (map sAgentID (sAgents (cfg s))) (metrics s) \<and>
    conns (server r) = conns s \<and> dials (server r) = 0 \<and> dialed (server r) = dialed s \<and> probes r = 0 \<and>
    (\<exists>clients. loadClients env (sAgents (cfg s)) = Inr clients \<and> MultiClientTLSConfig c clients = Inr (authn r))"
  using assms by (auto simp: startRun_def Let_def result_iff srvApplyDefaults_def)

lemma accounts_init: "sys_init c env config l S \<Longrightarrow> accounts S"
proof -
  assume i: "sys_init c env config l S"
  then have S: "reverseConnections S = 0" "goroutines S = []"
    and r: "startRun c env (newServer config l New) = Inr (run S)"
    by (auto simp: sys_init_def) (metis sys.select_convs(2), metis sys.select_convs(3))
  from startRun_Inr [OF r] show ?thesis
    by (auto simp: accounts_def acct_def S newServer_def New_def ConfigureServer_def srvValidateConfig_iff)
qed

section \<open>Only configured targets are dialled\<close>

text \<open>The authenticated agent for which a goroutine acts, if it serves one.\<close>

fun actsFor :: "goroutine \<Rightarrow> string option" where
  "actsFor (Announce1 a _) = Some a"
| "actsFor (Announce2 a _) = Some a"
| "actsFor (AgentLoop a _) = Some a"
| "actsFor (Leave1 a _) = Some a"
| "actsFor (Leave2 a _) = Some a"
| "actsFor (StreamStart a _) = Some a"
| "actsFor (StreamWait a _) = Some a"
| "actsFor (StreamDial a _ _ _) = Some a"
| "actsFor (StreamProbe a _ _) = Some a"
| "actsFor (StreamConnected a _ _ _ _) = Some a"
| "actsFor (StreamReply a _ _ _) = Some a"
| "actsFor (StreamPipe a _ _ _) = Some a"
| "actsFor (StreamClose a) = Some a"
| "actsFor (StreamLeave a) = Some a"
| "actsFor (ProbeConn a) = Some a"
| "actsFor (ProbeStart a _) = Some a"
| "actsFor (ProbeDial a _ _) = Some a"
| "actsFor (LegacyConn a) = Some a"
| "actsFor (LegacyDial a _ _) = Some a"
| "actsFor (LegacyLeave a) = Some a"
| "actsFor _ = None"

definition known :: "Run \<Rightarrow> string \<Rightarrow> bool" where
  "known r a \<longleftrightarrow> (\<exists>key. map_of (ClientByPublicKey (authn r)) key = Some a)"

definition policy :: "sys \<Rightarrow> bool" where
  "policy S \<longleftrightarrow>
     (\<forall>g \<in> set (goroutines S). \<forall>a. actsFor g = Some a \<longrightarrow> known (run S) a) \<and>
     (\<forall>(a, t) \<in> set (dialed (srv S)). known (run S) a \<and> (\<exists>service. forwardTarget (cfg (srv S)) a service = Some t))"

text \<open>What a part may add to the addresses dialled on behalf of an agent.\<close>

definition dialsFor :: "string option \<Rightarrow> Server \<Rightarrow> Server \<Rightarrow> bool" where
  "dialsFor a s s' \<longleftrightarrow> cfg s' = cfg s \<and> (\<forall>(b, t) \<in> set (dialed s'). (b, t) \<in> set (dialed s) \<or>
     (a = Some b \<and> (\<exists>service. forwardTarget (cfg s) b service = Some t)))"

lemma policy_move:
  assumes "policy S" "runs S i g" "dialsFor (actsFor g) (srv S) s'"
    and "actsFor g' = None \<or> actsFor g' = actsFor g"
    and "goroutines T = (goroutines S)[i := g']" "authn (run T) = authn (run S)" "srv T = s'"
  shows "policy T"
proof -
  have known: "known (run T) = known (run S)"
    using assms(6) by (auto simp: known_def fun_eq_iff)
  have g: "known (run S) a" if "actsFor g = Some a" for a
    using assms(1,2) that unfolding policy_def runs_def using nth_mem by blast
  have "known (run S) a" if "h \<in> set (goroutines T)" "actsFor h = Some a" for h a
    using set_update_subset [of h "goroutines S" i g'] that assms(1,4,5) g by (auto simp: policy_def)
  moreover have "known (run S) a \<and> (\<exists>service. forwardTarget (cfg (srv S)) a service = Some t)"
    if "(a, t) \<in> set (dialed s')" for a t
    using that assms(1,3) g by (fastforce simp: policy_def dialsFor_def)
  ultimately show ?thesis
    using assms(3,7) by (auto simp: policy_def known dialsFor_def)
qed

lemma policy_start:
  assumes "policy S" "dialed (srv T) = dialed (srv S)" "cfg (srv T) = cfg (srv S)" "authn (run T) = authn (run S)"
    and "goroutines T = goroutines S @ new" "\<And>g a. g \<in> set new \<Longrightarrow> actsFor g = Some a \<Longrightarrow> known (run S) a"
  shows "policy T"
proof -
  have "known (run T) = known (run S)" using assms(4) by (auto simp: known_def fun_eq_iff)
  with assms show ?thesis by (auto simp: policy_def)
qed

lemma dialsFor_same: "cfg s' = cfg s \<Longrightarrow> dialed s' = dialed s \<Longrightarrow> dialsFor a s s'"
  by (auto simp: dialsFor_def)

lemma verdict_dials:
  "t \<in> set (dialsOf (verdict c isFull a r)) \<Longrightarrow> \<exists>service. forwardTarget c a service = Some t"
  by (auto simp: verdict_def split: sum.splits if_splits option.splits)

lemma dialsFor_streamRequest:
  assumes "streamRequest env a st s = (g, s')"
  shows "dialsFor (Some a) s s'" "conns s' = conns s"
proof -
  obtain r st1 where "request env s st = (r, st1)" by (cases "request env s st")
  from streamRequest_stage [OF this, of a] assms verdict_dials show "dialsFor (Some a) s s'" "conns s' = conns s"
    by (fastforce simp: dialsFor_def)+
qed

lemma dialsFor_probe:
  assumes "probeBegin a f st s = (g, s')"
  shows "dialsFor (Some a) s s'" "conns s' = conns s"
  using assms takeDial_Some [of s]
  by (auto simp: probeBegin_def dialsFor_def split: if_splits option.splits)

lemma dialsFor_probeStream:
  assumes "probeStreamBegin env a st s = (g, bad, s')"
  shows "dialsFor (Some a) s s' \<and> conns s' = conns s"
  using assms
proof (cases rule: probeStreamBegin_cases)
  case (probe f st1)
  from dialsFor_probe [OF probe(2)] show ?thesis by simp
qed (simp add: dialsFor_same)

lemma dialsFor_legacy:
  assumes "legacyBegin env a peer st s = (g, s')"
  shows "dialsFor (Some a) s s' \<and> conns s' = conns s"
  using assms
proof (cases rule: legacyBegin_cases)
  case (probe f st1 x)
  from dialsFor_probe [OF probe(2)] show ?thesis by (simp add: dialsFor_def)
qed (simp add: dialsFor_same)

lemma part_fields [simp]:
  "cfg (streamEnter s) = cfg s" "dialed (streamEnter s) = dialed s" "conns (streamEnter s) = conns s"
  "cfg (streamExit s) = cfg s" "dialed (streamExit s) = dialed s" "conns (streamExit s) = conns s"
  "cfg (uncountTCP s) = cfg s" "dialed (uncountTCP s) = dialed s" "conns (uncountTCP s) = conns s"
  "cfg (reverseEnter s) = cfg s" "dialed (reverseEnter s) = dialed s" "conns (reverseEnter s) = conns s"
  "cfg (countTarget a t f s) = cfg s" "dialed (countTarget a t f s) = dialed s" "conns (countTarget a t f s) = conns s"
  by (simp_all add: streamEnter_def streamExit_def uncountTCP_def reverseEnter_def countTarget_def)

lemma part_outcomes:
  "streamOutcome a t f outcome st s = (g, s') \<Longrightarrow> cfg s' = cfg s \<and> dialed s' = dialed s \<and> conns s' = conns s"
  "streamCopied env a f c st s = (st1, c1, s') \<Longrightarrow> cfg s' = cfg s \<and> dialed s' = dialed s \<and> conns s' = conns s"
  "probeDialed outcome st s = (st1, t1, s') \<Longrightarrow> cfg s' = cfg s \<and> dialed s' = dialed s \<and> conns s' = conns s"
  "reverseLookup a service s = (found, s') \<Longrightarrow> cfg s' = cfg s \<and> dialed s' = dialed s \<and> conns s' = conns s"
  "reverseOpened env a service opened s = (st2, s') \<Longrightarrow> cfg s' = cfg s \<and> dialed s' = dialed s \<and> conns s' = conns s"
  "reverseCopied env a service tcp st s = (tcp1, st1, s') \<Longrightarrow> cfg s' = cfg s \<and> dialed s' = dialed s \<and> conns s' = conns s"
  "reverseExit tcp s = (tcp1, s') \<Longrightarrow> cfg s' = cfg s \<and> dialed s' = dialed s \<and> conns s' = conns s"
  by (auto simp: streamOutcome_def streamCopied_def probeDialed_def reverseLookup_def reverseOpened_def reverseCopied_def
      reverseExit_def Let_def split: sum.splits prod.splits option.splits)

lemma ClientIDForTLSState_known:
  "ClientIDForTLSState (ClientByPublicKey (authn r)) tls = Some a \<Longrightarrow> known r a"
  by (auto simp: ClientIDForTLSState_def known_def split: list.splits public_key.splits)

lemma admitConn_known:
  assumes "admitConn c tls peer r = (adm, r')" "g \<in> set (spawn c adm)" "actsFor g = Some a"
  shows "known r a"
  using assms ClientIDForTLSState_known [of r tls]
  by (auto simp: admitConn_def Let_def split: option.splits if_splits prod.splits bool.splits)

lemma admitConn_fields:
  "admitConn c tls peer r = (adm, r') \<Longrightarrow>
     authn r' = authn r \<and> dialed (server r') = dialed (server r) \<and> cfg (server r') = cfg (server r)"
  by (auto simp: admitConn_def Let_def register_def split: option.splits if_splits prod.splits bool.splits)

lemma next_actsFor:
  "actsFor (requestNext a g) = Some a" "actsFor (outcomeNext a t g) = Some a" "actsFor (replyNext a g) = Some a"
  "actsFor (probeNext a g) = None \<or> actsFor (probeNext a g) = Some a" "actsFor (legacyNext a g) = Some a"
  by (cases g; simp)+

lemma reverse_next_actsFor:
  "actsFor (lookupNext env a service tcp found) = None" "actsFor (openedNext env a service tcp st) = None"
  "actsFor (exchangeNext env a service tcp rs) = None"
  by (cases found, simp_all) (cases st, simp_all, cases rs, simp_all)

lemmas sys_upd_defs = move_def setSrv_def start_def freeProbe_def freeReverse_def

lemma session_fields:
  "dialsFor x s (countConn s)" "dialsFor x s (markConnected a peer s)" "dialsFor x s (unregister a c s)"
  "dialsFor x s (uncountConn s)" "dialsFor x s (markDisconnected a peer s)"
  by (auto simp: dialsFor_def countConn_def markConnected_def unregister_def uncountConn_def markDisconnected_def)

text \<open>A part dials on behalf of its own agent only, and at most leaves the agent for which it acts.\<close>

lemma gstep_dials: "gstep g s g' s' \<Longrightarrow> dialsFor (actsFor g) s s'"
  by (induction rule: gstep.induct)
    (auto simp: session_fields dest: part_outcomes dialsFor_streamRequest(1) dialsFor_probeStream dialsFor_legacy
      intro: dialsFor_same)

lemma gstep_actsFor: "gstep g s g' s' \<Longrightarrow> actsFor g' = None \<or> actsFor g' = actsFor g"
  by (induction rule: gstep.induct) (simp_all add: next_actsFor reverse_next_actsFor)

lemma runs_known: "policy S \<Longrightarrow> runs S i g \<Longrightarrow> actsFor g = Some a \<Longrightarrow> known (run S) a"
  unfolding policy_def runs_def using nth_mem by blast

lemma policy_frees:
  assumes "policy S" "runs S i g"
  shows "policy (move i Exited (freeProbe S))" "policy (move i Exited (freeReverse S))"
  by (rule policy_move [OF assms, where s' = "srv S"]; simp add: sys_upd_defs dialsFor_same)+

text \<open>A step is a goroutine that moves, goroutines that start, or the shutdown.\<close>

lemma policy_step: "sys_step S T \<Longrightarrow> policy S \<Longrightarrow> policy T"
proof (induction rule: sys_step.induct)
  case (admit S tls peer a r)
  then show ?case
    using admitConn_fields [OF admit.hyps(2)] admitConn_known [OF admit.hyps(2)]
    by (intro policy_start [OF admit.prems]) (auto simp: start_def)
next
  case (acceptStream S i agentID c st)
  then show ?case
    using runs_known by (intro policy_start [OF acceptStream.prems]) (auto simp: sys_upd_defs)
next
  case (probeAccept S i agentID st)
  then show ?case
    using runs_known by (intro policy_start [OF probeAccept.prems]) (auto simp: sys_upd_defs)
next
  case (moves S i g g' s')
  then show ?case
    using gstep_dials [OF moves.hyps(2)] gstep_actsFor [OF moves.hyps(2)]
    by (intro policy_move [OF moves.prems moves.hyps(1)]) (auto simp: sys_upd_defs)
next
  case (reverseAccept agent S service addr ctxErr tcp tcp' sem s env)
  then show ?case
    using acceptReverse_effect [OF reverseAccept.hyps(3)]
    by (intro policy_start [OF reverseAccept.prems]) (auto simp: sys_upd_defs same_accounts_def)
next
  case (reverseReject agent S service addr ctxErr tcp tcp' sem s)
  then show ?case
    using acceptReverse_effect [OF reverseReject.hyps(3)]
    by (intro policy_start [OF reverseReject.prems, where new = "[]"]) (auto simp: sys_upd_defs same_accounts_def)
next
  case (shutdown S)
  then show ?case
    by (intro policy_start [OF shutdown.prems, where new = "[]"]) (auto simp: sys_upd_defs closeConnections_def)
qed (auto intro: policy_frees)

section \<open>One session per agent\<close>

fun liveConn :: "goroutine \<Rightarrow> (string \<times> connection) option" where
  "liveConn (Announce1 a c) = Some (a, c)"
| "liveConn (Announce2 a c) = Some (a, c)"
| "liveConn (AgentLoop a c) = Some (a, c)"
| "liveConn _ = None"

definition liveFor :: "string \<Rightarrow> goroutine \<Rightarrow> bool" where
  "liveFor a g \<longleftrightarrow> (\<exists>c. liveConn g = Some (a, c))"

text \<open>
  At most one session per agent is alive, and until the shutdown the registry is exactly the
  sessions that are alive.
\<close>

definition sessions :: "sys \<Rightarrow> bool" where
  "sessions S \<longleftrightarrow>
     (\<forall>a. count (liveFor a) (goroutines S) \<le> 1) \<and>
     (if stopped S then conns (srv S) = []
      else \<forall>a c. map_of (conns (srv S)) a = Some c \<longleftrightarrow> (\<exists>g \<in> set (goroutines S). liveConn g = Some (a, c)))"

lemma sessionsD:
  "sessions S \<Longrightarrow> count (liveFor a) (goroutines S) \<le> 1"
  "sessions S \<Longrightarrow> \<not> stopped S \<Longrightarrow> map_of (conns (srv S)) a = Some c \<longleftrightarrow> (\<exists>g \<in> set (goroutines S). liveConn g = Some (a, c))"
  "sessions S \<Longrightarrow> stopped S \<Longrightarrow> conns (srv S) = []"
  by (simp_all add: sessions_def)

lemma ex_update:
  assumes "i < length gs" "P (gs ! i) \<longleftrightarrow> P g"
  shows "(\<exists>x \<in> set (gs[i := g]). P x) \<longleftrightarrow> (\<exists>x \<in> set gs. P x)"
proof -
  have "(\<exists>x \<in> set hs. P x) \<longleftrightarrow> 0 < count P hs" for hs
    by (induction hs) auto
  then show ?thesis using count_update [OF assms(1), of P g] assms(2) by auto
qed

lemma sessions_move:
  assumes "sessions S" "runs S i g" "liveConn g' = liveConn g"
    and "goroutines T = (goroutines S)[i := g']" "stopped T = stopped S" "conns (srv T) = conns (srv S)"
  shows "sessions T"
proof -
  have i: "i < length (goroutines S)" "goroutines S ! i = g" using assms(2) by (auto simp: runs_def)
  have "count (liveFor a) (goroutines T) = count (liveFor a) (goroutines S)" for a
    using count_update [OF i(1), of "liveFor a" g'] assms(3,4) i(2) by (simp add: liveFor_def)
  moreover have "(\<exists>h \<in> set (goroutines T). liveConn h = x) \<longleftrightarrow> (\<exists>h \<in> set (goroutines S). liveConn h = x)" for x
    unfolding assms(4) using i assms(3) by (intro ex_update) auto
  ultimately show ?thesis using assms(1,5,6) by (simp add: sessions_def)
qed

lemma sessions_start:
  assumes "sessions S" "\<And>g. g \<in> set new \<Longrightarrow> liveConn g = None"
    and "goroutines T = goroutines S @ new" "stopped T = stopped S" "conns (srv T) = conns (srv S)"
  shows "sessions T"
proof -
  have "count (liveFor a) new = 0" for a
    using assms(2) by (auto simp: count_def liveFor_def filter_empty_conv)
  then show ?thesis using assms by (auto simp: sessions_def)
qed

lemma sessions_frees:
  assumes "sessions S" "runs S i g" "liveConn g = None"
  shows "sessions (move i Exited (freeProbe S))" "sessions (move i Exited (freeReverse S))"
  using assms(3) by (auto intro!: sessions_move [OF assms(1,2), where g' = Exited] simp: sys_upd_defs)

lemma sessions_admit:
  assumes "sessions S" "\<not> stopped S" "admitConn (nextConn S) tls peer (run S) = (a, r)"
  shows "sessions (start (spawn (nextConn S) a) (S\<lparr>run := r, nextConn := Suc (nextConn S)\<rparr>))"
proof (cases "\<exists>b. a = StartAgent b")
  case True
  then obtain b where a: "a = StartAgent b" by blast
  have fresh: "map_of (conns (srv S)) b = None" and conns: "conns (server r) = AList.update b (nextConn S) (conns (srv S))"
    using assms(3) by (auto simp: a admitConn_def Let_def register_def split: option.splits if_splits)
  have none: "\<not> liveFor b g" if "g \<in> set (goroutines S)" for g
    using sessionsD(2) [OF assms(1,2), of b] fresh that by (auto simp: liveFor_def)
  then have "count (liveFor b) (goroutines S) = 0"
    by (auto simp: count_def filter_empty_conv)
  then show ?thesis
    using assms(1,2) none by (auto simp: sessions_def start_def a conns liveFor_def)
next
  case False
  then have "conns (server r) = conns (srv S)" "\<And>g. g \<in> set (spawn (nextConn S) a) \<Longrightarrow> liveConn g = None"
    using assms(3) by (cases a; auto simp: admitConn_def Let_def register_def split: option.splits if_splits)+
  then show ?thesis by (intro sessions_start [OF assms(1)]) (auto simp: start_def)
qed

lemma sessions_end:
  assumes "sessions S" "runs S i (AgentLoop a c)"
  shows "sessions (move i (Leave1 a c) (setSrv (unregister a c (srv S)) S))"
proof -
  let ?gs = "(goroutines S)[i := Leave1 a c]"
  have i: "i < length (goroutines S)" "goroutines S ! i = AgentLoop a c" using assms(2) by (auto simp: runs_def)
  note cu = count_update [OF i(1), of "liveFor b" "Leave1 a c" for b, unfolded i(2)]
  have dead: "\<not> liveFor b (Leave1 a c)" for b by (simp add: liveFor_def)
  have le: "count (liveFor b) ?gs \<le> 1" for b
    using cu [of b] sessionsD(1) [OF assms(1), of b] dead [of b] by simp
  have "liveFor a (AgentLoop a c)" by (simp add: liveFor_def)
  then have "count (liveFor a) ?gs = 0"
    using cu [of a] sessionsD(1) [OF assms(1), of a] dead [of a] by simp
  then have gone: "\<not> liveFor a g" if "g \<in> set ?gs" for g
    using that by (auto simp: count_def filter_empty_conv)
  have others: "(\<exists>g \<in> set ?gs. liveConn g = Some (b, d)) \<longleftrightarrow> (\<exists>g \<in> set (goroutines S). liveConn g = Some (b, d))"
    if "b \<noteq> a" for b d
    using i that by (intro ex_update) auto
  have reg: "map_of (conns (srv S)) a = Some c" if "\<not> stopped S"
    using sessionsD(2) [OF assms(1) that, of a c] i nth_mem [OF i(1)] by (metis liveConn.simps(3))
  have "map_of (conns (unregister a c (srv S))) b = Some d \<longleftrightarrow> (\<exists>g \<in> set ?gs. liveConn g = Some (b, d))"
    if "\<not> stopped S" for b d
    using sessionsD(2) [OF assms(1) that, of b d] reg [OF that] gone others [of b d]
    by (cases "b = a") (auto simp: unregister_def liveFor_def)
  moreover have "conns (unregister a c (srv S)) = []" if "stopped S"
    using sessionsD(3) [OF assms(1) that] by (simp add: unregister_def)
  ultimately show ?thesis
    using le by (simp add: sessions_def sys_upd_defs)
qed

lemma unregister_other [simp]: "conns (countConn s) = conns s" "conns (markConnected a peer s) = conns s"
  "conns (uncountConn s) = conns s" "conns (markDisconnected a peer s) = conns s"
  by (simp_all add: countConn_def markConnected_def uncountConn_def markDisconnected_def)

lemma next_liveConn [simp]:
  "liveConn (requestNext a g) = None" "liveConn (outcomeNext a t g) = None" "liveConn (replyNext a g) = None"
  "liveConn (probeNext a g) = None" "liveConn (legacyNext a g) = None"
  by (cases g; simp)+

lemma reverse_next_liveConn [simp]:
  "liveConn (lookupNext env a service tcp found) = None" "liveConn (openedNext env a service tcp st) = None"
  "liveConn (exchangeNext env a service tcp rs) = None"
  by (cases found, simp_all) (cases st, simp_all, cases rs, simp_all)

text \<open>Only the end of a session touches the registry.\<close>

lemma gstep_conns:
  "gstep g s g' s' \<Longrightarrow> (conns s' = conns s \<and> liveConn g' = liveConn g) \<or>
     (\<exists>a c. g = AgentLoop a c \<and> g' = Leave1 a c \<and> s' = unregister a c s)"
  by (induction rule: gstep.induct)
    (auto dest: part_outcomes dialsFor_streamRequest(2) dialsFor_probeStream dialsFor_legacy)

lemma sessions_starts:
  "sessions S \<Longrightarrow> liveConn g = None \<Longrightarrow> conns s' = conns (srv S) \<Longrightarrow>
     sessions (start [g] (setSrv s' (S\<lparr>reverseConnections := v\<rparr>)))"
  "sessions S \<Longrightarrow> liveConn g = None \<Longrightarrow> conns s' = conns (srv S) \<Longrightarrow> sessions (start [g] (setSrv s' S))"
  "sessions S \<Longrightarrow> conns s' = conns (srv S) \<Longrightarrow> sessions (setSrv s' (S\<lparr>reverseConnections := v\<rparr>))"
  "sessions S \<Longrightarrow> liveConn g = None \<Longrightarrow> sessions (start [g] S)"
  by (rule sessions_start [where S = S]; simp add: sys_upd_defs; fail)+

lemma sessions_stop: "sessions S \<Longrightarrow> sessions ((setSrv (snd (closeConnections (srv S))) S)\<lparr>stopped := True\<rparr>)"
  by (simp add: sessions_def setSrv_def closeConnections_def)

lemma sessions_step: "sys_step S T \<Longrightarrow> sessions S \<Longrightarrow> sessions T"
proof (induction rule: sys_step.induct)
  case (moves S i g g' s')
  from gstep_conns [OF moves.hyps(2)] show ?case
  proof
    assume "conns s' = conns (srv S) \<and> liveConn g' = liveConn g"
    then show ?thesis by (intro sessions_move [OF moves.prems moves.hyps(1)]) (auto simp: sys_upd_defs)
  next
    assume "\<exists>a c. g = AgentLoop a c \<and> g' = Leave1 a c \<and> s' = unregister a c (srv S)"
    with moves.hyps(1) sessions_end [OF moves.prems] show ?thesis by auto
  qed
next
  case (reverseAccept agent S service addr ctxErr tcp tcp' sem s env)
  then show ?case
    using acceptReverse_effect [OF reverseAccept.hyps(3)] by (intro sessions_starts) auto
next
  case (reverseReject agent S service addr ctxErr tcp tcp' sem s)
  then show ?case
    using acceptReverse_effect [OF reverseReject.hyps(3)] by (intro sessions_starts) auto
qed (auto intro: sessions_admit sessions_frees sessions_starts sessions_stop)

section \<open>Reachable states\<close>

definition serverStarts :: "sys \<Rightarrow> bool" where
  "serverStarts S \<longleftrightarrow> (\<exists>c env config l. sys_init c env config l S)"

definition serverInv :: "sys \<Rightarrow> bool" where
  "serverInv S \<longleftrightarrow> accounts S \<and> policy S \<and> sessions S"

lemma sys_init_fields:
  assumes "sys_init c env config l S"
  shows "goroutines S = []" "stopped S = False" "reverseConnections S = 0"
    "startRun c env (newServer config l New) = Inr (run S)"
  using assms unfolding sys_init_def by (metis sys.select_convs)+

lemma serverInv_init: "serverStarts S \<Longrightarrow> serverInv S"
proof -
  assume "serverStarts S"
  then obtain c env config l where i: "sys_init c env config l S" by (auto simp: serverStarts_def)
  note f = sys_init_fields [OF i] and r = startRun_Inr [OF sys_init_fields(4) [OF i]]
  show ?thesis
    using accounts_init [OF i] r by (auto simp: serverInv_def policy_def sessions_def f newServer_def)
qed

interpretation server: invariant_system serverStarts sys_step serverInv
  using serverInv_init accounts_step policy_step sessions_step
  by unfold_locales (auto simp: serverInv_def)

text \<open>Configuration and authenticator never change while the server runs.\<close>

lemma policy_config: "sys_step S T \<Longrightarrow> cfg (srv T) = cfg (srv S) \<and> authn (run T) = authn (run S)"
proof (induction rule: sys_step.induct)
  case (admit S tls peer a r)
  then show ?case using admitConn_fields [OF admit.hyps(2)] by (simp add: start_def)
next
  case (moves S i g g' s')
  then show ?case using gstep_dials [OF moves.hyps(2)] by (simp add: sys_upd_defs dialsFor_def)
next
  case (reverseAccept agent S service addr ctxErr tcp tcp' sem s env)
  then show ?case using acceptReverse_effect [OF reverseAccept.hyps(3)] by (simp add: sys_upd_defs same_accounts_def)
next
  case (reverseReject agent S service addr ctxErr tcp tcp' sem s)
  then show ?case using acceptReverse_effect [OF reverseReject.hyps(3)] by (simp add: sys_upd_defs same_accounts_def)
qed (auto simp: sys_upd_defs closeConnections_def)

lemma run_config: "sys_step\<^sup>*\<^sup>* S T \<Longrightarrow> cfg (srv T) = cfg (srv S) \<and> authn (run T) = authn (run S)"
  by (induction rule: rtranclp_induct) (auto dest: policy_config)

section \<open>A reconnect that overtakes a disconnect\<close>

text \<open>The visible part of the state that the session steps change.\<close>

definition session :: "sys \<Rightarrow> goroutine list \<Rightarrow> connection gomap \<Rightarrow> bool gomap \<Rightarrow> bool" where
  "session S gs cs ags \<longleftrightarrow> goroutines S = gs \<and> conns (srv S) = cs \<and> agentsOf (metrics (srv S)) = ags \<and> \<not> stopped S"

lemma session_admit:
  assumes "session S gs cs ags" "map_of cs a = None"
    and tls: "ClientIDForTLSState (ClientByPublicKey (authn (run S))) tls = Some a"
      "ServerName tls \<noteq> ProbeServerNameForClient a"
  shows "\<exists>T. sys_step S T \<and> session T (gs @ [Announce1 a (nextConn S)]) (AList.update a (nextConn S) cs) ags \<and>
    authn (run T) = authn (run S)"
proof -
  obtain r where r: "admitConn (nextConn S) tls [] (run S) = (StartAgent a, r)"
    and f: "conns (server r) = AList.update a (nextConn S) cs" "metrics (server r) = metrics (srv S)" "authn r = authn (run S)"
    using assms by (auto simp: admitConn_def Let_def register_def session_def)
  let ?T = "start (spawn (nextConn S) (StartAgent a)) (S\<lparr>run := r, nextConn := Suc (nextConn S)\<rparr>)"
  have "sys_step S ?T"
    using sys_step.admit [OF _ r] assms(1) by (simp add: session_def)
  moreover have "session ?T (gs @ [Announce1 a (nextConn S)]) (AList.update a (nextConn S) cs) ags" "authn (run ?T) = authn (run S)"
    using assms(1) f by (auto simp: session_def start_def)
  ultimately show ?thesis by blast
qed

lemma session_moves:
  assumes "session S gs cs ags" "i < length gs"
  shows "gs ! i = Announce1 a c \<Longrightarrow> \<exists>T. sys_step S T \<and> session T (gs[i := Announce2 a c]) cs ags \<and> authn (run T) = authn (run S)"
    and "gs ! i = Announce2 a c \<Longrightarrow>
      \<exists>T. sys_step S T \<and> session T (gs[i := AgentLoop a c]) cs (AList.update a True ags) \<and> authn (run T) = authn (run S)"
    and "gs ! i = AgentLoop a c \<Longrightarrow> map_of cs a = Some c \<Longrightarrow>
      \<exists>T. sys_step S T \<and> session T (gs[i := Leave1 a c]) (AList.delete a cs) ags \<and> authn (run T) = authn (run S)"
    and "gs ! i = Leave1 a c \<Longrightarrow> \<exists>T. sys_step S T \<and> session T (gs[i := Leave2 a c]) cs ags \<and> authn (run T) = authn (run S)"
    and "gs ! i = Leave2 a c \<Longrightarrow>
      \<exists>T. sys_step S T \<and> session T (gs[i := Exited]) cs (AList.update a False ags) \<and> authn (run T) = authn (run S)"
proof -
  have at: "runs S i g" if "gs ! i = g" for g using assms that by (simp add: runs_def session_def)
  note defs = session_def sys_upd_defs countConn_def markConnected_def unregister_def uncountConn_def
    markDisconnected_def agentsOf_def Add_def
  show "\<exists>T. sys_step S T \<and> session T (gs[i := Announce2 a c]) cs ags \<and> authn (run T) = authn (run S)"
    if "gs ! i = Announce1 a c"
    by (rule exI, rule conjI, rule sys_step.moves [OF at [OF that] gstep.announce1], use assms(1) in \<open>auto simp: defs\<close>)
  show "\<exists>T. sys_step S T \<and> session T (gs[i := AgentLoop a c]) cs (AList.update a True ags) \<and> authn (run T) = authn (run S)"
    if "gs ! i = Announce2 a c"
    by (rule exI, rule conjI, rule sys_step.moves [OF at [OF that] gstep.announce2], use assms(1) in \<open>auto simp: defs SetAgentConnected_def\<close>)
  show "\<exists>T. sys_step S T \<and> session T (gs[i := Leave1 a c]) (AList.delete a cs) ags \<and> authn (run T) = authn (run S)"
    if "gs ! i = AgentLoop a c" "map_of cs a = Some c"
    by (rule exI, rule conjI, rule sys_step.moves [OF at [OF that(1)] gstep.agentEnds], use assms(1) that(2) in \<open>auto simp: defs\<close>)
  show "\<exists>T. sys_step S T \<and> session T (gs[i := Leave2 a c]) cs ags \<and> authn (run T) = authn (run S)"
    if "gs ! i = Leave1 a c"
    by (rule exI, rule conjI, rule sys_step.moves [OF at [OF that] gstep.leave1], use assms(1) in \<open>auto simp: defs\<close>)
  show "\<exists>T. sys_step S T \<and> session T (gs[i := Exited]) cs (AList.update a False ags) \<and> authn (run T) = authn (run S)"
    if "gs ! i = Leave2 a c"
    by (rule exI, rule conjI, rule sys_step.moves [OF at [OF that] gstep.leave2], use assms(1) in \<open>auto simp: defs SetAgentConnected_def\<close>)
qed

lemma overtaken:
  assumes "session S [] [] ags"
    and tls: "ClientIDForTLSState (ClientByPublicKey (authn (run S))) tls = Some a"
      "ServerName tls \<noteq> ProbeServerNameForClient a"
  shows "\<exists>T d. sys_step\<^sup>*\<^sup>* S T \<and> session T [Exited, AgentLoop a d] [(a, d)]
    (AList.update a False (AList.update a True (AList.update a True ags)))"
proof -
  define c where "c = nextConn S"
  obtain S1 where 1: "sys_step S S1" "session S1 [Announce1 a c] [(a, c)] ags" "authn (run S1) = authn (run S)"
    using session_admit [OF assms(1) _ tls] by (auto simp: c_def)
  obtain S2 where 2: "sys_step S1 S2" "session S2 [Announce2 a c] [(a, c)] ags" "authn (run S2) = authn (run S)"
    using session_moves(1) [OF 1(2), of 0 a c] 1(3) by auto
  obtain S3 where 3: "sys_step S2 S3" "session S3 [AgentLoop a c] [(a, c)] (AList.update a True ags)"
      "authn (run S3) = authn (run S)"
    using session_moves(2) [OF 2(2), of 0 a c] 2(3) by auto
  obtain S4 where 4: "sys_step S3 S4" "session S4 [Leave1 a c] [] (AList.update a True ags)" "authn (run S4) = authn (run S)"
    using session_moves(3) [OF 3(2), of 0 a c] 3(3) by auto
  define d where "d = nextConn S4"
  obtain S5 where 5: "sys_step S4 S5" "session S5 [Leave1 a c, Announce1 a d] [(a, d)] (AList.update a True ags)"
      "authn (run S5) = authn (run S)"
    using session_admit [OF 4(2), of a tls] 4(3) tls by (auto simp: d_def)
  obtain S6 where 6: "sys_step S5 S6" "session S6 [Leave1 a c, Announce2 a d] [(a, d)] (AList.update a True ags)"
    using session_moves(1) [OF 5(2), of 1 a d] by auto
  obtain S7 where 7: "sys_step S6 S7"
      "session S7 [Leave1 a c, AgentLoop a d] [(a, d)] (AList.update a True (AList.update a True ags))"
    using session_moves(2) [OF 6(2), of 1 a d] by auto
  obtain S8 where 8: "sys_step S7 S8"
      "session S8 [Leave2 a c, AgentLoop a d] [(a, d)] (AList.update a True (AList.update a True ags))"
    using session_moves(4) [OF 7(2), of 0 a c] by auto
  obtain S9 where 9: "sys_step S8 S9"
      "session S9 [Exited, AgentLoop a d] [(a, d)] (AList.update a False (AList.update a True (AList.update a True ags)))"
    using session_moves(5) [OF 8(2), of 0 a c] by auto
  have "sys_step\<^sup>*\<^sup>* S S9"
    using 1(1) 2(1) 3(1) 4(1) 5(1) 6(1) 7(1) 8(1) 9(1) by (meson r_into_rtranclp rtranclp.rtrancl_into_rtrancl)
  with 9(2) show ?thesis by blast
qed

lemma server_dials:
  assumes "sys_init c env config l S0" "sys_step\<^sup>*\<^sup>* S0 S"
  shows "dials (srv S) = count holdsDial (goroutines S)" "cfg (srv S) = srvApplyDefaults config"
proof -
  have "serverStarts S0" using assms(1) by (auto simp: serverStarts_def)
  from server.reachable_inv [OF this assms(2)] show "dials (srv S) = count holdsDial (goroutines S)"
    by (simp add: serverInv_def accounts_def acct_def)
  show "cfg (srv S) = srvApplyDefaults config"
    using run_config [OF assms(2)] startRun_Inr [OF sys_init_fields(4) [OF assms(1)]] by (simp add: newServer_def)
qed

section \<open>A sample server\<close>

definition sampleRun :: Run where
  "sampleRun = projr (startRun sample_crypto sampleOS sampleServer)"

definition sampleSys :: sys where
  "sampleSys = \<lparr>run = sampleRun, reverseConnections = 0, goroutines = [], nextConn = 0, stopped = False\<rparr>"

lemma sampleCfg_defaults: "srvApplyDefaults sampleCfg = sampleCfg"
  by (simp add: srvApplyDefaults_def sampleCfg_def orDefault_def)

lemma sampleSys_init: "sys_init sample_crypto sampleOS sampleCfg (NewForWriter ''text'' ''error'' []) sampleSys"
proof -
  note cfg = sampleCfg_defaults
  have valid: "srvValidateConfig sampleCfg = Inr ()" by code_simp
  have load: "loadClients sampleOS (sAgents sampleCfg) = Inr [\<lparr>ID = ''a'', ClientSecret = sampleSecret\<rparr>]"
    by (simp add: sampleCfg_def sampleOS_loads)
  have "is_ok (MultiClientTLSConfig sample_crypto [\<lparr>ID = ''a'', ClientSecret = sampleSecret\<rparr>])"
    by (simp add: MultiClient_is_ok [OF sample_crypto_ok])
  then have "is_ok (startRun sample_crypto sampleOS sampleServer)"
    by (auto simp: startRun_def Let_def sampleServer_def newServer_def cfg valid load is_ok_iff)
  then show ?thesis
    by (auto simp: sys_init_def sampleSys_def sampleRun_def sampleServer_def is_ok_iff)
qed

lemma sampleSys_known: "\<exists>tls. ClientIDForTLSState (ClientByPublicKey (authn (run sampleSys))) tls = Some ''a'' \<and>
    ServerName tls = ''a.mule-exit''"
proof -
  obtain clients where c: "loadClients sampleOS (sAgents sampleCfg) = Inr clients"
      "MultiClientTLSConfig sample_crypto clients = Inr (authn (run sampleSys))"
    using startRun_Inr [OF sys_init_fields(4) [OF sampleSys_init]] by (auto simp: newServer_def)
  then have "clients = [\<lparr>ID = ''a'', ClientSecret = sampleSecret\<rparr>]"
    by (simp add: sampleCfg_def sampleOS_loads)
  then have "ClientIDForTLSState (ClientByPublicKey (authn (run sampleSys)))
      (sample_state (fwdKey sample_crypto sampleSecret)) = Some ''a''"
    using identify_iff [OF sample_crypto_ok c(2), of "sample_state (fwdKey sample_crypto sampleSecret)"]
    by (simp add: sample_state_def)
  then show ?thesis by (intro exI conjI) (auto simp: sample_state_def)
qed

lemma sampleSys_session: "session sampleSys [] [] (agentsOf (metrics (srv sampleSys)))"
  using startRun_Inr [OF sys_init_fields(4) [OF sampleSys_init]]
  by (auto simp: session_def sampleSys_def newServer_def)

lemma sampleSys_tls: "\<exists>tls. ClientIDForTLSState (ClientByPublicKey (authn (run sampleSys))) tls = Some ''a'' \<and>
    ServerName tls \<noteq> ProbeServerNameForClient ''a''"
  using sampleSys_known by (auto simp: ProbeServerNameForClient_def ProbeServerName_def)

text \<open>The sample server serves a session of its agent, and a stream of it waits for the request.\<close>

lemma sampleSys_waiting:
  "\<exists>S k. sys_step\<^sup>*\<^sup>* sampleSys S \<and> goroutines S = [Exited, AgentLoop ''a'' k, StreamWait ''a'' st]"
proof -
  obtain tls where tls: "ClientIDForTLSState (ClientByPublicKey (authn (run sampleSys))) tls = Some ''a''"
      "ServerName tls \<noteq> ProbeServerNameForClient ''a''"
    using sampleSys_tls by blast
  obtain S k where S: "sys_step\<^sup>*\<^sup>* sampleSys S" "goroutines S = [Exited, AgentLoop ''a'' k]"
    using overtaken [OF sampleSys_session tls] by (auto simp: session_def)
  let ?T = "start [StreamStart ''a'' st] (setSrv (logS (Debug ''stream_accepted'' (base ''a'')) (srv S)) S)"
  let ?U = "move 2 (StreamWait ''a'' st) (setSrv (streamEnter (srv ?T)) ?T)"
  have "runs S 1 (AgentLoop ''a'' k)" "runs ?T 2 (StreamStart ''a'' st)"
    using S(2) by (simp_all add: runs_def sys_upd_defs)
  then have "sys_step S ?T" "sys_step ?T ?U"
    by (auto intro: sys_step.acceptStream sys_step.moves gstep.entered)
  with S(1) have "sys_step\<^sup>*\<^sup>* sampleSys ?U" by (meson rtranclp.rtrancl_into_rtrancl)
  moreover have "goroutines ?U = [Exited, AgentLoop ''a'' k, StreamWait ''a'' st]"
    using S(2) by (simp add: sys_upd_defs)
  ultimately show ?thesis by blast
qed

section \<open>Properties\<close>

text \<open>C3: In every state the server can reach, the slots taken of its three semaphores are exactly the
  goroutines that hold them and stay within the configured limits (pending dials, probe
  connections, reverse connections), and each of the three gauges is, modulo \<open>2\<^sup>6\<^sup>4\<close>, the number of
  goroutines that have raised it and not yet lowered it: the streams from their acceptance (while the
  request is still awaited) or opening on, the TCP connections from the accept or the successful dial
  on, and the agent connections. Every raising, lowering, taking and giving back is a step of its own,
  so this includes the states in which goroutines wait half-way through a handler.\<close>

theorem server_limits:
  assumes "sys_init c env config l S0" "sys_step\<^sup>*\<^sup>* S0 S"
  shows "let gs = goroutines S; m = metrics (srv S); lim = srvApplyDefaults config in
    dials (srv S) = count holdsDial gs \<and> int (dials (srv S)) \<le> sMaxPendingDials lim \<and>
    probes (run S) = count holdsProbe gs \<and> int (probes (run S)) \<le> sMaxPendingDials lim \<and>
    reverseConnections S = count holdsReverse gs \<and> int (reverseConnections S) \<le> sMaxStreams lim \<and>
    ActiveQUICStreams m = of_nat (count activeStream gs) \<and>
    ActiveTCPConnections m = of_nat (count activeTCP gs) \<and>
    QUICConnections m = of_nat (count countedConn gs)"
proof -
  have "serverStarts S0" using assms(1) by (auto simp: serverStarts_def)
  from server.reachable_inv [OF this assms(2)] have "accounts S" by (simp add: serverInv_def)
  moreover have "cfg (srv S) = srvApplyDefaults config"
    using run_config [OF assms(2)] startRun_Inr [OF sys_init_fields(4) [OF assms(1)]] by (simp add: newServer_def)
  ultimately show ?thesis by (simp add: accounts_def acct_def Let_def)
qed

theorem server_limits_witness:
  "\<exists>S k st. sys_step\<^sup>*\<^sup>* sampleSys S \<and> goroutines S = [Exited, AgentLoop ''a'' k, StreamWait ''a'' st] \<and>
    ActiveQUICStreams (metrics (srv S)) = 1 \<and> ActiveTCPConnections (metrics (srv S)) = 0 \<and>
    QUICConnections (metrics (srv S)) = 1 \<and> dials (srv S) = 0"
proof -
  obtain S k where S: "sys_step\<^sup>*\<^sup>* sampleSys S" "goroutines S = [Exited, AgentLoop ''a'' k, StreamWait ''a'' (sampleStream [])]"
    using sampleSys_waiting by blast
  from server_limits [OF sampleSys_init S(1)] S show ?thesis by (auto simp: Let_def)
qed

text \<open>C4: Whatever the peers send, agents are kept apart: the server dials an address on behalf of an agent
  only if the configuration of that very agent has it as the target of a forward service, and the
  agent's key is in the authenticator's table. This holds for every address handed to the dialler
  in any reachable state, under any interleaving of the goroutines.\<close>

theorem server_dials_only_configured:
  assumes "sys_init c env config l S0" "sys_step\<^sup>*\<^sup>* S0 S" "(agentID, t) \<in> set (dialed (srv S))"
  shows "known (run S) agentID \<and>
    (\<exists>agent \<in> set (sAgents config). sAgentID agent = agentID \<and> (\<exists>service. map_of (sForward agent) service = Some t))"
proof -
  have "serverStarts S0" using assms(1) by (auto simp: serverStarts_def)
  from server.reachable_inv [OF this assms(2)] have "policy S" by (simp add: serverInv_def)
  then obtain service where a: "known (run S) agentID" "forwardTarget (cfg (srv S)) agentID service = Some t"
    using assms(3) by (auto simp: policy_def)
  have cfg: "cfg (srv S) = srvApplyDefaults config" "srvValidateConfig (srvApplyDefaults config) = Inr ()"
    using run_config [OF assms(2)] startRun_Inr [OF sys_init_fields(4) [OF assms(1)]] by (simp_all add: newServer_def)
  then show ?thesis
    using a forwardTarget_iff [of "srvApplyDefaults config" agentID service t]
    by (auto simp: srvValidateConfig_iff srvApplyDefaults_def)
qed

theorem server_dials_only_configured_witness:
  "\<exists>S. sys_step\<^sup>*\<^sup>* sampleSys S \<and> (''a'', ''h:80'') \<in> set (dialed (srv S)) \<and> known (run S) ''a'' \<and>
    (\<exists>agent \<in> set (sAgents sampleCfg). sAgentID agent = ''a'' \<and> (\<exists>service. map_of (sForward agent) service = Some ''h:80''))"
proof -
  define st where "st = sampleStream [frameBytes sampleOpen @ []]"
  obtain T k where T: "sys_step\<^sup>*\<^sup>* sampleSys T" "goroutines T = [Exited, AgentLoop ''a'' k, StreamWait ''a'' st]"
    using sampleSys_waiting by blast
  then have idle: "dials (srv T) = 0" "cfg (srv T) = sampleCfg"
    using server_dials [OF sampleSys_init T(1)] by (simp_all add: sampleCfg_defaults)
  obtain st1 where r: "request sampleEnv (srv T) st = (Inr sampleOpen, st1)"
    using request_sample unfolding st_def by blast
  have v: "verdict (cfg (srv T)) (dialsFull (srv T)) ''a'' (Inr sampleOpen) = DialOpen ''h:80''"
    unfolding idle dialsFull_def by (simp add: verdict_def sampleOpen_def zeroFrame_def sampleCfg_def forwardTarget_def)
  obtain s' where b: "streamRequest sampleEnv ''a'' st (srv T) = (Dialing ''h:80'' sampleOpen st1, s')"
      "(''a'', ''h:80'') \<in> set (dialed s')"
    using streamRequest_stage [OF r, of "''a''"] unfolding v by auto
  define U where "U = move 2 (requestNext ''a'' (Dialing ''h:80'' sampleOpen st1)) (setSrv s' T)"
  have "runs T 2 (StreamWait ''a'' st)" using T(2) by (simp add: runs_def)
  then have "sys_step T U" unfolding U_def by (rule sys_step.moves [OF _ gstep.requested [OF b(1)]])
  with T(1) have U: "sys_step\<^sup>*\<^sup>* sampleSys U" by (rule rtranclp.rtrancl_into_rtrancl)
  have d: "(''a'', ''h:80'') \<in> set (dialed (srv U))" using b(2) by (simp add: U_def move_def setSrv_def)
  from server_dials_only_configured [OF sampleSys_init U d] U d show ?thesis by blast
qed

text \<open>C8: At most one session per agent is alive at any time, and until the server shuts down its
  registry holds exactly the sessions that are alive.\<close>

theorem one_session_per_agent:
  assumes "sys_init c env config l S0" "sys_step\<^sup>*\<^sup>* S0 S"
  shows "count (liveFor a) (goroutines S) \<le> 1 \<and>
    (\<not> stopped S \<longrightarrow> connOf a (srv S) = Some k \<longleftrightarrow> (\<exists>g \<in> set (goroutines S). liveConn g = Some (a, k)))"
proof -
  have "serverStarts S0" using assms(1) by (auto simp: serverStarts_def)
  from server.reachable_inv [OF this assms(2)] have "sessions S" by (simp add: serverInv_def)
  then show ?thesis using sessionsD by (auto simp: connOf_def)
qed

theorem one_session_per_agent_witness:
  "\<exists>S. sys_step\<^sup>*\<^sup>* sampleSys S \<and> count (liveFor ''a'') (goroutines S) \<le> 1 \<and> connOf ''a'' (srv S) = Some 0"
proof -
  obtain tls where tls: "ClientIDForTLSState (ClientByPublicKey (authn (run sampleSys))) tls = Some ''a''"
      "ServerName tls \<noteq> ProbeServerNameForClient ''a''"
    using sampleSys_tls by blast
  obtain S where S: "sys_step sampleSys S" "connOf ''a'' (srv S) = Some 0"
    using session_admit [OF sampleSys_session _ tls] by (auto simp: session_def connOf_def sampleSys_def)
  then have "sys_step\<^sup>*\<^sup>* sampleSys S" by blast
  with one_session_per_agent [OF sampleSys_init this, of "''a''"] S(2) show ?thesis by blast
qed

text \<open>C38: When an agent reconnects while the goroutine of its previous connection has unregistered it but not
  yet reported the disconnect, the late report overwrites the new one: the server can reach a state
  in which the agent is registered and being served, nothing else is pending, and the status says it
  is not connected.\<close>

theorem status_overtaken:
  assumes "sys_init c env config l S0"
    and "ClientIDForTLSState (ClientByPublicKey (authn (run S0))) tls = Some a"
    and "ServerName tls = ExitServerNameForClient a" "clientIDPattern a"
  shows "\<exists>S k. sys_step\<^sup>*\<^sup>* S0 S \<and> goroutines S = [Exited, AgentLoop a k] \<and> connOf a (srv S) = Some k \<and>
    a \<notin> set (ConnectedAgents (StatusOf (metrics (srv S))))"
proof -
  define ags where "ags = agentsOf (ConfigureServer (map sAgentID (sAgents config)) New)"
  have init: "session S0 [] [] ags"
    using startRun_Inr [OF sys_init_fields(4) [OF assms(1)]] sys_init_fields [OF assms(1)]
    by (simp add: session_def newServer_def ags_def)
  have "ServerName tls \<noteq> ProbeServerNameForClient a"
    using server_names_distinct(3) [OF assms(4) assms(4)] assms(3) by simp
  from overtaken [OF init assms(2) this] obtain S k where S: "sys_step\<^sup>*\<^sup>* S0 S"
    "session S [Exited, AgentLoop a k] [(a, k)] (AList.update a False (AList.update a True (AList.update a True ags)))"
      (is "session S _ _ ?ags")
    by (elim exE conjE) (rule that)
  have "wf_map ?ags" "map_of ?ags a = Some False" by (simp_all add: wf_ConfigureServer ags_def)
  then have "(a, True) \<notin> set ?ags" using map_of_wf_iff [of ?ags a True] by simp
  then have "a \<notin> set (ConnectedAgents (StatusOf (metrics (srv S))))"
    using S(2) by (auto simp: StatusOf_def Let_def session_def)
  with S show ?thesis by (auto simp: session_def connOf_def)
qed

theorem status_overtaken_witness:
  "\<exists>S k. sys_step\<^sup>*\<^sup>* sampleSys S \<and> goroutines S = [Exited, AgentLoop ''a'' k] \<and> connOf ''a'' (srv S) = Some k \<and>
    ''a'' \<notin> set (ConnectedAgents (StatusOf (metrics (srv S))))"
proof -
  obtain tls where "ClientIDForTLSState (ClientByPublicKey (authn (run sampleSys))) tls = Some ''a''"
      "ServerName tls = ExitServerNameForClient ''a''"
    using sampleSys_known by (auto simp: ExitServerNameForClient_def ExitServerName_def)
  moreover have "clientIDPattern ''a''" by code_simp
  ultimately show ?thesis by (rule status_overtaken [OF sampleSys_init])
qed

end
