(* ===== verification/Agent_Config.thy ===== *)
theory Agent_Config
  imports File_Config
begin

text \<open>
  The configuration of the agent (\<open>internal/agent/agent.go\<close>): its types, \<open>LoadConfig\<close>,
  \<open>ApplyDefaults\<close> and \<open>ValidateConfig\<close>, and the characterisation of what the validation
  accepts. \<open>Forward\<close> maps a service to the address on which the agent listens, \<open>Reverse\<close>
  maps a service to the target that the agent dials.
\<close>

section \<open>Types\<close>

record AgtConfig =
  aServer :: string
  aAgentID :: string
  aSecretFile :: string
  aForward :: "string gomap"
  aReverse :: "string gomap"
  aConnectTimeout :: duration
  aHandshakeTimeout :: duration
  aIdleTimeout :: duration
  aMaxConnections :: int
  aKeepAlive :: duration
  aReconnectDelay :: duration
  aSendClientAddr :: bool

record AgtFileConfig =
  afServer :: string
  afAgentID :: string
  afSecretFile :: string
  afForward :: "string gomap"
  afReverse :: "string gomap"
  afConnectTimeout :: string
  afHandshakeTimeout :: string
  afIdleTimeout :: string
  afMaxConnections :: int
  afKeepAlive :: string
  afReconnectDelay :: string
  afSendClientAddr :: bool

datatype agt_config_error =
    RequiredFields
  | NoServices
  | ReconnectDelayNotPositive
  | AgtTimeoutsNotPositive
  | MaxConnectionsNotPositive
  | BadAgtField config_error

section \<open>Loading\<close>

definition agtApplyDefaults :: "AgtConfig \<Rightarrow> AgtConfig" where
  "agtApplyDefaults cfg = cfg\<lparr>
     aConnectTimeout := orDefault (aConnectTimeout cfg) (10 * Second),
     aHandshakeTimeout := orDefault (aHandshakeTimeout cfg) (10 * Second),
     aIdleTimeout := orDefault (aIdleTimeout cfg) (5 * Minute),
     aMaxConnections := orDefault (aMaxConnections cfg) 100,
     aKeepAlive := orDefault (aKeepAlive cfg) (20 * Second),
     aReconnectDelay := orDefault (aReconnectDelay cfg) Second\<rparr>"

definition agtLoadConfig :: "(string \<Rightarrow> 'y yaml_error + (AgtFileConfig \<times> 'r)) \<Rightarrow> ('r \<Rightarrow> 'y yaml_error + unit) \<Rightarrow>
    os \<Rightarrow> string \<Rightarrow> 'y load_error + AgtConfig" where
  "agtLoadConfig decode1 decode2 env path =
     (case ReadFile env path of
        None \<Rightarrow> Inl (ReadFailed path)
      | Some data \<Rightarrow>
          bind_result (map_error DecodeFailed (DecodeYAMLStrict decode1 decode2 data)) (\<lambda>fc.
          bind_result (optDuration (afConnectTimeout fc)) (\<lambda>connect.
          bind_result (optDuration (afHandshakeTimeout fc)) (\<lambda>handshake.
          bind_result (optDuration (afIdleTimeout fc)) (\<lambda>idle.
          bind_result (optDuration (afKeepAlive fc)) (\<lambda>keepalive.
          bind_result (optDuration (afReconnectDelay fc)) (\<lambda>reconnect.
            Inr (agtApplyDefaults \<lparr>aServer = afServer fc, aAgentID = afAgentID fc,
              aSecretFile = afSecretFile fc, aForward = afForward fc, aReverse = afReverse fc,
              aConnectTimeout = connect, aHandshakeTimeout = handshake, aIdleTimeout = idle,
              aMaxConnections = afMaxConnections fc, aKeepAlive = keepalive,
              aReconnectDelay = reconnect, aSendClientAddr = afSendClientAddr fc\<rparr>))))))))"

section \<open>Validation\<close>

definition checkAgtForward :: "string \<times> string \<Rightarrow> agt_config_error + unit" where
  "checkAgtForward = (\<lambda>(service, addr).
     bind_result (map_error BadAgtField (ValidateRouteID service)) (\<lambda>_.
       map_error BadAgtField (ValidateListenAddress addr)))"

definition checkAgtReverse :: "string \<times> string \<Rightarrow> agt_config_error + unit" where
  "checkAgtReverse = (\<lambda>(service, addr).
     bind_result (map_error BadAgtField (ValidateRouteID service)) (\<lambda>_.
       map_error BadAgtField (ValidateTCPAddress addr)))"

definition agtValidateConfig :: "AgtConfig \<Rightarrow> agt_config_error + unit" where
  "agtValidateConfig cfg =
     (if aServer cfg = [] \<or> aAgentID cfg = [] \<or> aSecretFile cfg = [] then Inl RequiredFields
      else
        bind_result (map_error BadAgtField (ValidateUDPAddress (aServer cfg))) (\<lambda>_.
        bind_result (map_error BadAgtField (ValidateClientID (aAgentID cfg))) (\<lambda>_.
        if length (aForward cfg) = 0 \<and> length (aReverse cfg) = 0 then Inl NoServices
        else if aReconnectDelay cfg \<le> 0 then Inl ReconnectDelayNotPositive
        else if aConnectTimeout cfg \<le> 0 \<or> aHandshakeTimeout cfg \<le> 0 \<or> aIdleTimeout cfg \<le> 0 \<or> aKeepAlive cfg \<le> 0
        then Inl AgtTimeoutsNotPositive
        else if aMaxConnections cfg \<le> 0 then Inl MaxConnectionsNotPositive
        else
          bind_result (each checkAgtForward (aForward cfg)) (\<lambda>_.
            each checkAgtReverse (aReverse cfg)))))"

section \<open>Lemmas\<close>

lemma checkAgtForward_iff [result_iff]:
  "checkAgtForward e = Inr u \<longleftrightarrow> routeIDPattern (fst e) \<and> ValidateListenAddress (snd e) = Inr ()"
  by (cases e) (auto simp: checkAgtForward_def result_iff)

lemma checkAgtReverse_iff [result_iff]:
  "checkAgtReverse e = Inr u \<longleftrightarrow> routeIDPattern (fst e) \<and> ValidateTCPAddress (snd e) = Inr ()"
  by (cases e) (auto simp: checkAgtReverse_def result_iff)

lemma agtValidateConfig_iff: "agtValidateConfig cfg = Inr () \<longleftrightarrow>
    ValidateUDPAddress (aServer cfg) = Inr () \<and> clientIDPattern (aAgentID cfg) \<and> aSecretFile cfg \<noteq> [] \<and>
    (aForward cfg \<noteq> [] \<or> aReverse cfg \<noteq> []) \<and>
    0 < aReconnectDelay cfg \<and> 0 < aConnectTimeout cfg \<and> 0 < aHandshakeTimeout cfg \<and> 0 < aIdleTimeout cfg \<and>
    0 < aKeepAlive cfg \<and> 0 < aMaxConnections cfg \<and>
    (\<forall>(service, addr) \<in> set (aForward cfg). routeIDPattern service \<and> ValidateListenAddress addr = Inr ()) \<and>
    (\<forall>(service, addr) \<in> set (aReverse cfg). routeIDPattern service \<and> ValidateTCPAddress addr = Inr ())"
  using validateHostPort_nonempty [of "[]" True] pattern_nonempty(2) [of "[]"]
  by (auto simp: agtValidateConfig_def result_iff ValidateUDPAddress_def pattern_nonempty split: if_splits)

text \<open>Defaults fill in what is zero and keep the rest, so applying them again changes nothing.\<close>

lemma agtApplyDefaults_idem [simp]: "agtApplyDefaults (agtApplyDefaults cfg) = agtApplyDefaults cfg"
  by (simp add: agtApplyDefaults_def)

end
