(* ===== verification/Agent.thy ===== *)
theory Agent
  imports Agent_Config Identity Handlers Metrics
begin

text \<open>
  The agent of \<open>internal/agent/agent.go\<close>: the connection it keeps to the server, the reconnect
  loop and its backoff, and the handlers of forwarded and reverse connections. As for the server, a
  handler is cut where it waits (for the response to its OPEN, for a dial, for the copy), the
  whole handler is the composition, and \<open>Agent_Lifecycle\<close> interleaves the parts. \<open>adialed\<close>
  records the addresses given to \<open>DialContext\<close>.
\<close>

section \<open>State\<close>

record Agent =
  acfg :: AgtConfig
  asecret :: bytes
  alog :: Logger
  ametrics :: Metrics
  aconn :: "connection option"
  adialed :: "string list"

definition newAgent :: "AgtConfig \<Rightarrow> bytes \<Rightarrow> Logger \<Rightarrow> Metrics \<Rightarrow> Agent" where
  "newAgent c secret l m =
     \<lparr>acfg = c, asecret = secret, alog = l, ametrics = m, aconn = None, adialed = []\<rparr>"

definition logA :: "(Logger \<Rightarrow> Logger) \<Rightarrow> Agent \<Rightarrow> Agent" where
  "logA f a = a\<lparr>alog := f (alog a)\<rparr>"

definition addA :: "((64 word \<Rightarrow> 64 word) \<Rightarrow> Metrics \<Rightarrow> Metrics) \<Rightarrow> 64 word \<Rightarrow> Agent \<Rightarrow> Agent" where
  "addA upd d a = a\<lparr>ametrics := Add upd d (ametrics a)\<rparr>"

text \<open>The fields that every event of the agent starts with.\<close>

definition abase :: "Agent \<Rightarrow> any list" where
  "abase a = [str ''role'', str ''agent'', str ''agent_id'', str (aAgentID (acfg a))]"

definition peerField :: "Agent \<Rightarrow> any list" where
  "peerField a = [str ''peer_address'', str (aServer (acfg a))]"

section \<open>Reconnect delay\<close>

text \<open>\<open>time.Duration\<close> is an \<open>int64\<close>: the product wraps around.\<close>

definition int64 :: "int \<Rightarrow> int" where
  "int64 x = (x + 2 ^ 63) mod 2 ^ 64 - 2 ^ 63"

definition maxReconnectDelay :: duration where "maxReconnectDelay = Minute"

definition stableConnectionMinimum :: duration where "stableConnectionMinimum = Minute"

text \<open>The limit is at least a minute, so Go's truncating division of it is \<open>div\<close>.\<close>

definition nextReconnectDelay :: "duration \<Rightarrow> duration \<Rightarrow> duration" where
  "nextReconnectDelay current base_delay =
     (let limit = (if base_delay > maxReconnectDelay then base_delay else maxReconnectDelay) in
      if current \<ge> limit \<or> current > limit div 2 then limit else int64 (current * 2))"

text \<open>Which of the two channels of the \<open>select\<close> was ready.\<close>

datatype wake = Cancelled | TimerFired

definition waitForReconnect :: "wake \<Rightarrow> bool" where
  "waitForReconnect w = (case w of Cancelled \<Rightarrow> False | TimerFired \<Rightarrow> True)"

section \<open>The connection to the server\<close>

text \<open>
  \<open>quic.DialAddr\<close> is the parameter \<open>quicDial\<close>: it is given the address, the TLS configuration and
  the timeouts, and yields a connection or the text of an error.
\<close>

record quic_config =
  HandshakeIdleTimeout :: duration
  MaxIdleTimeout :: duration
  KeepAlivePeriod :: duration

datatype dial_error = DialTLS auth_error | DialQUIC string

definition dial :: "crypto \<Rightarrow> (string \<Rightarrow> tls_config \<Rightarrow> quic_config \<Rightarrow> string + connection) \<Rightarrow> Agent \<Rightarrow>
    dial_error + connection" where
  "dial c quicDial a =
     bind_result (map_error DialTLS
       (TLSConfigWithServerName c (asecret a) RoleForward (ExitServerNameForClient (aAgentID (acfg a))))) (\<lambda>tlsCfg.
     map_error DialQUIC (quicDial (aServer (acfg a)) tlsCfg
       \<lparr>HandshakeIdleTimeout = aHandshakeTimeout (acfg a), MaxIdleTimeout = aIdleTimeout (acfg a),
        KeepAlivePeriod = aKeepAlive (acfg a)\<rparr>))"

definition setConn :: "connection \<Rightarrow> Agent \<Rightarrow> Agent" where
  "setConn c a = a\<lparr>aconn := Some c\<rparr>"

definition clearConn :: "connection \<Rightarrow> Agent \<Rightarrow> Agent" where
  "clearConn c a = (if aconn a = Some c then a\<lparr>aconn := None\<rparr> else a)"

text \<open>The connection that is then closed with code 0, if there is one.\<close>

definition closeConn :: "Agent \<Rightarrow> connection option \<times> Agent" where
  "closeConn a = (aconn a, a\<lparr>aconn := None\<rparr>)"

text \<open>
  \<open>getConn\<close> polls the connection. A poll is what one turn of its loop sees: the connection,
  the clock, and which channel of the \<open>select\<close> was ready. The result is \<open>None\<close> as long as the
  loop has not returned.
\<close>

record poll =
  seen :: "connection option"
  clock :: int
  waited :: wake

fun getConnLoop :: "int \<Rightarrow> poll list \<Rightarrow> (string + connection) option" where
  "getConnLoop limit [] = None"
| "getConnLoop limit (p # polls) =
     (case seen p of
        Some c \<Rightarrow> Some (Inr c)
      | None \<Rightarrow>
          if clock p > limit then Some (Inl ''agent is not connected'')
          else case waited p of
              Cancelled \<Rightarrow> Some (Inl ''context canceled'')
            | TimerFired \<Rightarrow> getConnLoop limit polls)"

definition getConn :: "senv \<Rightarrow> poll list \<Rightarrow> Agent \<Rightarrow> (string + connection) option" where
  "getConn env polls a = getConnLoop (now env + aConnectTimeout (acfg a)) polls"

section \<open>Forwarded connections\<close>

datatype forward_stage =
    ForwardDone "stream option"
  | ForwardPiping stream

definition forwardFields :: "Agent \<Rightarrow> string \<Rightarrow> string \<Rightarrow> any list" where
  "forwardFields a service connectionID = abase a @ [str ''service'', str service,
     str ''direction'', str ''forward'', str ''connection_id'', str connectionID]"

definition openForward :: "senv \<Rightarrow> Agent \<Rightarrow> string \<Rightarrow> string \<Rightarrow> string \<Rightarrow> Frame" where
  "openForward env a service listener remote =
     zeroFrame\<lparr>Type := TypeOpen, Direction := DirectionForward, Service := service, PeerID := aAgentID (acfg a),
       Listener := listener, SourceAddr := (if aSendClientAddr (acfg a) then remote else []),
       ConnectionID := newConnectionID env\<rparr>"

text \<open>\<open>defer a.metrics.ActiveQUICStreams.Add(-1)\<close>\<close>

definition aStreamExit :: "Agent \<Rightarrow> Agent" where
  "aStreamExit a = addA ActiveQUICStreams_update (-1) a"

text \<open>
  \<open>handleForwardTCP\<close>: the counters before \<open>getConn\<close>, what \<open>getConn\<close> and \<open>OpenStreamSync\<close> returned, the
  exchange of the OPEN frame and its answer, the copy, and the deferred calls. Each part changes at
  most one gauge, and it waits before that change, if at all.
\<close>

definition forwardCount :: "Agent \<Rightarrow> Agent" where
  "forwardCount a = addA ActiveTCPConnections_update 1 (addA TCPConnectionsTotal_update 1 a)"

text \<open>What \<open>getConn\<close> returned, then what \<open>OpenStreamSync\<close> returned: an error ends the handler.\<close>

definition forwardGot :: "senv \<Rightarrow> string \<Rightarrow> string + connection \<Rightarrow> Agent \<Rightarrow> connection option \<times> Agent" where
  "forwardGot env service got a =
     (case got of
        Inl err \<Rightarrow>
          (None, logA (Debug ''forward_connection_error'' (abase a @ [str ''service'', str service,
             str ''connection_id'', str (newConnectionID env), str ''error'', AError err])) a)
      | Inr c \<Rightarrow> (Some c, a))"

definition forwardOpened :: "senv \<Rightarrow> string \<Rightarrow> string + stream \<Rightarrow> Agent \<Rightarrow> stream option \<times> Agent" where
  "forwardOpened env service opened a =
     (let fwd = forwardFields a service (newConnectionID env) in
      case opened of
        Inl err \<Rightarrow>
          (None, logA (Debug ''stream_open_error'' (fwd @ [str ''error'', AError err])) (addA StreamErrorsTotal_update 1 a))
      | Inr st \<Rightarrow>
          (Some (stream_SetDeadline (Some (now env + aHandshakeTimeout (acfg a))) st),
           logA (Debug ''stream_opened'' fwd) (addA ActiveQUICStreams_update 1 (addA StreamsTotal_update 1 a))))"

text \<open>The OPEN frame and its answer.\<close>

definition forwardExchange :: "senv \<Rightarrow> string \<Rightarrow> string \<Rightarrow> string \<Rightarrow> stream \<Rightarrow> Agent \<Rightarrow> forward_stage \<times> Agent" where
  "forwardExchange env service listener remote st a =
     (let fwd = forwardFields a service (newConnectionID env) in
      case WriteFrame stream_Write (openForward env a service listener remote) st of
        (Some err, st) \<Rightarrow>
          (ForwardDone (Some (stream_Close st)),
           logA (Debug ''control_frame_write_error'' (fwd @ [str ''error'', AError (proto_text err)]))
             (addA StreamErrorsTotal_update 1 a))
      | (None, st) \<Rightarrow>
          (case ReadFrame st of
             (Inl err, st) \<Rightarrow>
               (ForwardDone (Some (stream_Close st)),
                logA (Debug ''control_response_error'' (fwd @ [str ''response_type'', AInt 0,
                    str ''error'', AError (proto_text err)])) (addA StreamErrorsTotal_update 1 a))
           | (Inr resp, st) \<Rightarrow>
               if Type resp \<noteq> TypeOK then
                 (ForwardDone (Some (stream_Close st)),
                  logA (Debug ''control_response_error'' (fwd @ [str ''response_type'',
                      AInt (uint (Type resp)), str ''error'', ANil])) (addA StreamErrorsTotal_update 1 a))
               else (ForwardPiping (stream_SetDeadline None st), a)))"

text \<open>From the return of \<open>getConn\<close> up to the copy.\<close>

definition forwardBegin :: "senv \<Rightarrow> string + connection \<Rightarrow> string \<Rightarrow> string \<Rightarrow> string \<Rightarrow>
    (connection \<Rightarrow> string + stream) \<Rightarrow> Agent \<Rightarrow> forward_stage \<times> Agent" where
  "forwardBegin env got service listener remote opened a =
     (case forwardGot env service got a of
        (None, a) \<Rightarrow> (ForwardDone None, a)
      | (Some c, a) \<Rightarrow>
          (case forwardOpened env service (opened c) a of
             (None, a) \<Rightarrow> (ForwardDone None, a)
           | (Some st, a) \<Rightarrow>
               (case forwardExchange env service listener remote st a of
                  (ForwardDone st, a) \<Rightarrow> (ForwardDone st, aStreamExit a)
                | (ForwardPiping st, a) \<Rightarrow> (ForwardPiping st, a))))"

text \<open>The copy with the accounting after it, and then the deferred decrement.\<close>

definition forwardCopied :: "senv \<Rightarrow> string \<Rightarrow> endpoint \<Rightarrow> stream \<Rightarrow> Agent \<Rightarrow> endpoint \<times> stream \<times> Agent" where
  "forwardCopied env service tcpConn st a =
     (case Pipe tcpConn (quicEnd st) of (count, tcpConn', st') \<Rightarrow>
        (tcpConn', conn st',
         logA (Info ''connection_closed'' (forwardFields a service (newConnectionID env) @
             [str ''duration_ms'', AInt (elapsedMs env), str ''bytes_client_to_target'', AInt (uint (AToB count)),
              str ''bytes_target_to_client'', AInt (uint (BToA count))]))
           (addA BytesTargetToClient_update (BToA count) (addA BytesClientToTarget_update (AToB count) a))))"

definition forwardPiped :: "senv \<Rightarrow> string \<Rightarrow> endpoint \<Rightarrow> stream \<Rightarrow> Agent \<Rightarrow> endpoint \<times> stream \<times> Agent" where
  "forwardPiped env service tcpConn st a =
     (case forwardCopied env service tcpConn st a of (tcpConn', st', a') \<Rightarrow> (tcpConn', st', aStreamExit a'))"

text \<open>The deferred calls: the gauge and \<open>tcpConn.Close()\<close>.\<close>

definition forwardExit :: "endpoint \<Rightarrow> Agent \<Rightarrow> endpoint \<times> Agent" where
  "forwardExit tcpConn a = (closeEnd tcpConn, addA ActiveTCPConnections_update (-1) a)"

text \<open>The whole handler; \<open>None\<close> while \<open>getConn\<close> has not returned.\<close>

definition handleForwardTCP :: "senv \<Rightarrow> poll list \<Rightarrow> endpoint \<Rightarrow> string \<Rightarrow> string \<Rightarrow> string \<Rightarrow>
    (connection \<Rightarrow> string + stream) \<Rightarrow> Agent \<Rightarrow> (endpoint \<times> stream option \<times> Agent) option" where
  "handleForwardTCP env polls tcpConn service listener remote opened a =
     (case getConn env polls a of
        None \<Rightarrow> None
      | Some got \<Rightarrow> Some
          (case forwardBegin env got service listener remote opened (forwardCount a) of
             (ForwardDone st, a) \<Rightarrow> (case forwardExit tcpConn a of (t, a) \<Rightarrow> (t, st, a))
           | (ForwardPiping st, a) \<Rightarrow>
               (case forwardPiped env service tcpConn st a of
                  (t, st, a) \<Rightarrow> (case forwardExit t a of (t, a) \<Rightarrow> (t, Some st, a)))))"

text \<open>One turn of \<open>acceptForward\<close>: a connection takes a slot or is closed, an error ends the loop.\<close>

datatype forward_turn = SpawnForward endpoint | RejectForward endpoint | StopForward

definition acceptForward :: "string + endpoint \<Rightarrow> channel \<Rightarrow> Agent \<Rightarrow> forward_turn \<times> channel" where
  "acceptForward accepted sem a =
     (case accepted of
        Inl err \<Rightarrow> (StopForward, sem)
      | Inr tcpConn \<Rightarrow>
          (case trySend (aMaxConnections (acfg a)) sem of
             Some sem' \<Rightarrow> (SpawnForward tcpConn, sem')
           | None \<Rightarrow> (RejectForward (closeEnd tcpConn), sem)))"

section \<open>Reverse connections\<close>

datatype reverse_part =
    RevFinished stream
  | RevDialing string Frame stream
  | RevConnected Frame stream endpoint
  | RevAborted stream endpoint
  | RevPiping Frame stream endpoint

definition revFields :: "Agent \<Rightarrow> Frame \<Rightarrow> string \<Rightarrow> any list" where
  "revFields a frame target = abase a @ [str ''service'', str (Service frame), str ''direction'', str ''reverse'',
     str ''target_address'', str target, str ''connection_id'', str (ConnectionID frame)]"

text \<open>The counters at the start of \<open>handleReverseStream\<close>, then the request and the decision on it.\<close>

definition revEnter :: "Agent \<Rightarrow> Agent" where
  "revEnter a = addA ActiveQUICStreams_update 1 (addA StreamsTotal_update 1 a)"

definition revRequested :: "senv \<Rightarrow> stream \<Rightarrow> Agent \<Rightarrow> reverse_part \<times> Agent" where
  "revRequested env st a =
     (let st = stream_SetDeadline (Some (now env + aHandshakeTimeout (acfg a))) st;
          bad = (\<lambda>err. logA (Debug ''control_frame_error'' (abase a @ [str ''direction'', str ''reverse'',
                   str ''error'', err])) (addA StreamErrorsTotal_update 1 a))
      in case ReadFrame st of
          (Inl err, st) \<Rightarrow> (RevFinished (refuse ErrorUnauthorized st), bad (AError (proto_text err)))
        | (Inr frame, st) \<Rightarrow>
            if Type frame \<noteq> TypeOpen \<or> Direction frame \<noteq> DirectionReverse
            then (RevFinished (refuse ErrorUnauthorized st), bad ANil)
            else
              (let a = logA (Debug ''control_frame_received'' (abase a @
                     [str ''type'', AInt (uint (Type frame)), str ''direction'', AInt (uint (Direction frame)),
                      str ''service'', str (Service frame), str ''connection_id'', str (ConnectionID frame)])) a
               in case map_of (aReverse (acfg a)) (Service frame) of
                   None \<Rightarrow> (RevFinished (refuse ErrorUnauthorized st), a)
                 | Some target \<Rightarrow>
                     (RevDialing target frame st,
                      (logA (Debug ''target_dial_started'' (revFields a frame target)) a)
                        \<lparr>adialed := adialed a @ [target]\<rparr>)))"

text \<open>\<open>handleReverseStream\<close> up to the dial.\<close>

definition revBegin :: "senv \<Rightarrow> stream \<Rightarrow> Agent \<Rightarrow> reverse_part \<times> Agent" where
  "revBegin env st a = revRequested env st (revEnter a)"

text \<open>After the dial: a failure is answered; a connection is counted, then the request is answered.\<close>

definition revOutcome :: "string \<Rightarrow> Frame \<Rightarrow> string + endpoint \<Rightarrow> stream \<Rightarrow> Agent \<Rightarrow> reverse_part \<times> Agent" where
  "revOutcome target frame outcome st a =
     (case outcome of
        Inl err \<Rightarrow>
          (RevFinished (refuse ErrorDialFailed st),
           logA (Debug ''target_dial_error'' (revFields a frame target @ [str ''error'', AError err]))
             (addA StreamErrorsTotal_update 1 (addA TargetDialErrors_update 1 a)))
      | Inr tcpConn \<Rightarrow>
          (RevConnected frame st tcpConn,
           logA (Debug ''target_dial_succeeded'' (revFields a frame target))
             (addA ActiveTCPConnections_update 1 (addA TCPConnectionsTotal_update 1 a))))"

definition revReply :: "Frame \<Rightarrow> endpoint \<Rightarrow> stream \<Rightarrow> reverse_part" where
  "revReply frame tcpConn st =
     (case WriteFrame stream_Write okFrame st of
        (Some err, st) \<Rightarrow> RevAborted (stream_Close st) tcpConn
      | (None, st) \<Rightarrow> RevPiping frame (stream_SetDeadline None st) tcpConn)"

definition revUncount :: "Agent \<Rightarrow> Agent" where
  "revUncount a = addA ActiveTCPConnections_update (-1) a"

definition revDialed :: "string \<Rightarrow> Frame \<Rightarrow> string + endpoint \<Rightarrow> stream \<Rightarrow> Agent \<Rightarrow> reverse_part \<times> Agent" where
  "revDialed target frame outcome st a =
     (case revOutcome target frame outcome st a of
        (RevConnected frame st tcpConn, a) \<Rightarrow>
          (case revReply frame tcpConn st of
             RevAborted st tcpConn \<Rightarrow> (RevAborted st (closeEnd tcpConn), revUncount a)
           | p \<Rightarrow> (p, a))
      | x \<Rightarrow> x)"

text \<open>The copy with the accounting after it, and then the deferred decrement.\<close>

definition revCopied :: "senv \<Rightarrow> Frame \<Rightarrow> endpoint \<Rightarrow> stream \<Rightarrow> Agent \<Rightarrow> stream \<times> endpoint \<times> Agent" where
  "revCopied env frame tcpConn st a =
     (case Pipe tcpConn (quicEnd st) of (count, tcpConn', st') \<Rightarrow>
        (conn st', tcpConn',
         logA (Info ''connection_closed'' (abase a @ [str ''service'', str (Service frame),
             str ''direction'', str ''reverse'', str ''connection_id'', str (ConnectionID frame),
             str ''duration_ms'', AInt (elapsedMs env), str ''bytes_client_to_target'', AInt (uint (BToA count)),
             str ''bytes_target_to_client'', AInt (uint (AToB count))]))
           (addA BytesTargetToClient_update (AToB count) (addA BytesClientToTarget_update (BToA count) a))))"

definition revPiped :: "senv \<Rightarrow> Frame \<Rightarrow> endpoint \<Rightarrow> stream \<Rightarrow> Agent \<Rightarrow> stream \<times> endpoint \<times> Agent" where
  "revPiped env frame tcpConn st a =
     (case revCopied env frame tcpConn st a of (st', tcpConn', a') \<Rightarrow> (st', tcpConn', revUncount a'))"

definition handleReverseStream :: "senv \<Rightarrow> stream \<Rightarrow> Agent \<Rightarrow> stream \<times> endpoint option \<times> Agent" where
  "handleReverseStream env st a =
     (case revBegin env st a of
        (RevDialing target frame st, a) \<Rightarrow>
          (case revDialed target frame (dialTCP env target) st a of
             (RevPiping frame st tcpConn, a) \<Rightarrow>
               (case revPiped env frame tcpConn st a of (st, t, a) \<Rightarrow> (st, Some t, aStreamExit a))
           | (RevAborted st t, a) \<Rightarrow> (st, Some t, aStreamExit a)
           | (RevFinished st, a) \<Rightarrow> (st, None, aStreamExit a)
           | (_, a) \<Rightarrow> (st, None, a))
      | (RevFinished st, a) \<Rightarrow> (st, None, aStreamExit a)
      | (_, a) \<Rightarrow> (st, None, a))"

text \<open>\<open>acceptReverse\<close>: the streams accepted until \<open>AcceptStream\<close> fails, here one after the other.\<close>

fun agtAcceptReverse :: "(senv \<times> stream) list \<Rightarrow> Agent \<Rightarrow> stream list \<times> Agent" where
  "agtAcceptReverse [] a = ([], a)"
| "agtAcceptReverse ((env, st) # accepted) a =
     (case handleReverseStream env st
          (logA (Debug ''stream_accepted'' (abase a @ [str ''direction'', str ''reverse''])) a) of (st', _, a') \<Rightarrow>
      case agtAcceptReverse accepted a' of (sts, a'') \<Rightarrow> (st' # sts, a''))"

section \<open>The reconnect loop\<close>

definition connectStarted :: "Agent \<Rightarrow> Agent" where
  "connectStarted a = logA (Debug ''server_connect_started'' (abase a @ peerField a)) a"

definition connectFailed :: "string \<Rightarrow> duration \<Rightarrow> Agent \<Rightarrow> Agent" where
  "connectFailed err delay a =
     logA (Warn ''server_connect_failed'' (abase a @ [str ''reason'', str ''connect_failed'',
         str ''retry_delay_ms'', AInt (delay div Millisecond)]))
       (logA (Debug ''server_connect_error'' (abase a @ peerField a @ [str ''error'', AError err])) a)"

text \<open>After a dial: the connection is published, counted and reported; after the loop over its streams the reverse.\<close>

definition countUp :: "Agent \<Rightarrow> Agent" where
  "countUp a = addA QUICConnections_update 1 a"

definition reportUp :: "Agent \<Rightarrow> Agent" where
  "reportUp a = logA (Info ''server_connected'' (abase a @ peerField a))
     (a\<lparr>ametrics := SetAgentConnected (aAgentID (acfg a)) True (ametrics a)\<rparr>)"

definition countDown :: "Agent \<Rightarrow> Agent" where
  "countDown a = addA QUICConnections_update (-1) a"

definition reportDown :: "Agent \<Rightarrow> Agent" where
  "reportDown a = logA (Info ''server_disconnected'' (abase a @ peerField a))
     (a\<lparr>ametrics := SetAgentConnected (aAgentID (acfg a)) False (ametrics a)\<rparr>)"

definition agtSession :: "connection \<Rightarrow> (senv \<times> stream) list \<Rightarrow> Agent \<Rightarrow> Agent" where
  "agtSession c accepted a =
     reportDown (countDown (clearConn c (snd (agtAcceptReverse accepted (reportUp (countUp (setConn c a)))))))"

text \<open>
  One turn of the loop: the outcome of \<open>dial\<close>, for a connection the streams it accepts and how long
  it lasts, and how the wait at the end of the turn is left.
\<close>

datatype attempt =
    Fails string
  | Connects connection "(senv \<times> stream) list" duration

definition afterSession :: "duration \<Rightarrow> duration \<Rightarrow> Agent \<Rightarrow> duration" where
  "afterSession lasted delay a =
     (if lasted \<ge> stableConnectionMinimum then aReconnectDelay (acfg a) else delay)"

definition turnDelay :: "attempt \<Rightarrow> duration \<Rightarrow> Agent \<Rightarrow> duration \<times> Agent" where
  "turnDelay att delay a =
     (case att of
        Fails err \<Rightarrow> (delay, connectFailed err delay (connectStarted a))
      | Connects c accepted lasted \<Rightarrow>
          (let a = agtSession c accepted (connectStarted a) in (afterSession lasted delay a, a)))"

text \<open>
  The loop over the attempts, until the context is done at its head (the end of the list) or in the
  wait. The first component lists the delays waited.
\<close>

fun maintainLoop :: "(attempt \<times> wake) list \<Rightarrow> duration \<Rightarrow> Agent \<Rightarrow> duration list \<times> Agent" where
  "maintainLoop [] delay a = ([], a)"
| "maintainLoop ((att, w) # atts) delay a =
     (case turnDelay att delay a of (delay, a) \<Rightarrow>
        if \<not> waitForReconnect w then ([delay], a)
        else case maintainLoop atts (nextReconnectDelay delay (aReconnectDelay (acfg a))) a of
            (ds, a) \<Rightarrow> (delay # ds, a))"

definition maintainConnection :: "(attempt \<times> wake) list \<Rightarrow> Agent \<Rightarrow> duration list \<times> Agent" where
  "maintainConnection atts a = maintainLoop atts (aReconnectDelay (acfg a)) a"

section \<open>Running\<close>

text \<open>
  \<open>Run\<close> up to the start of its goroutines. \<open>listen\<close> says which addresses \<open>net.Listen\<close> can bind; the
  first failure ends the run, and the listeners opened before it are closed.
\<close>

datatype agt_run_error = AgtConfigInvalid agt_config_error | ListenFailed string

fun startListeners :: "(string \<Rightarrow> bool) \<Rightarrow> string gomap \<Rightarrow> Agent \<Rightarrow> (agt_run_error + string list) \<times> Agent" where
  "startListeners listen [] a = (Inr [], a)"
| "startListeners listen ((service, addr) # forwards) a =
     (if \<not> listen addr then (Inl (ListenFailed addr), a)
      else
        let a = logA (Info ''forward_listener_started'' (abase a @ [str ''service'', str service,
              str ''listener_address'', str addr])) a
        in case startListeners listen forwards a of
            (Inl err, a) \<Rightarrow> (Inl err, a)
          | (Inr services, a) \<Rightarrow> (Inr (service # services), a))"

definition startAgent :: "(string \<Rightarrow> bool) \<Rightarrow> Agent \<Rightarrow> (agt_run_error + string list) \<times> Agent" where
  "startAgent listen a =
     (let a = a\<lparr>acfg := agtApplyDefaults (acfg a)\<rparr> in
      case agtValidateConfig (acfg a) of
        Inl err \<Rightarrow> (Inl (AgtConfigInvalid err), a)
      | Inr _ \<Rightarrow>
          startListeners listen (aForward (acfg a))
            (a\<lparr>ametrics := ConfigureAgent (aAgentID (acfg a)) (aServer (acfg a)) (ametrics a)\<rparr>))"

section \<open>Lemmas on the state\<close>

lemmas forward_part_defs = forwardBegin_def forwardGot_def forwardOpened_def forwardExchange_def forwardPiped_def
  forwardCopied_def forwardExit_def

lemmas rev_part_defs = revBegin_def revEnter_def revRequested_def revDialed_def revOutcome_def revReply_def revUncount_def
  revPiped_def revCopied_def

lemma addA_fields [simp]:
  "acfg (addA u d a) = acfg a" "asecret (addA u d a) = asecret a" "aconn (addA u d a) = aconn a"
  "adialed (addA u d a) = adialed a" "alog (addA u d a) = alog a" "ametrics (addA u d a) = Add u d (ametrics a)"
  by (simp_all add: addA_def)

lemma logA_fields [simp]:
  "acfg (logA f a) = acfg a" "asecret (logA f a) = asecret a" "aconn (logA f a) = aconn a"
  "adialed (logA f a) = adialed a" "ametrics (logA f a) = ametrics a"
  by (simp_all add: logA_def)

lemma conn_fields [simp]:
  "acfg (setConn c a) = acfg a" "acfg (clearConn c a) = acfg a" "ametrics (setConn c a) = ametrics a"
  "ametrics (clearConn c a) = ametrics a" "adialed (setConn c a) = adialed a" "adialed (clearConn c a) = adialed a"
  by (simp_all add: setConn_def clearConn_def)

lemma report_fields [simp]:
  "acfg (countUp a) = acfg a" "acfg (countDown a) = acfg a" "acfg (reportUp a) = acfg a" "acfg (reportDown a) = acfg a"
  "aconn (countUp a) = aconn a" "aconn (countDown a) = aconn a" "aconn (reportUp a) = aconn a" "aconn (reportDown a) = aconn a"
  "adialed (countUp a) = adialed a" "adialed (countDown a) = adialed a" "adialed (reportUp a) = adialed a"
  "adialed (reportDown a) = adialed a"
  by (simp_all add: countUp_def countDown_def reportUp_def reportDown_def)

end
