(* ===== verification/Agent_Streams.thy ===== *)
theory Agent_Streams
  imports Agent Tunnel
begin

text \<open>
  What the agent's loops and handlers do: the delays of the reconnect loop against the doubling
  backoff with a cap that they implement, the time within which \<open>getConn\<close> returns, and the
  decision that \<open>handleReverseStream\<close> takes on a request, with the bytes it carries.
\<close>

section \<open>Backoff\<close>

text \<open>The delay after \<open>k\<close> unsuccessful attempts in a row, written down directly.\<close>

definition backoff :: "duration \<Rightarrow> nat \<Rightarrow> duration" where
  "backoff base_delay k = min (max Minute base_delay) (base_delay * 2 ^ k)"

text \<open>The number of unsuccessful attempts before each wait; a stable connection starts again at 0.\<close>

fun levels :: "nat \<Rightarrow> (attempt \<times> wake) list \<Rightarrow> nat list" where
  "levels k [] = []"
| "levels k ((att, w) # atts) =
     (let k = (case att of Fails _ \<Rightarrow> k | Connects _ _ lasted \<Rightarrow> if Minute \<le> lasted then 0 else k)
      in if w = Cancelled then [k] else k # levels (Suc k) atts)"

lemma int64_id: "- (2 ^ 63) \<le> x \<Longrightarrow> x < 2 ^ 63 \<Longrightarrow> int64 x = x"
  by (simp add: int64_def)

lemma backoff_0: "backoff b 0 = b"
  by (simp add: backoff_def)

text \<open>The doubling neither wraps around nor exceeds the cap.\<close>

lemma nextReconnectDelay_backoff:
  assumes "0 < b" "b < 2 ^ 63"
  shows "nextReconnectDelay (backoff b k) b = backoff b (Suc k)"
proof -
  define limit where "limit = max Minute b"
  define x where "x = b * 2 ^ k"
  have l: "0 < limit" "limit < 2 ^ 63" using assms by (auto simp: limit_def time_defs)
  have x: "0 < x" using assms by (simp add: x_def)
  have next_eq: "nextReconnectDelay (min limit x) b =
      (if min limit x \<ge> limit \<or> min limit x > limit div 2 then limit else int64 (min limit x * 2))"
  proof -
    have "(if b > maxReconnectDelay then b else maxReconnectDelay) = limit"
      by (auto simp: limit_def maxReconnectDelay_def)
    then show ?thesis by (simp add: nextReconnectDelay_def)
  qed
  have "nextReconnectDelay (min limit x) b = min limit (2 * x)"
  proof (cases "limit div 2 < min limit x")
    case True
    then have "limit \<le> 2 * x" by linarith
    with True next_eq show ?thesis by simp
  next
    case False
    then have "min limit x = x" "2 * x \<le> limit" using l by auto
    moreover from this have "int64 (x * 2) = 2 * x" using l x by (subst int64_id) auto
    ultimately show ?thesis using False next_eq l by auto
  qed
  then show ?thesis by (simp add: backoff_def limit_def x_def mult.left_commute)
qed

lemma handleReverseStream_config:
  "handleReverseStream env st a = (st', t, a') \<Longrightarrow> acfg a' = acfg a"
  by (auto simp: handleReverseStream_def rev_part_defs aStreamExit_def Let_def
      split: prod.splits sum.splits option.splits if_splits reverse_part.splits)

lemma agtAcceptReverse_config: "agtAcceptReverse accepted a = (sts, a') \<Longrightarrow> acfg a' = acfg a"
proof (induction accepted a arbitrary: sts a' rule: agtAcceptReverse.induct)
  case (2 env st accepted a)
  then show ?case by (auto split: prod.splits dest!: handleReverseStream_config)
qed simp

lemma session_config [simp]: "acfg (agtSession c accepted a) = acfg a"
  using agtAcceptReverse_config [of accepted "reportUp (countUp (setConn c a))"]
  by (cases "agtAcceptReverse accepted (reportUp (countUp (setConn c a)))") (simp add: agtSession_def)

lemma turnDelay_config [simp]: "acfg (snd (turnDelay att delay a)) = acfg a"
  by (cases att) (simp_all add: turnDelay_def connectFailed_def connectStarted_def Let_def)

lemma turnDelay_delay:
  "fst (turnDelay att delay a) = (case att of Fails _ \<Rightarrow> delay
     | Connects _ _ lasted \<Rightarrow> if Minute \<le> lasted then aReconnectDelay (acfg a) else delay)"
  by (cases att) (simp_all add: turnDelay_def afterSession_def stableConnectionMinimum_def
      connectStarted_def Let_def)

lemma maintainLoop_backoff:
  assumes b: "0 < b" "b < 2 ^ 63" and "aReconnectDelay (acfg a) = b"
  shows "fst (maintainLoop atts (backoff b k) a) = map (backoff b) (levels k atts)"
  using assms(3)
proof (induction atts arbitrary: k a)
  case (Cons x atts)
  obtain att w where x: "x = (att, w)" by (cases x)
  obtain d a' where t: "turnDelay att (backoff b k) a = (d, a')" by (cases "turnDelay att (backoff b k) a")
  define j where "j = (case att of Fails _ \<Rightarrow> k | Connects _ _ lasted \<Rightarrow> if Minute \<le> lasted then 0 else k)"
  have d: "d = backoff b j" and a': "aReconnectDelay (acfg a') = b"
    using turnDelay_delay [of att "backoff b k" a] turnDelay_config [of att "backoff b k" a] t Cons.prems
    by (auto simp: j_def backoff_0 split: attempt.splits)
  show ?case
    using Cons.IH [OF a', of "Suc j"] t nextReconnectDelay_backoff [OF b, of j] a'
    by (cases w) (auto simp: x d waitForReconnect_def j_def [symmetric] Let_def split: prod.splits)
qed simp

lemma backoff_bounds: "0 < b \<Longrightarrow> b \<le> backoff b k \<and> backoff b k \<le> max Minute b"
  by (auto simp: backoff_def)

lemma backoff_large: "Minute < b \<Longrightarrow> backoff b k = b"
  by (simp add: backoff_def time_defs min_def)

text \<open>C12: Whatever sequence of attempts the reconnect loop sees, the delays it waits are exactly the
  doubling backoff with a cap: after \<open>k\<close> unsuccessful attempts in a row the base delay times
  \<open>2^k\<close>, capped, starting again at the base delay after a connection that lasted a minute. With a
  base delay of at most one minute the cap is the documented minute. With a longer base delay it is
  not: there the code waits the base delay every time, which exceeds the minute that \<open>README.md\<close>
  promises and is what \<open>TestNextReconnectDelayPreservesLargeBase\<close> asks for. No delay is below the
  base delay, and the 64-bit product never wraps around.\<close>

theorem maintainConnection_backoff:
  assumes "0 < aReconnectDelay (acfg a)" "aReconnectDelay (acfg a) < 2 ^ 63"
  shows "let b = aReconnectDelay (acfg a); waits = fst (maintainConnection atts a) in
    waits = map (backoff b) (levels 0 atts) \<and> (\<forall>d \<in> set waits. b \<le> d \<and> d \<le> max Minute b) \<and>
    (b \<le> Minute \<longrightarrow> (\<forall>d \<in> set waits. d \<le> Minute)) \<and>
    (Minute < b \<longrightarrow> (\<forall>d \<in> set waits. d = b \<and> Minute < d))"
  using maintainLoop_backoff [OF assms refl, of atts 0] backoff_bounds [OF assms(1)] backoff_large [of "aReconnectDelay (acfg a)"]
  by (auto simp: maintainConnection_def backoff_0 Let_def max_def)

definition sampleAgtCfg :: AgtConfig where
  "sampleAgtCfg = \<lparr>aServer = ''s:7000'', aAgentID = ''a'', aSecretFile = ''/etc/mule/a.key'',
     aForward = [(''web'', ''127.0.0.1:8080'')], aReverse = [(''ssh'', ''h:80'')],
     aConnectTimeout = 1, aHandshakeTimeout = 1, aIdleTimeout = 1, aMaxConnections = 1, aKeepAlive = 1,
     aReconnectDelay = 20 * Second, aSendClientAddr = False\<rparr>"

definition sampleAgent :: Agent where
  "sampleAgent = newAgent sampleAgtCfg [1] (NewForWriter ''text'' ''error'' []) New"

theorem maintainConnection_backoff_witness:
  "fst (maintainConnection [(Fails ''e'', TimerFired), (Fails ''e'', TimerFired), (Fails ''e'', TimerFired),
     (Connects 0 [] (2 * Minute), TimerFired), (Fails ''e'', Cancelled)] sampleAgent) =
   [20 * Second, 40 * Second, 60 * Second, 20 * Second, 40 * Second] \<and>
   fst (maintainConnection [(Fails ''e'', TimerFired), (Fails ''e'', Cancelled)]
     (sampleAgent\<lparr>acfg := sampleAgtCfg\<lparr>aReconnectDelay := 90 * Second\<rparr>\<rparr>)) = [90 * Second, 90 * Second]"
proof
  have "aReconnectDelay (acfg sampleAgent) = 20 * Second" by (simp add: sampleAgent_def newAgent_def sampleAgtCfg_def)
  then show "fst (maintainConnection [(Fails ''e'', TimerFired), (Fails ''e'', TimerFired), (Fails ''e'', TimerFired),
     (Connects 0 [] (2 * Minute), TimerFired), (Fails ''e'', Cancelled)] sampleAgent) =
    [20 * Second, 40 * Second, 60 * Second, 20 * Second, 40 * Second]"
    using maintainConnection_backoff [of sampleAgent "[(Fails ''e'', TimerFired), (Fails ''e'', TimerFired),
      (Fails ''e'', TimerFired), (Connects 0 [] (2 * Minute), TimerFired), (Fails ''e'', Cancelled)]"]
    by (simp add: Let_def backoff_def time_defs)
  show "fst (maintainConnection [(Fails ''e'', TimerFired), (Fails ''e'', Cancelled)]
     (sampleAgent\<lparr>acfg := sampleAgtCfg\<lparr>aReconnectDelay := 90 * Second\<rparr>\<rparr>)) = [90 * Second, 90 * Second]"
    using maintainConnection_backoff [of "sampleAgent\<lparr>acfg := sampleAgtCfg\<lparr>aReconnectDelay := 90 * Second\<rparr>\<rparr>"
      "[(Fails ''e'', TimerFired), (Fails ''e'', Cancelled)]"]
    by (simp add: Let_def backoff_def time_defs)
qed

section \<open>Waiting for the connection\<close>

lemma getConnLoop_waits: "getConnLoop limit polls = None \<Longrightarrow> p \<in> set polls \<Longrightarrow> clock p \<le> limit"
  by (induction limit polls rule: getConnLoop.induct) (auto split: option.splits if_splits wake.splits)

lemma getConnLoop_seen: "getConnLoop limit polls = Some (Inr c) \<Longrightarrow> \<exists>p \<in> set polls. seen p = Some c"
  by (induction limit polls rule: getConnLoop.induct) (auto split: option.splits if_splits wake.splits)

text \<open>C39: \<open>getConn\<close> returns: when each of its waits takes the 25 milliseconds of its timer, it has returned
  once the polls span more than the connect timeout, with a connection that some poll saw or with
  an error.\<close>

theorem getConn_returns:
  assumes "\<forall>i < length polls. now env + 25 * Millisecond * int i \<le> clock (polls ! i)"
    and "aConnectTimeout (acfg a) < 25 * Millisecond * (int (length polls) - 1)" "polls \<noteq> []"
  shows "\<exists>r. getConn env polls a = Some r \<and> (\<forall>c. r = Inr c \<longrightarrow> (\<exists>p \<in> set polls. seen p = Some c))"
proof (cases "getConn env polls a")
  case None
  let ?n = "length polls - 1"
  have n: "?n < length polls" "int ?n = int (length polls) - 1" using assms(3) by (simp_all add: Suc_leI)
  then have "clock (polls ! ?n) \<le> now env + aConnectTimeout (acfg a)"
    using None getConnLoop_waits nth_mem unfolding getConn_def by blast
  moreover have "now env + 25 * Millisecond * int ?n \<le> clock (polls ! ?n)" using assms(1) n(1) by blast
  ultimately show ?thesis using assms(2) unfolding n(2) by linarith
next
  case (Some r)
  then show ?thesis using getConnLoop_seen by (auto simp: getConn_def)
qed

theorem getConn_returns_witness:
  "\<exists>r. getConn sampleEnv [\<lparr>seen = None, clock = 0, waited = TimerFired\<rparr>,
     \<lparr>seen = None, clock = 25 * Millisecond, waited = TimerFired\<rparr>] sampleAgent = Some r \<and>
     (\<forall>c. r = Inr c \<longrightarrow> (\<exists>p \<in> set [\<lparr>seen = None, clock = 0, waited = TimerFired\<rparr>,
       \<lparr>seen = None, clock = 25 * Millisecond, waited = TimerFired\<rparr>]. seen p = Some c))"
  by (rule getConn_returns)
    (simp_all add: sampleEnv_def sampleAgent_def newAgent_def sampleAgtCfg_def time_defs All_less_Suc
      numeral_2_eq_2 less_Suc_eq all_conj_distrib)

section \<open>The agent as opener\<close>

lemma openForward_fields [simp]:
  "Type (openForward env a service listener remote) = TypeOpen"
  "Direction (openForward env a service listener remote) = DirectionForward"
  "Service (openForward env a service listener remote) = service"
  "wireFrame (openForward env a service listener remote) = openForward env a service listener remote"
  by (simp_all add: openForward_def wireFrame_def opens_def zeroFrame_def)

text \<open>With a validated configuration the frame fits: only the addresses are not bounded by it.\<close>

lemma openForward_wellFormed:
  assumes "agtValidateConfig (acfg a) = Inr ()" "has_key service (aForward (acfg a))" "validEnv env"
    and "length listener + length remote \<le> 3900"
  shows "wellFormed (openForward env a service listener remote)"
proof -
  have "clientIDPattern (aAgentID (acfg a))" "routeIDPattern service"
    using assms(1,2) by (auto simp: agtValidateConfig_iff has_key_iff)
  then have "length (aAgentID (acfg a)) \<le> 63" "length service \<le> 64"
    by (simp_all add: clientIDPattern_def routeIDPattern_def)
  with length_newConnectionID [OF assms(3)] assms(4) show ?thesis
    by (simp add: openForward_def wellFormed_def opens_def zeroFrame_def validDirection_def length_bodyOf MaxFrameLen_def)
qed

text \<open>What \<open>forwardBegin\<close> does on a stream that accepts what is written.\<close>

lemma forwardBegin_stage:
  fixes env a service listener remote
  defines "f \<equiv> openForward env a service listener remote"
  assumes f: "wellFormed f" and st: "wr_script st = []" and o: "opened c = Inr st"
    and r: "ReadFrame ((stream_SetDeadline (Some (now env + aHandshakeTimeout (acfg a))) st)\<lparr>tx := tx st @ frameBytes f\<rparr>) = (r, st2)"
  shows "\<exists>a'. forwardBegin env (Inr c) service listener remote opened a =
      ((case r of Inr resp \<Rightarrow> if Type resp = TypeOK then ForwardPiping (stream_SetDeadline None st2)
          else ForwardDone (Some (stream_Close st2)) | Inl _ \<Rightarrow> ForwardDone (Some (stream_Close st2))), a') \<and>
    BytesClientToTarget (ametrics a') = BytesClientToTarget (ametrics a) \<and>
    BytesTargetToClient (ametrics a') = BytesTargetToClient (ametrics a)"
proof -
  let ?st = "stream_SetDeadline (Some (now env + aHandshakeTimeout (acfg a))) st"
  have "WriteFrame stream_Write f ?st = (None, ?st\<lparr>tx := tx st @ frameBytes f\<rparr>)"
    using WriteFrame_accepting [of ?st f] st wellFormed_frameBody [OF f] by simp
  then have w: "WriteFrame stream_Write (openForward env b service listener remote) ?st =
      (None, ?st\<lparr>tx := tx st @ frameBytes f\<rparr>)" if "acfg b = acfg a" for b
    using that by (simp add: f_def openForward_def)
  show ?thesis
    using o r by (cases r) (auto simp: forward_part_defs Let_def w aStreamExit_def Add_def)
qed

definition forwardOpens :: "senv \<Rightarrow> string \<Rightarrow> string \<Rightarrow> string \<Rightarrow> Agent \<Rightarrow>
    endpoint \<Rightarrow> stream \<Rightarrow> endpoint \<Rightarrow> stream \<Rightarrow> 64 word \<Rightarrow> 64 word \<Rightarrow> bool" where
  "forwardOpens env service listener remote a tcp st tcp' st' up down \<longleftrightarrow>
     (\<exists>polls opened c a'. getConn env polls a = Some (Inr c) \<and> opened c = Inr st \<and>
        handleForwardTCP env polls tcp service listener remote opened a = Some (tcp', Some st', a') \<and>
        up = BytesClientToTarget (ametrics a') - BytesClientToTarget (ametrics a) \<and>
        down = BytesTargetToClient (ametrics a') - BytesTargetToClient (ametrics a))"

lemma forwardOpensI:
  assumes "getConn env polls a = Some (Inr c)" "opened c = Inr st"
    and "handleForwardTCP env polls tcp service listener remote opened a = Some (tcp', Some st', a')"
  shows "forwardOpens env service listener remote a tcp st tcp' st'
    (BytesClientToTarget (ametrics a') - BytesClientToTarget (ametrics a))
    (BytesTargetToClient (ametrics a') - BytesTargetToClient (ametrics a))"
  using assms unfolding forwardOpens_def by blast

lemma handleForwardTCP_opened:
  assumes "getConn env polls a = Some (Inr c)" "opened c = Inr st"
  shows "\<exists>tcp' st' a'. handleForwardTCP env polls tcp service listener remote opened a = Some (tcp', Some st', a')"
  using assms by (auto simp: handleForwardTCP_def forward_part_defs Let_def split: prod.split option.split sum.split)

lemma forwardOpens_run:
  fixes env a service listener remote
  defines "f \<equiv> openForward env a service listener remote"
  assumes run: "forwardOpens env service listener remote a tcp st tcp' st' up down"
    and f: "wellFormed f" and st: "wr_script st = []"
  shows "openerEnds f tcp st tcp' st' up down"
proof -
  obtain polls opened c a' where h: "getConn env polls a = Some (Inr c)" "opened c = Inr st"
      "handleForwardTCP env polls tcp service listener remote opened a = Some (tcp', Some st', a')"
      "up = BytesClientToTarget (ametrics a') - BytesClientToTarget (ametrics a)"
      "down = BytesTargetToClient (ametrics a') - BytesTargetToClient (ametrics a)"
    using run unfolding forwardOpens_def by blast
  let ?a = "forwardCount a"
  have a: "acfg ?a = acfg a" "BytesClientToTarget (ametrics ?a) = BytesClientToTarget (ametrics a)"
      "BytesTargetToClient (ametrics ?a) = BytesTargetToClient (ametrics a)"
    by (simp_all add: forwardCount_def Add_def)
  have fa: "openForward env ?a service listener remote = f" by (simp add: f_def openForward_def a(1))
  let ?st = "(stream_SetDeadline (Some (now env + aHandshakeTimeout (acfg a))) st)\<lparr>tx := tx st @ frameBytes f\<rparr>"
  obtain r st2 where r: "ReadFrame ?st = (r, st2)" by (cases "ReadFrame ?st")
  obtain b where b: "forwardBegin env (Inr c) service listener remote opened ?a =
      ((case r of Inr resp \<Rightarrow> if Type resp = TypeOK then ForwardPiping (stream_SetDeadline None st2)
          else ForwardDone (Some (stream_Close st2)) | Inl _ \<Rightarrow> ForwardDone (Some (stream_Close st2))), b)"
      "BytesClientToTarget (ametrics b) = BytesClientToTarget (ametrics a)"
      "BytesTargetToClient (ametrics b) = BytesTargetToClient (ametrics a)"
    using forwardBegin_stage [of env ?a service listener remote st opened c r st2, unfolded fa a, OF f st h(2) r] by auto
  show ?thesis
  proof (cases "accepts r")
    case True
    obtain count t q where "Pipe tcp (quicEnd (stream_SetDeadline None st2)) = (count, t, q)" by (metis prod_cases3)
    with True h b show ?thesis
      by (intro openerEndsI [OF r])
        (auto simp: accepts_def handleForwardTCP_def forwardPiped_def forwardCopied_def forwardExit_def aStreamExit_def Add_def)
  next
    case False
    with h b show ?thesis
      by (intro openerEndsI [OF r])
        (cases r; auto simp: accepts_def handleForwardTCP_def forwardExit_def split: if_splits)
  qed
qed

interpretation forward_opener: opener "forwardOpens env service listener remote a"
    "openForward env a service listener remote" for env service listener remote a
  by (rule openerI) (rule forwardOpens_run)

section \<open>The agent's decision on a reverse request\<close>

text \<open>The target that the agent dials for what it read on a stream, if it dials at all.\<close>

definition revTarget :: "AgtConfig \<Rightarrow> proto_error + Frame \<Rightarrow> string option" where
  "revTarget c r =
     (case r of
        Inl _ \<Rightarrow> None
      | Inr f \<Rightarrow> if Type f = TypeOpen \<and> Direction f = DirectionReverse then map_of (aReverse c) (Service f) else None)"

definition revRequest :: "senv \<Rightarrow> Agent \<Rightarrow> stream \<Rightarrow> (proto_error + Frame) \<times> stream" where
  "revRequest env a st = ReadFrame (stream_SetDeadline (Some (now env + aHandshakeTimeout (acfg a))) st)"

lemma revRequest_sides:
  assumes "revRequest env a st = (r, st1)"
  shows "tx st1 = tx st" "wr_script st1 = wr_script st"
  using ReadFrame_sides [OF assms [unfolded revRequest_def]] by simp_all

text \<open>The gauges that a part of a handler moves, and what every part leaves alone.\<close>

definition shifts :: "64 word \<Rightarrow> 64 word \<Rightarrow> Agent \<Rightarrow> Agent \<Rightarrow> bool" where
  "shifts q t a a' \<longleftrightarrow> acfg a' = acfg a \<and> aconn a' = aconn a \<and> QUICConnections (ametrics a') = QUICConnections (ametrics a) \<and>
     ActiveQUICStreams (ametrics a') = ActiveQUICStreams (ametrics a) + q \<and>
     ActiveTCPConnections (ametrics a') = ActiveTCPConnections (ametrics a) + t"

lemma shifts_trans: "shifts q t a b \<Longrightarrow> shifts q' t' b c \<Longrightarrow> shifts (q + q') (t + t') a c"
  by (simp add: shifts_def add.assoc)

lemma shifts_exit: "shifts (-1) 0 a (aStreamExit a)"
  by (simp add: shifts_def aStreamExit_def Add_def)

definition bytesMoved :: "64 word \<Rightarrow> 64 word \<Rightarrow> Agent \<Rightarrow> Agent \<Rightarrow> bool" where
  "bytesMoved up down a a' \<longleftrightarrow>
     BytesClientToTarget (ametrics a') = BytesClientToTarget (ametrics a) + up \<and>
     BytesTargetToClient (ametrics a') = BytesTargetToClient (ametrics a) + down"

lemma revRequested_stage:
  assumes "revRequest env a st = (r, st1)"
  shows "\<exists>a'. revRequested env st a = ((case revTarget (acfg a) r of
       None \<Rightarrow> RevFinished (refuse ErrorUnauthorized st1)
     | Some target \<Rightarrow> RevDialing target (projr r) st1), a') \<and>
    adialed a' = adialed a @ (case revTarget (acfg a) r of None \<Rightarrow> [] | Some target \<Rightarrow> [target]) \<and>
    shifts 0 0 a a' \<and> bytesMoved 0 0 a a'"
proof (cases r)
  case (Inl e)
  then show ?thesis
    using assms by (simp add: revRequested_def revRequest_def revTarget_def shifts_def bytesMoved_def Let_def Add_def)
next
  case (Inr f)
  then show ?thesis
    using assms by (auto simp: revRequested_def revRequest_def revTarget_def shifts_def bytesMoved_def Let_def Add_def
        split: option.splits)
qed

lemma revEnter_shifts: "shifts 1 0 a (revEnter a)" "bytesMoved 0 0 a (revEnter a)" "adialed (revEnter a) = adialed a"
  by (simp_all add: revEnter_def shifts_def bytesMoved_def Add_def)

lemma revBegin_stage:
  assumes "revRequest env a st = (r, st1)"
  shows "\<exists>a'. revBegin env st a = ((case revTarget (acfg a) r of
       None \<Rightarrow> RevFinished (refuse ErrorUnauthorized st1)
     | Some target \<Rightarrow> RevDialing target (projr r) st1), a') \<and>
    adialed a' = adialed a @ (case revTarget (acfg a) r of None \<Rightarrow> [] | Some target \<Rightarrow> [target]) \<and>
    shifts 1 0 a a' \<and> bytesMoved 0 0 a a'"
proof -
  have "revRequest env (revEnter a) st = (r, st1)"
    using assms revEnter_shifts(1) [of a] by (simp add: revRequest_def shifts_def)
  from revRequested_stage [OF this] show ?thesis
    using revEnter_shifts [of a] by (auto simp: revBegin_def shifts_def bytesMoved_def)
qed

lemma revDialed_stage:
  assumes "WriteFrame stream_Write okFrame st = (e, st2)"
  shows "\<exists>a'. revDialed target f outcome st a = ((case outcome of
       Inl err \<Rightarrow> RevFinished (refuse ErrorDialFailed st)
     | Inr c \<Rightarrow> (case e of Some _ \<Rightarrow> RevAborted (stream_Close st2) (closeEnd c)
        | None \<Rightarrow> RevPiping f (stream_SetDeadline None st2) c)), a') \<and>
    adialed a' = adialed a \<and> shifts 0 (of_bool (is_ok outcome \<and> e = None)) a a' \<and> bytesMoved 0 0 a a'"
  using assms by (cases outcome; cases e) (simp_all add: rev_part_defs shifts_def bytesMoved_def Let_def Add_def)

lemma revPiped_stage:
  assumes "Pipe c (quicEnd st) = (count, c', q')"
  shows "\<exists>a'. revPiped env f c st a = (conn q', c', a') \<and> adialed a' = adialed a \<and> shifts 0 (-1) a a' \<and>
    bytesMoved (BToA count) (AToB count) a a'"
  using assms by (simp add: rev_part_defs shifts_def bytesMoved_def Add_def)

text \<open>The whole handler, from what it read: stream, target connection and account.\<close>

lemma handleReverseStream_refused:
  assumes "revRequest env a st = (r, st1)" "revTarget (acfg a) r = None"
  shows "\<exists>a'. handleReverseStream env st a = (refuse ErrorUnauthorized st1, None, a') \<and> adialed a' = adialed a \<and>
    shifts 0 0 a a'"
proof -
  obtain b where b: "revBegin env st a = (RevFinished (refuse ErrorUnauthorized st1), b)" "adialed b = adialed a"
      "shifts 1 0 a b"
    using revBegin_stage [OF assms(1)] assms(2) by auto
  from shifts_trans [OF b(3) shifts_exit] b show ?thesis
    by (simp add: handleReverseStream_def aStreamExit_def)
qed

lemma handleReverseStream_dials:
  assumes req: "revRequest env a st = (r, st1)" "revTarget (acfg a) r = Some target"
    and h: "handleReverseStream env st a = (st', t, a')"
  shows "adialed a' = adialed a @ [target] \<and> shifts 0 0 a a' \<and>
    (case dialTCP env target of
       Inl _ \<Rightarrow> st' = refuse ErrorDialFailed st1 \<and> t = None
     | Inr c \<Rightarrow> (case WriteFrame stream_Write okFrame st1 of
          (Some _, st2) \<Rightarrow> st' = stream_Close st2 \<and> t = Some (closeEnd c)
        | (None, st2) \<Rightarrow> (\<exists>count c' q. Pipe c (quicEnd (stream_SetDeadline None st2)) = (count, c', q) \<and>
            st' = conn q \<and> t = Some c' \<and> bytesMoved (BToA count) (AToB count) a a')))"
proof -
  obtain b where b: "revBegin env st a = (RevDialing target (projr r) st1, b)" "adialed b = adialed a @ [target]"
      "shifts 1 0 a b" "bytesMoved 0 0 a b"
    using revBegin_stage [OF req(1)] req(2) by auto
  obtain e st2 where w: "WriteFrame stream_Write okFrame st1 = (e, st2)" by (cases "WriteFrame stream_Write okFrame st1")
  note d = revDialed_stage [OF w, of target "projr r" "dialTCP env target" b]
  show ?thesis
  proof (cases "is_ok (dialTCP env target) \<and> e = None")
    case True
    then obtain c where c: "dialTCP env target = Inr c" "e = None" by (auto simp: is_ok_iff)
    obtain count c' q where p: "Pipe c (quicEnd (stream_SetDeadline None st2)) = (count, c', q)" by (metis prod_cases3)
    obtain b1 where b1: "revDialed target (projr r) (Inr c) st1 b = (RevPiping (projr r) (stream_SetDeadline None st2) c, b1)"
        "adialed b1 = adialed b" "shifts 0 1 b b1" "bytesMoved 0 0 b b1"
      using d c by auto
    obtain b2 where b2: "revPiped env (projr r) c (stream_SetDeadline None st2) b1 = (conn q, c', b2)"
        "adialed b2 = adialed b1" "shifts 0 (-1) b1 b2" "bytesMoved (BToA count) (AToB count) b1 b2"
      using revPiped_stage [OF p] by blast
    have "shifts 0 0 a (aStreamExit b2)"
      using shifts_trans [OF b(3) shifts_trans [OF b1(3) shifts_trans [OF b2(3) shifts_exit]]] by simp
    then show ?thesis
      using h b(1,2,4) b1(1,2,4) b2(1,2,4) c w p
      by (auto simp: handleReverseStream_def bytesMoved_def aStreamExit_def Add_def)
  next
    case False
    then obtain b1 x where b1: "revDialed target (projr r) (dialTCP env target) st1 b = (x, b1)"
        "adialed b1 = adialed b" "shifts 0 0 b b1"
      using d by auto
    have "shifts 0 0 a (aStreamExit b1)" using shifts_trans [OF b(3) shifts_trans [OF b1(3) shifts_exit]] by simp
    then show ?thesis
      using h b(1,2) b1(1,2) False d w
      by (cases "dialTCP env target"; cases e) (auto simp: handleReverseStream_def aStreamExit_def)
  qed
qed

section \<open>The agent as acceptor\<close>

definition reverseServes :: "senv \<Rightarrow> Agent \<Rightarrow> Frame \<Rightarrow> endpoint \<Rightarrow> stream \<Rightarrow> endpoint option \<Rightarrow> stream \<Rightarrow>
    64 word \<Rightarrow> 64 word \<Rightarrow> bool" where
  "reverseServes env a f c st t st' up down \<longleftrightarrow>
     wireFrame f = f \<and> Type f = TypeOpen \<and> Direction f = DirectionReverse \<and>
     (\<exists>target a'. map_of (aReverse (acfg a)) (Service f) = Some target \<and> dialTCP env target = Inr c \<and>
        handleReverseStream env st a = (st', t, a') \<and>
        up = BytesClientToTarget (ametrics a') - BytesClientToTarget (ametrics a) \<and>
        down = BytesTargetToClient (ametrics a') - BytesTargetToClient (ametrics a))"

interpretation reverse_acceptor: acceptor "reverseServes env a f" f for env a f
proof unfold_locales
  fix c st t st' up down payload
  assume s: "reverseServes env a f c st t st' up down" and f: "wellFormed f"
    and scripts: "wr_script st = []" "wr_script (conn c) = []" and arr: "arriving st = frameBytes f @ payload"
  obtain target a' where h: "map_of (aReverse (acfg a)) (Service f) = Some target" "dialTCP env target = Inr c"
      "handleReverseStream env st a = (st', t, a')"
      "up = BytesClientToTarget (ametrics a') - BytesClientToTarget (ametrics a)"
      "down = BytesTargetToClient (ametrics a') - BytesTargetToClient (ametrics a)"
    and open_frame: "wireFrame f = f" "Type f = TypeOpen" "Direction f = DirectionReverse"
    using s unfolding reverseServes_def by blast
  obtain st1 where r: "revRequest env a st = (Inr f, st1)" and rest: "arriving st1 = payload"
    using ReadFrame_reads [OF f, of "stream_SetDeadline (Some (now env + aHandshakeTimeout (acfg a))) st" payload]
      arr open_frame(1) by (auto simp: revRequest_def)
  have st1: "tx st1 = tx st" "wr_script st1 = []" using revRequest_sides [OF r] scripts(1) by simp_all
  have "revTarget (acfg a) (Inr f) = Some target" using h(1) open_frame by (simp add: revTarget_def)
  note d = handleReverseStream_dials [OF r this h(3)]
  let ?q = "quicEnd (stream_SetDeadline None (st1\<lparr>tx := tx st1 @ frameBytes okFrame\<rparr>))"
  obtain count c' q where p: "Pipe c ?q = (count, c', q)" "st' = conn q" "t = Some c'"
      "bytesMoved (BToA count) (AToB count) a a'"
    using d h(2) st1 by (auto simp: okFrame_accepting)
  have "wr_script (conn ?q) = []" using st1 by (simp add: quicEnd_def)
  from Pipe_full [OF scripts(2) this] p h(4,5) show "tx st' = tx st @ frameBytes okFrame @ arriving (conn c) \<and>
      (\<exists>target'. t = Some target' \<and> tx (conn target') = tx (conn c) @ payload) \<and>
      up = word_of_nat (length payload) \<and> down = word_of_nat (length (arriving (conn c)))"
    using st1 rest by (auto simp: quicEnd_def arriving_more bytesMoved_def)
qed

section \<open>Reverse requests\<close>

text \<open>C11: The agent serves a reverse request exactly as its configuration says. It dials only when it has
  read an OPEN for the reverse direction of a service in its reverse table, and then the target of
  that service; every other stream is refused as unauthorized. On a stream that accepts what is
  written the peer is sent the refusal, the failure of the dial, or OK followed by the target's
  bytes. On every path the gauges end where they stood.\<close>

theorem handleReverseStream_exact:
  assumes "revRequest env a st = (r, st1)" "handleReverseStream env st a = (st', t, a')" "wr_script st = []"
  shows "ActiveQUICStreams (ametrics a') = ActiveQUICStreams (ametrics a) \<and>
    ActiveTCPConnections (ametrics a') = ActiveTCPConnections (ametrics a) \<and>
    (case revTarget (acfg a) r of
       None \<Rightarrow> tx st' = tx st @ frameBytes (errorFrame ErrorUnauthorized) \<and> t = None \<and> adialed a' = adialed a
     | Some target \<Rightarrow> adialed a' = adialed a @ [target] \<and>
         (case dialTCP env target of
            Inl _ \<Rightarrow> tx st' = tx st @ frameBytes (errorFrame ErrorDialFailed) \<and> t = None
          | Inr c \<Rightarrow> tx st' = tx st @ frameBytes okFrame @ arriving (conn c) \<and> t \<noteq> None))"
proof (cases "revTarget (acfg a) r")
  case None
  with handleReverseStream_refused [OF assms(1)] assms show ?thesis
    using revRequest_sides [OF assms(1)] by (auto simp: refuse_eq shifts_def)
next
  case (Some target)
  have st1: "tx st1 = tx st" "wr_script st1 = []" using revRequest_sides [OF assms(1)] assms(3) by simp_all
  note h = handleReverseStream_dials [OF assms(1) Some assms(2)]
  show ?thesis
  proof (cases "dialTCP env target")
    case (Inr c)
    let ?q = "quicEnd (stream_SetDeadline None (st1\<lparr>tx := tx st1 @ frameBytes okFrame\<rparr>))"
    obtain count c' q where "Pipe c ?q = (count, c', q)" "st' = conn q" "t = Some c'"
      using h Inr st1 by (auto simp: okFrame_accepting)
    then show ?thesis
      using h Some Inr Pipe_to_accepting [of ?q c] st1 by (auto simp: quicEnd_def shifts_def)
  qed (use h Some st1 in \<open>auto simp: refuse_eq shifts_def\<close>)
qed

definition sampleReverse :: Frame where
  "sampleReverse = zeroFrame\<lparr>Type := TypeOpen, Direction := DirectionReverse, Service := ''ssh''\<rparr>"

lemma sampleReverse_wellFormed: "wellFormed sampleReverse" "wireFrame sampleReverse = sampleReverse"
  by (simp_all add: sampleReverse_def wellFormed_def wireFrame_def opens_def zeroFrame_def validDirection_def
      length_bodyOf MaxFrameLen_def)

lemma revRequest_sample: "\<exists>st1. revRequest sampleEnv a (sampleStream [frameBytes sampleReverse @ rest]) = (Inr sampleReverse, st1)"
proof -
  let ?st = "stream_SetDeadline (Some (now sampleEnv + aHandshakeTimeout (acfg a))) (sampleStream [frameBytes sampleReverse @ rest])"
  have "arriving ?st = frameBytes sampleReverse @ rest"
    by (subst arriving_SetDeadline) (simp add: arriving_def sampleStream_def)
  from ReadFrame_reads [OF sampleReverse_wellFormed(1) this] sampleReverse_wellFormed(2) show ?thesis
    unfolding revRequest_def by auto
qed

theorem handleReverseStream_exact_witness:
  "\<exists>st' t a'. handleReverseStream sampleEnv (sampleStream [frameBytes sampleReverse @ [1, 2]]) sampleAgent = (st', t, a') \<and>
     tx st' = frameBytes okFrame @ [7, 8] \<and> adialed a' = [''h:80'']"
proof -
  let ?st = "sampleStream [frameBytes sampleReverse @ [1, 2]]"
  obtain st1 where r: "revRequest sampleEnv sampleAgent ?st = (Inr sampleReverse, st1)" using revRequest_sample by blast
  obtain st' t a' where h: "handleReverseStream sampleEnv ?st sampleAgent = (st', t, a')" by (metis prod_cases3)
  have v: "revTarget (acfg sampleAgent) (Inr sampleReverse) = Some ''h:80''"
    by (simp add: revTarget_def sampleReverse_def zeroFrame_def sampleAgent_def newAgent_def sampleAgtCfg_def)
  have d: "dialTCP sampleEnv ''h:80'' = Inr (sampleEnd [[7, 8]] [] True)" by (simp add: sampleEnv_def)
  have st: "wr_script ?st = []" "tx ?st = []" "adialed sampleAgent = []" "arriving (conn (sampleEnd [[7, 8]] [] True)) = [7, 8]"
    by (simp_all add: sampleStream_def sampleAgent_def newAgent_def sampleEnd_def arriving_def)
  from handleReverseStream_exact [OF r h st(1), unfolded v st option.case d sum.case] h show ?thesis by simp
qed

end
