(* ===== verification/Agent_Lifecycle.thy ===== *)
theory Agent_Lifecycle
  imports Agent_Streams Step_Systems
begin

text \<open>
  The running agent: \<open>Run\<close>, the goroutine of \<open>maintainConnection\<close>, the listeners of the forward
  services and the handlers they start, interleaved in any order. \<open>maint\<close> is the point at which
  \<open>maintainConnection\<close> stands; a handler is one of the stages below and goes from stage to stage by
  the parts of its definition, each of which changes at most one gauge, so that a handler that waits
  for the connection, a stream, a frame, a dial or the end of a copy waits in a stage of its own with
  its gauges raised. \<open>ended\<close> collects the QUIC connections that are closed, by the peer, by a timeout
  or by the agent's own \<open>CloseWithError\<close>.
\<close>

section \<open>Goroutines\<close>

datatype maint =
    LoopHead
  | InDial
  | Dialed connection
  | Published connection
  | Counted connection
  | Serving connection
  | Cleared connection
  | Uncounted connection
  | Waiting
  | MaintDone

text \<open>
  \<open>handleForwardTCP\<close> from \<open>FwdNew\<close> (its slot is taken, nothing is counted) to \<open>FwdFree\<close> (it has returned
  and its goroutine still holds the slot), and \<open>handleReverseStream\<close> from \<open>RevNew\<close> to \<open>RevLeave\<close>. A
  forward handler keeps its clock and connection id.
\<close>

datatype handler =
    FwdNew senv string endpoint
  | FwdWait senv string endpoint
  | FwdOpening senv string connection endpoint
  | FwdExchange senv string stream endpoint
  | FwdPipe senv string stream endpoint
  | FwdStreamLeave endpoint
  | FwdLeave endpoint
  | FwdFree
  | RevNew stream
  | RevWait stream
  | RevDial string Frame stream
  | RevReply Frame stream endpoint
  | RevPipe Frame stream endpoint
  | RevClose
  | RevLeave
  | HandlerExited

datatype runner = RunWaiting | RunClosed | RunReturned

record agt_sys =
  agt :: Agent
  sem :: channel
  maint :: maint
  delay :: duration
  handlers :: "handler list"
  ctxDone :: bool
  runner :: runner
  nextQuic :: connection
  ended :: "connection list"

definition setAgt :: "Agent \<Rightarrow> agt_sys \<Rightarrow> agt_sys" where
  "setAgt a S = S\<lparr>agt := a\<rparr>"

definition hruns :: "agt_sys \<Rightarrow> nat \<Rightarrow> handler \<Rightarrow> bool" where
  "hruns S i h \<longleftrightarrow> i < length (handlers S) \<and> handlers S ! i = h"

definition hmove :: "nat \<Rightarrow> handler \<Rightarrow> agt_sys \<Rightarrow> agt_sys" where
  "hmove i h S = S\<lparr>handlers := (handlers S)[i := h]\<rparr>"

definition hstart :: "handler \<Rightarrow> agt_sys \<Rightarrow> agt_sys" where
  "hstart h S = S\<lparr>handlers := handlers S @ [h]\<rparr>"

definition freeSem :: "agt_sys \<Rightarrow> agt_sys" where
  "freeSem S = S\<lparr>sem := receive (sem S)\<rparr>"

text \<open>\<open>closeConn\<close> with the \<open>CloseWithError\<close> that follows it.\<close>

definition shutConn :: "agt_sys \<Rightarrow> agt_sys" where
  "shutConn S = (case closeConn (agt S) of (c, a) \<Rightarrow> S\<lparr>agt := a, ended := (case c of None \<Rightarrow> [] | Some k \<Rightarrow> [k]) @ ended S\<rparr>)"

text \<open>What a handler continues as after a part.\<close>

fun gotNext :: "senv \<Rightarrow> string \<Rightarrow> endpoint \<Rightarrow> connection option \<Rightarrow> handler" where
  "gotNext env service tcp (Some k) = FwdOpening env service k tcp"
| "gotNext env service tcp None = FwdLeave tcp"

fun fwdOpenedNext :: "senv \<Rightarrow> string \<Rightarrow> endpoint \<Rightarrow> stream option \<Rightarrow> handler" where
  "fwdOpenedNext env service tcp (Some st) = FwdExchange env service st tcp"
| "fwdOpenedNext env service tcp None = FwdLeave tcp"

fun fwdExchangeNext :: "senv \<Rightarrow> string \<Rightarrow> endpoint \<Rightarrow> forward_stage \<Rightarrow> handler" where
  "fwdExchangeNext env service tcp (ForwardPiping st) = FwdPipe env service st tcp"
| "fwdExchangeNext env service tcp (ForwardDone _) = FwdStreamLeave tcp"

fun revNext :: "reverse_part \<Rightarrow> handler" where
  "revNext (RevDialing target frame st) = RevDial target frame st"
| "revNext (RevConnected frame st c) = RevReply frame st c"
| "revNext (RevPiping frame st c) = RevPipe frame st c"
| "revNext (RevAborted _ _) = RevClose"
| "revNext (RevFinished _) = RevLeave"

section \<open>Steps\<close>

text \<open>
  One part of a handler, on the state that all goroutines share. \<open>getConn\<close> returns the connection that
  is published when it looks, or an error.
\<close>

inductive hstep :: "handler \<Rightarrow> Agent \<Rightarrow> handler \<Rightarrow> Agent \<Rightarrow> bool" where
  counted: "hstep (FwdNew env service tcp) a (FwdWait env service tcp) (forwardCount a)"
| gotConn: "aconn a = Some k \<Longrightarrow> forwardGot env service (Inr k) a = (found, a') \<Longrightarrow>
    hstep (FwdWait env service tcp) a (gotNext env service tcp found) a'"
| gotError: "forwardGot env service (Inl err) a = (found, a') \<Longrightarrow>
    hstep (FwdWait env service tcp) a (gotNext env service tcp found) a'"
| opened: "forwardOpened env service stream a = (st, a') \<Longrightarrow>
    hstep (FwdOpening env service k tcp) a (fwdOpenedNext env service tcp st) a'"
| answered: "forwardExchange env service listener remote st a = (g, a') \<Longrightarrow>
    hstep (FwdExchange env service st tcp) a (fwdExchangeNext env service tcp g) a'"
| forwarded: "forwardCopied env service tcp st a = (tcp', st', a') \<Longrightarrow>
    hstep (FwdPipe env service st tcp) a (FwdStreamLeave tcp') a'"
| forwardStreamLeft: "hstep (FwdStreamLeave tcp) a (FwdLeave tcp) (aStreamExit a)"
| forwardLeft: "forwardExit tcp a = (tcp', a') \<Longrightarrow> hstep (FwdLeave tcp) a FwdFree a'"
| revEntered: "hstep (RevNew st) a (RevWait st) (revEnter a)"
| requested: "revRequested env st a = (p, a') \<Longrightarrow> hstep (RevWait st) a (revNext p) a'"
| dialled: "revOutcome target frame outcome st a = (p, a') \<Longrightarrow> hstep (RevDial target frame st) a (revNext p) a'"
| replied: "hstep (RevReply frame st c) a (revNext (revReply frame c st)) a"
| copied: "revCopied env frame c st a = (st', c', a') \<Longrightarrow> hstep (RevPipe frame st c) a RevClose a'"
| closed: "hstep RevClose a RevLeave (revUncount a)"
| left: "hstep RevLeave a HandlerExited (aStreamExit a)"

inductive agt_step :: "agt_sys \<Rightarrow> agt_sys \<Rightarrow> bool" where
  cancel: "agt_step S (S\<lparr>ctxDone := True\<rparr>)"
| connDies: "agt_step S (S\<lparr>ended := k # ended S\<rparr>)"
| loopEnds: "maint S = LoopHead \<Longrightarrow> ctxDone S \<Longrightarrow> agt_step S (S\<lparr>maint := MaintDone\<rparr>)"
| dialStarts: "maint S = LoopHead \<Longrightarrow> \<not> ctxDone S \<Longrightarrow>
     agt_step S (S\<lparr>maint := InDial, agt := connectStarted (agt S)\<rparr>)"
| dialFails: "maint S = InDial \<Longrightarrow>
     agt_step S (S\<lparr>maint := Waiting, agt := connectFailed err (delay S) (agt S)\<rparr>)"
| dialSucceeds: "maint S = InDial \<Longrightarrow>
     agt_step S (S\<lparr>maint := Dialed (nextQuic S), nextQuic := Suc (nextQuic S)\<rparr>)"
| publish: "maint S = Dialed k \<Longrightarrow> agt_step S (S\<lparr>maint := Published k, agt := setConn k (agt S)\<rparr>)"
| countUp: "maint S = Published k \<Longrightarrow> agt_step S (S\<lparr>maint := Counted k, agt := countUp (agt S)\<rparr>)"
| reportUp: "maint S = Counted k \<Longrightarrow> agt_step S (S\<lparr>maint := Serving k, agt := reportUp (agt S)\<rparr>)"
| acceptReverse: "maint S = Serving k \<Longrightarrow>
     agt_step S (hstart (RevNew st)
       (setAgt (logA (Debug ''stream_accepted'' (abase (agt S) @ [str ''direction'', str ''reverse''])) (agt S)) S))"
| sessionEnds: "maint S = Serving k \<Longrightarrow> ctxDone S \<or> k \<in> set (ended S) \<Longrightarrow>
     agt_step S (S\<lparr>maint := Cleared k, agt := clearConn k (agt S)\<rparr>)"
| countDown: "maint S = Cleared k \<Longrightarrow> agt_step S (S\<lparr>maint := Uncounted k, agt := countDown (agt S)\<rparr>)"
| reportDown: "maint S = Uncounted k \<Longrightarrow>
     agt_step S (S\<lparr>maint := Waiting, agt := reportDown (agt S), delay := afterSession lasted (delay S) (agt S)\<rparr>)"
| waitDone: "maint S = Waiting \<Longrightarrow> waitForReconnect w \<Longrightarrow>
     agt_step S (S\<lparr>maint := LoopHead, delay := nextReconnectDelay (delay S) (aReconnectDelay (acfg (agt S)))\<rparr>)"
| waitCancelled: "maint S = Waiting \<Longrightarrow> ctxDone S \<Longrightarrow> \<not> waitForReconnect w \<Longrightarrow> agt_step S (S\<lparr>maint := MaintDone\<rparr>)"
| runCloses: "runner S = RunWaiting \<Longrightarrow> ctxDone S \<Longrightarrow> agt_step S ((shutConn S)\<lparr>runner := RunClosed\<rparr>)"
| runReturns: "runner S = RunClosed \<Longrightarrow> agt_step S ((shutConn S)\<lparr>runner := RunReturned\<rparr>)"
| acceptForward: "has_key service (aForward (acfg (agt S))) \<Longrightarrow>
     acceptForward (Inr tcp) (sem S) (agt S) = (SpawnForward tcp', sem') \<Longrightarrow>
     agt_step S (hstart (FwdNew env service tcp') (S\<lparr>sem := sem'\<rparr>))"
| rejectForward: "has_key service (aForward (acfg (agt S))) \<Longrightarrow>
     acceptForward (Inr tcp) (sem S) (agt S) = (RejectForward tcp', sem') \<Longrightarrow>
     agt_step S (S\<lparr>sem := sem'\<rparr>)"
| hmoves: "hruns S i h \<Longrightarrow> hstep h (agt S) h' a \<Longrightarrow> agt_step S (hmove i h' (setAgt a S))"
| forwardEnds: "hruns S i FwdFree \<Longrightarrow> agt_step S (hmove i HandlerExited (freeSem S))"

text \<open>The state in which \<open>Run\<close> has started its goroutines.\<close>

definition agt_init :: "(string \<Rightarrow> bool) \<Rightarrow> AgtConfig \<Rightarrow> bytes \<Rightarrow> Logger \<Rightarrow> agt_sys \<Rightarrow> bool" where
  "agt_init listen config secret l S \<longleftrightarrow>
     (\<exists>services. startAgent listen (newAgent config secret l New) = (Inr services, agt S)) \<and>
     S = \<lparr>agt = agt S, sem = 0, maint = LoopHead, delay = aReconnectDelay (acfg (agt S)), handlers = [],
       ctxDone = False, runner = RunWaiting, nextQuic = 0, ended = []\<rparr>"

section \<open>What a goroutine holds\<close>

text \<open>Where a handler stands between raising a gauge (or taking the slot) and lowering it again.\<close>

fun holdsSem :: "handler \<Rightarrow> bool" where
  "holdsSem (FwdNew _ _ _) = True"
| "holdsSem (FwdWait _ _ _) = True"
| "holdsSem (FwdOpening _ _ _ _) = True"
| "holdsSem (FwdExchange _ _ _ _) = True"
| "holdsSem (FwdPipe _ _ _ _) = True"
| "holdsSem (FwdStreamLeave _) = True"
| "holdsSem (FwdLeave _) = True"
| "holdsSem FwdFree = True"
| "holdsSem _ = False"

fun hasStream :: "handler \<Rightarrow> bool" where
  "hasStream (FwdExchange _ _ _ _) = True"
| "hasStream (FwdPipe _ _ _ _) = True"
| "hasStream (FwdStreamLeave _) = True"
| "hasStream (RevWait _) = True"
| "hasStream (RevDial _ _ _) = True"
| "hasStream (RevReply _ _ _) = True"
| "hasStream (RevPipe _ _ _) = True"
| "hasStream RevClose = True"
| "hasStream RevLeave = True"
| "hasStream _ = False"

fun hasTCP :: "handler \<Rightarrow> bool" where
  "hasTCP (FwdWait _ _ _) = True"
| "hasTCP (FwdOpening _ _ _ _) = True"
| "hasTCP (FwdExchange _ _ _ _) = True"
| "hasTCP (FwdPipe _ _ _ _) = True"
| "hasTCP (FwdStreamLeave _) = True"
| "hasTCP (FwdLeave _) = True"
| "hasTCP (RevReply _ _ _) = True"
| "hasTCP (RevPipe _ _ _) = True"
| "hasTCP RevClose = True"
| "hasTCP _ = False"

fun isCounted :: "maint \<Rightarrow> bool" where
  "isCounted (Counted _) = True"
| "isCounted (Serving _) = True"
| "isCounted (Cleared _) = True"
| "isCounted _ = False"

fun publishes :: "maint \<Rightarrow> connection option" where
  "publishes (Published k) = Some k"
| "publishes (Counted k) = Some k"
| "publishes (Serving k) = Some k"
| "publishes _ = None"

section \<open>The invariant\<close>

definition agtInv :: "agt_sys \<Rightarrow> bool" where
  "agtInv S \<longleftrightarrow>
     sem S = count holdsSem (handlers S) \<and> int (sem S) \<le> aMaxConnections (acfg (agt S)) \<and>
     ActiveQUICStreams (ametrics (agt S)) = of_nat (count hasStream (handlers S)) \<and>
     ActiveTCPConnections (ametrics (agt S)) = of_nat (count hasTCP (handlers S)) \<and>
     QUICConnections (ametrics (agt S)) = of_bool (isCounted (maint S)) \<and>
     (\<forall>k. aconn (agt S) = Some k \<longrightarrow> publishes (maint S) = Some k) \<and>
     (\<forall>k. publishes (maint S) = Some k \<longrightarrow> aconn (agt S) = Some k \<or> runner S \<noteq> RunWaiting) \<and>
     (\<forall>t \<in> set (adialed (agt S)). \<exists>service. map_of (aReverse (acfg (agt S))) service = Some t)"

lemma agtInv_move:
  assumes inv: "agtInv S" and i: "hruns S i h"
    and sh: "shifts (of_bool (hasStream h') - of_bool (hasStream h)) (of_bool (hasTCP h') - of_bool (hasTCP h)) (agt S) a"
    and d: "\<forall>t \<in> set (adialed a). t \<in> set (adialed (agt S)) \<or> (\<exists>service. map_of (aReverse (acfg (agt S))) service = Some t)"
    and n: "n + of_bool (holdsSem h) = sem S + of_bool (holdsSem h')" "n \<le> sem S"
  shows "agtInv (S\<lparr>agt := a, sem := n, handlers := (handlers S)[i := h']\<rparr>)"
proof -
  have i: "i < length (handlers S)" "handlers S ! i = h" using i by (simp_all add: hruns_def)
  have "n = count holdsSem ((handlers S)[i := h'])"
    using count_update [OF i(1), of holdsSem h'] i(2) inv n(1) by (simp add: agtInv_def)
  moreover have "int n \<le> aMaxConnections (acfg a)" using inv n(2) sh by (simp add: agtInv_def shifts_def)
  moreover have "ActiveQUICStreams (ametrics a) = of_nat (count hasStream ((handlers S)[i := h']))"
    "ActiveTCPConnections (ametrics a) = of_nat (count hasTCP ((handlers S)[i := h']))"
    using inv sh i by (simp_all add: agtInv_def shifts_def of_nat_count_update)
  ultimately show ?thesis
    using inv sh d by (auto simp: agtInv_def shifts_def)
qed

text \<open>The two shapes of a handler's step: it keeps its slot, or it leaves and gives it back.\<close>

lemma agtInv_hmove:
  assumes "agtInv S" "hruns S i h"
    and "shifts (of_bool (hasStream h') - of_bool (hasStream h)) (of_bool (hasTCP h') - of_bool (hasTCP h)) (agt S) a"
    and "\<forall>t \<in> set (adialed a). t \<in> set (adialed (agt S)) \<or> (\<exists>service. map_of (aReverse (acfg (agt S))) service = Some t)"
    and "holdsSem h' = holdsSem h"
  shows "agtInv (hmove i h' (setAgt a S))"
  using agtInv_move [OF assms(1-4), of "sem S"] assms(5) by (simp add: hmove_def setAgt_def)

lemma agtInv_leave:
  assumes "agtInv S" "hruns S i FwdFree"
  shows "agtInv (hmove i HandlerExited (freeSem S))"
proof -
  have "0 < sem S"
    using assms count_positive [of i "handlers S" holdsSem] by (auto simp: agtInv_def hruns_def)
  then show ?thesis
    using agtInv_move [OF assms, of HandlerExited "agt S" "sem S - 1"]
    by (simp add: hmove_def freeSem_def receive_def shifts_def)
qed

section \<open>Every part of a handler moves the gauges as its goroutine moves\<close>

text \<open>What a part does to the gauges and to the addresses dialled, as its handler moves from \<open>h\<close> to \<open>h'\<close>.\<close>

definition hchanges :: "Agent \<Rightarrow> Agent \<Rightarrow> handler \<Rightarrow> handler \<Rightarrow> bool" where
  "hchanges a a' h h' \<longleftrightarrow> holdsSem h' = holdsSem h \<and>
     shifts (of_bool (hasStream h') - of_bool (hasStream h)) (of_bool (hasTCP h') - of_bool (hasTCP h)) a a' \<and>
     (\<forall>t \<in> set (adialed a'). t \<in> set (adialed a) \<or> (\<exists>service. map_of (aReverse (acfg a)) service = Some t))"

lemma hchanges_forward:
  "hchanges a (forwardCount a) (FwdNew env service tcp) (FwdWait env service tcp)"
  "forwardGot env service got a = (found, a') \<Longrightarrow>
     hchanges a a' (FwdWait env service tcp) (gotNext env service tcp found)"
  "forwardOpened env service stream a = (st, a') \<Longrightarrow>
     hchanges a a' (FwdOpening env service k tcp) (fwdOpenedNext env service tcp st)"
  "forwardCopied env service tcp st' a = (tcp', st'', a') \<Longrightarrow>
     hchanges a a' (FwdPipe env service st' tcp) (FwdStreamLeave tcp')"
  "hchanges a (aStreamExit a) (FwdStreamLeave tcp) (FwdLeave tcp)"
  "forwardExit tcp a = (tcp', a') \<Longrightarrow> hchanges a a' (FwdLeave tcp) FwdFree"
  by (auto simp: hchanges_def shifts_def forwardCount_def forwardGot_def forwardOpened_def forwardCopied_def forwardExit_def
      aStreamExit_def Add_def Let_def split: sum.splits prod.splits)

lemma hchanges_exchange:
  assumes "forwardExchange env service listener remote st a = (g, a')"
  shows "hchanges a a' (FwdExchange env service st tcp) (fwdExchangeNext env service tcp g)"
proof -
  have "shifts 0 0 a a'" "adialed a' = adialed a"
    using assms by (auto simp: forwardExchange_def shifts_def Add_def Let_def
        split: prod.splits option.splits sum.splits if_splits)
  then show ?thesis by (cases g) (simp_all add: hchanges_def)
qed

lemma hchanges_requested:
  assumes "revRequested env st a = (p, a')"
  shows "hchanges a a' (RevWait st) (revNext p)"
proof -
  obtain r st1 where "revRequest env a st = (r, st1)" by (cases "revRequest env a st")
  from revRequested_stage [OF this] assms have p: "p = (case revTarget (acfg a) r of
       None \<Rightarrow> RevFinished (refuse ErrorUnauthorized st1) | Some target \<Rightarrow> RevDialing target (projr r) st1)"
    and a': "adialed a' = adialed a @ (case revTarget (acfg a) r of None \<Rightarrow> [] | Some target \<Rightarrow> [target])" "shifts 0 0 a a'"
    by auto
  then show ?thesis
    by (auto simp: hchanges_def revTarget_def split: option.splits sum.splits if_splits)
qed

lemma hchanges_rev:
  "hchanges a (revEnter a) (RevNew st) (RevWait st)"
  "revOutcome target frame outcome st a = (p, a') \<Longrightarrow> hchanges a a' (RevDial target frame st) (revNext p)"
  "hchanges a a (RevReply frame st c) (revNext (revReply frame c st))"
  "revCopied env frame c st a = (st', c', a') \<Longrightarrow> hchanges a a' (RevPipe frame st c) RevClose"
  "hchanges a (revUncount a) RevClose RevLeave"
  "hchanges a (aStreamExit a) RevLeave HandlerExited"
  by (auto simp: hchanges_def shifts_def revEnter_def revOutcome_def revReply_def revCopied_def revUncount_def aStreamExit_def
      Add_def split: sum.splits prod.splits option.splits)

lemma hstep_changes: "hstep h a h' a' \<Longrightarrow> hchanges a a' h h'"
  by (induction rule: hstep.induct)
    (simp_all add: hchanges_forward hchanges_exchange hchanges_requested hchanges_rev)

section \<open>The invariant is inductive\<close>

lemma agtInv_accept:
  assumes "agtInv S" "acceptForward (Inr tcp) (sem S) (agt S) = (r, n)"
  shows "case r of SpawnForward tcp' \<Rightarrow> agtInv (hstart (FwdNew env service tcp') (S\<lparr>sem := n\<rparr>))
    | _ \<Rightarrow> agtInv (S\<lparr>sem := n\<rparr>)"
proof (cases "trySend (aMaxConnections (acfg (agt S))) (sem S)")
  case None
  with assms show ?thesis by (auto simp: acceptForward_def)
next
  case (Some m)
  have "int m \<le> aMaxConnections (acfg (agt S))" "m = Suc (sem S)"
    using channel.acquire_bounded [OF Some] channel.acquire_Some [OF Some] by auto
  with Some assms show ?thesis by (auto simp: acceptForward_def agtInv_def hstart_def)
qed

lemma agtInv_shut: "agtInv S \<Longrightarrow> agtInv ((shutConn S)\<lparr>runner := r\<rparr>)" if "r \<noteq> RunWaiting"
  using that by (auto simp: shutConn_def closeConn_def agtInv_def)

lemma connect_metrics [simp]:
  "ametrics (connectStarted a) = ametrics a" "acfg (connectStarted a) = acfg a" "aconn (connectStarted a) = aconn a"
  "adialed (connectStarted a) = adialed a"
  "ametrics (connectFailed e d a) = ametrics a" "acfg (connectFailed e d a) = acfg a" "aconn (connectFailed e d a) = aconn a"
  "adialed (connectFailed e d a) = adialed a"
  by (simp_all add: connectStarted_def connectFailed_def)

lemma report_gauges [simp]:
  "ActiveQUICStreams (ametrics (reportUp a)) = ActiveQUICStreams (ametrics a)"
  "ActiveTCPConnections (ametrics (reportUp a)) = ActiveTCPConnections (ametrics a)"
  "QUICConnections (ametrics (reportUp a)) = QUICConnections (ametrics a)"
  "ActiveQUICStreams (ametrics (reportDown a)) = ActiveQUICStreams (ametrics a)"
  "ActiveTCPConnections (ametrics (reportDown a)) = ActiveTCPConnections (ametrics a)"
  "QUICConnections (ametrics (reportDown a)) = QUICConnections (ametrics a)"
  "ametrics (countUp a) = Add QUICConnections_update 1 (ametrics a)"
  "ametrics (countDown a) = Add QUICConnections_update (-1) (ametrics a)"
  by (simp_all add: reportUp_def reportDown_def countUp_def countDown_def SetAgentConnected_def)

lemma agtInv_step: "agt_step S T \<Longrightarrow> agtInv S \<Longrightarrow> agtInv T"
proof (induction rule: agt_step.induct)
  case (publish S k)
  then show ?case by (simp add: agtInv_def setConn_def)
next
  case (sessionEnds S k)
  then show ?case by (cases "aconn (agt S)") (auto simp: agtInv_def clearConn_def)
next
  case (acceptReverse S k st)
  then show ?case by (simp add: agtInv_def hstart_def setAgt_def)
next
  case (runCloses S)
  then show ?case by (simp add: agtInv_shut)
next
  case (runReturns S)
  then show ?case by (simp add: agtInv_shut)
next
  case (acceptForward service S tcp tcp' sem' env)
  with agtInv_accept [OF acceptForward.prems acceptForward.hyps(2)] show ?case by simp
next
  case (rejectForward service S tcp tcp' sem')
  with agtInv_accept [OF rejectForward.prems rejectForward.hyps(2)] show ?case by simp
next
  case (hmoves S i h h' a)
  then show ?case
    using hstep_changes [OF hmoves.hyps(2)] by (intro agtInv_hmove [OF hmoves.prems hmoves.hyps(1)]) (auto simp: hchanges_def)
next
  case (forwardEnds S i)
  then show ?case by (intro agtInv_leave)
qed (auto simp: agtInv_def Add_def)

lemma startListeners_fields:
  "startListeners listen fs a = (r, a') \<Longrightarrow>
     acfg a' = acfg a \<and> ametrics a' = ametrics a \<and> aconn a' = aconn a \<and> adialed a' = adialed a"
proof (induction fs arbitrary: a r a')
  case (Cons x fs)
  obtain service addr where x: "x = (service, addr)" by (cases x)
  let ?a = "logA (Info ''forward_listener_started'' (abase a @ [str ''service'', str service, str ''listener_address'', str addr])) a"
  obtain r1 a1 where r1: "startListeners listen fs ?a = (r1, a1)" by (cases "startListeners listen fs ?a")
  from Cons.IH [OF r1] Cons.prems r1 show ?case by (cases r1) (auto simp: x Let_def split: if_splits)
qed simp

lemma startAgent_Inr:
  assumes "startAgent listen (newAgent config secret l New) = (Inr services, a)"
  shows "acfg a = agtApplyDefaults config" "agtValidateConfig (acfg a) = Inr ()" "aconn a = None" "adialed a = []"
    "ametrics a = ConfigureAgent (aAgentID config) (aServer config) New"
  using assms by (auto simp: startAgent_def newAgent_def Let_def agtApplyDefaults_def dest!: startListeners_fields
      split: sum.splits)

lemma agtInv_init: "agt_init listen config secret l S \<Longrightarrow> agtInv S"
proof -
  assume "agt_init listen config secret l S"
  then obtain services where s: "startAgent listen (newAgent config secret l New) = (Inr services, agt S)"
    and S: "S = \<lparr>agt = agt S, sem = 0, maint = LoopHead, delay = aReconnectDelay (acfg (agt S)), handlers = [],
       ctxDone = False, runner = RunWaiting, nextQuic = 0, ended = []\<rparr>"
    unfolding agt_init_def by blast
  note a = startAgent_Inr [OF s]
  have "sem S = 0" "maint S = LoopHead" "handlers S = []" by (subst S, simp)+
  then show ?thesis
    using a by (simp add: agtInv_def agtValidateConfig_iff ConfigureAgent_def New_def)
qed

definition agtStarts :: "agt_sys \<Rightarrow> bool" where
  "agtStarts S \<longleftrightarrow> (\<exists>listen config secret l. agt_init listen config secret l S)"

interpretation agent: invariant_system agtStarts agt_step agtInv
  by unfold_locales (auto simp: agtStarts_def agtInv_init agtInv_step)

text \<open>No step changes the configuration.\<close>

lemma agt_step_cfg: "agt_step S T \<Longrightarrow> acfg (agt T) = acfg (agt S)"
proof (induction rule: agt_step.induct)
  case (hmoves S i h h' a)
  from hstep_changes [OF hmoves.hyps(2)] show ?case by (simp add: hchanges_def shifts_def hmove_def setAgt_def)
qed (simp_all add: hmove_def hstart_def setAgt_def shutConn_def closeConn_def freeSem_def)

lemma agt_run_cfg: "agt_step\<^sup>*\<^sup>* S T \<Longrightarrow> acfg (agt T) = acfg (agt S)"
  by (induction rule: rtranclp_induct) (auto dest: agt_step_cfg)

section \<open>Runs\<close>

text \<open>Three stretches of a run: the loop connects, the loop ends, \<open>Run\<close> returns.\<close>

lemma loop_connects:
  assumes "maint S = LoopHead" "\<not> ctxDone S"
  shows "\<exists>T. agt_step\<^sup>*\<^sup>* S T \<and> maint T = Serving (nextQuic S) \<and> nextQuic T = Suc (nextQuic S) \<and> handlers T = handlers S \<and>
    ended T = ended S \<and> runner T = runner S"
proof -
  let ?k = "nextQuic S"
  define S1 where "S1 = S\<lparr>maint := InDial, agt := connectStarted (agt S)\<rparr>"
  define S2 where "S2 = S1\<lparr>maint := Dialed ?k, nextQuic := Suc ?k\<rparr>"
  define S3 where "S3 = S2\<lparr>maint := Published ?k, agt := setConn ?k (agt S2)\<rparr>"
  define S4 where "S4 = S3\<lparr>maint := Counted ?k, agt := countUp (agt S3)\<rparr>"
  define S5 where "S5 = S4\<lparr>maint := Serving ?k, agt := reportUp (agt S4)\<rparr>"
  have "agt_step S S1" unfolding S1_def using assms by (rule agt_step.dialStarts)
  moreover have "agt_step S1 S2" unfolding S2_def using agt_step.dialSucceeds [of S1] by (simp add: S1_def)
  moreover have "agt_step S2 S3" unfolding S3_def by (rule agt_step.publish) (simp add: S2_def)
  moreover have "agt_step S3 S4" unfolding S4_def by (rule agt_step.countUp) (simp add: S3_def)
  moreover have "agt_step S4 S5" unfolding S5_def by (rule agt_step.reportUp) (simp add: S4_def)
  ultimately have "agt_step\<^sup>*\<^sup>* S S5" by (meson converse_rtranclp_into_rtranclp rtranclp.rtrancl_refl)
  then show ?thesis by (intro exI [of _ S5]) (simp add: S1_def S2_def S3_def S4_def S5_def)
qed

lemma loop_ends:
  assumes "maint S = Serving k" "ctxDone S" "agtInv S"
  shows "\<exists>T. agt_step\<^sup>*\<^sup>* S T \<and> maint T = MaintDone \<and> aconn (agt T) = None \<and> ctxDone T \<and> nextQuic T = nextQuic S \<and>
    handlers T = handlers S \<and> ended T = ended S \<and> runner T = runner S"
proof -
  define S1 where "S1 = S\<lparr>maint := Cleared k, agt := clearConn k (agt S)\<rparr>"
  define S2 where "S2 = S1\<lparr>maint := Uncounted k, agt := countDown (agt S1)\<rparr>"
  define S3 where "S3 = S2\<lparr>maint := Waiting, agt := reportDown (agt S2), delay := afterSession 0 (delay S2) (agt S2)\<rparr>"
  define S4 where "S4 = S3\<lparr>maint := MaintDone\<rparr>"
  have "agt_step S S1" unfolding S1_def using assms by (intro agt_step.sessionEnds) simp_all
  moreover have "agt_step S1 S2" unfolding S2_def by (rule agt_step.countDown) (simp add: S1_def)
  moreover have "agt_step S2 S3" unfolding S3_def by (rule agt_step.reportDown) (simp add: S2_def)
  moreover have "agt_step S3 S4" unfolding S4_def
    using assms(2) by (intro agt_step.waitCancelled [where w = Cancelled]) (simp_all add: S1_def S2_def S3_def waitForReconnect_def)
  ultimately have "agt_step\<^sup>*\<^sup>* S S4" by (meson converse_rtranclp_into_rtranclp rtranclp.rtrancl_refl)
  moreover have "aconn (clearConn k (agt S)) = None"
    using assms(1,3) by (cases "aconn (agt S)") (auto simp: agtInv_def clearConn_def)
  ultimately show ?thesis using assms(2) by (intro exI [of _ S4]) (simp add: S1_def S2_def S3_def S4_def)
qed

lemma run_returns:
  assumes "runner S = RunWaiting" "ctxDone S" "aconn (agt S) = None"
  shows "\<exists>T. agt_step\<^sup>*\<^sup>* S T \<and> runner T = RunReturned \<and> maint T = maint S \<and> nextQuic T = nextQuic S \<and>
    handlers T = handlers S \<and> ended T = ended S \<and> aconn (agt T) = None"
proof -
  define S1 where "S1 = (shutConn S)\<lparr>runner := RunClosed\<rparr>"
  define S2 where "S2 = (shutConn S1)\<lparr>runner := RunReturned\<rparr>"
  have "agt_step S S1" unfolding S1_def using assms(1,2) by (rule agt_step.runCloses)
  moreover have "agt_step S1 S2" unfolding S2_def by (rule agt_step.runReturns) (simp add: S1_def)
  ultimately have "agt_step\<^sup>*\<^sup>* S S2" by (meson converse_rtranclp_into_rtranclp rtranclp.rtrancl_refl)
  then show ?thesis using assms by (intro exI [of _ S2]) (simp add: S1_def S2_def shutConn_def closeConn_def)
qed

definition sampleAgtSys :: agt_sys where
  "sampleAgtSys = (let a = snd (startAgent (\<lambda>_. True) (newAgent sampleAgtCfg [1] (NewForWriter ''text'' ''error'' []) New)) in
     \<lparr>agt = a, sem = 0, maint = LoopHead, delay = aReconnectDelay (acfg a), handlers = [],
       ctxDone = False, runner = RunWaiting, nextQuic = 0, ended = []\<rparr>)"

lemma startListeners_all: "\<exists>services a'. startListeners (\<lambda>_. True) fs a = (Inr services, a')"
proof (induction fs arbitrary: a)
  case (Cons x fs)
  show ?case
    using Cons.IH [of "logA (Info ''forward_listener_started'' (abase a @ [str ''service'', str (fst x),
      str ''listener_address'', str (snd x)])) a"]
    by (cases x) (auto simp: Let_def)
qed simp

lemma sampleAgtCfg_valid: "agtApplyDefaults sampleAgtCfg = sampleAgtCfg" "agtValidateConfig sampleAgtCfg = Inr ()"
proof -
  show "agtApplyDefaults sampleAgtCfg = sampleAgtCfg"
    by (simp add: agtApplyDefaults_def sampleAgtCfg_def orDefault_def time_defs)
  show "agtValidateConfig sampleAgtCfg = Inr ()" by code_simp
qed

lemma sampleAgtSys_init:
  "agt_init (\<lambda>_. True) sampleAgtCfg [1] (NewForWriter ''text'' ''error'' []) sampleAgtSys"
proof -
  let ?a = "newAgent sampleAgtCfg [1] (NewForWriter ''text'' ''error'' []) New"
  have c: "acfg ?a = sampleAgtCfg" by (simp add: newAgent_def)
  have "\<exists>services a'. startAgent (\<lambda>_. True) ?a = (Inr services, a')"
    by (simp add: startAgent_def Let_def c sampleAgtCfg_valid startListeners_all)
  then show ?thesis by (auto simp: agt_init_def sampleAgtSys_def Let_def)
qed

text \<open>The sample agent is connected, and a forward handler has been counted and waits for the connection.\<close>

lemma sampleAgtSys_waiting:
  "\<exists>S. agt_step\<^sup>*\<^sup>* sampleAgtSys S \<and> maint S = Serving 0 \<and> handlers S = [FwdWait sampleEnv ''web'' tcp] \<and>
     runner S = RunWaiting"
proof -
  note init = sampleAgtSys_init
  have S0: "maint sampleAgtSys = LoopHead" "\<not> ctxDone sampleAgtSys" "runner sampleAgtSys = RunWaiting"
      "nextQuic sampleAgtSys = 0" "handlers sampleAgtSys = []" "sem sampleAgtSys = 0"
    using init unfolding agt_init_def by (metis agt_sys.select_convs)+
  obtain S where S: "agt_step\<^sup>*\<^sup>* sampleAgtSys S" "maint S = Serving 0" "handlers S = []" "runner S = RunWaiting"
    using loop_connects [OF S0(1,2)] S0 by auto
  obtain services where "startAgent (\<lambda>_. True) (newAgent sampleAgtCfg [1] (NewForWriter ''text'' ''error'' []) New) =
      (Inr services, agt sampleAgtSys)"
    using init unfolding agt_init_def by blast
  then have cfg: "acfg (agt S) = sampleAgtCfg"
    using startAgent_Inr(1) agt_run_cfg [OF S(1)] sampleAgtCfg_valid(1) by simp
  have "agtStarts sampleAgtSys" using init by (auto simp: agtStarts_def)
  from agent.reachable_inv [OF this S(1)] have "sem S = 0" using S(3) by (simp add: agtInv_def)
  then have acc: "acceptForward (Inr tcp) (sem S) (agt S) = (SpawnForward tcp, 1)"
    by (simp add: acceptForward_def trySend_def cfg sampleAgtCfg_def)
  let ?T = "hstart (FwdNew sampleEnv ''web'' tcp) (S\<lparr>sem := 1\<rparr>)"
  let ?U = "hmove 0 (FwdWait sampleEnv ''web'' tcp) (setAgt (forwardCount (agt ?T)) ?T)"
  have "has_key ''web'' (aForward (acfg (agt S)))" by (simp add: cfg sampleAgtCfg_def has_key_iff)
  from agt_step.acceptForward [OF this acc] have "agt_step S ?T" .
  moreover have "hruns ?T 0 (FwdNew sampleEnv ''web'' tcp)" using S(3) by (simp add: hruns_def hstart_def)
  then have "agt_step ?T ?U" by (rule agt_step.hmoves) (rule hstep.counted)
  ultimately have "agt_step\<^sup>*\<^sup>* sampleAgtSys ?U" using S(1) by (meson rtranclp.rtrancl_into_rtrancl)
  then show ?thesis
    using S by (intro exI [of _ ?U]) (simp add: hmove_def hstart_def setAgt_def)
qed

section \<open>Properties\<close>

text \<open>C9: In every state that a running agent can reach, under any interleaving of its goroutines and
  whatever its peers do: the slots taken are the forward handlers in flight and never more than
  \<open>max_connections\<close>; the gauges for streams and TCP connections are the numbers of handlers that have
  raised them and not yet lowered them (modulo \<open>2\<^sup>6\<^sup>4\<close>), also while those handlers wait for the
  connection, a stream or an answer, and the gauge for the QUIC connection is 1 exactly between its two
  updates in the reconnect loop; every address that was dialled is a reverse target of the
  configuration; and the connection offered to the handlers is the one that the reconnect loop
  serves: nothing else is ever offered, and until \<open>Run\<close> starts to shut down that one is.\<close>

theorem agent_limits:
  assumes "agt_init listen config secret l S0" "agt_step\<^sup>*\<^sup>* S0 S"
  shows "sem S = count holdsSem (handlers S) \<and> int (sem S) \<le> aMaxConnections (agtApplyDefaults config) \<and>
    ActiveQUICStreams (ametrics (agt S)) = of_nat (count hasStream (handlers S)) \<and>
    ActiveTCPConnections (ametrics (agt S)) = of_nat (count hasTCP (handlers S)) \<and>
    QUICConnections (ametrics (agt S)) = of_bool (isCounted (maint S)) \<and>
    (\<forall>t \<in> set (adialed (agt S)). \<exists>service. map_of (aReverse config) service = Some t) \<and>
    (\<forall>k. aconn (agt S) = Some k \<longrightarrow> publishes (maint S) = Some k) \<and>
    (runner S = RunWaiting \<longrightarrow> aconn (agt S) = publishes (maint S))"
proof -
  have "agtStarts S0" using assms(1) by (auto simp: agtStarts_def)
  from agent.reachable_inv [OF this assms(2)] have inv: "agtInv S" .
  obtain services where "startAgent listen (newAgent config secret l New) = (Inr services, agt S0)"
    using assms(1) unfolding agt_init_def by blast
  then have "acfg (agt S) = agtApplyDefaults config" using startAgent_Inr(1) agt_run_cfg [OF assms(2)] by simp
  with inv have "int (sem S) \<le> aMaxConnections (agtApplyDefaults config)"
      "\<forall>t \<in> set (adialed (agt S)). \<exists>service. map_of (aReverse config) service = Some t"
    unfolding agtInv_def agtApplyDefaults_def by auto
  moreover have "aconn (agt S) = publishes (maint S)" if "runner S = RunWaiting"
    using inv that unfolding agtInv_def by (metis option.exhaust)
  ultimately show ?thesis using inv unfolding agtInv_def by blast
qed

theorem agent_limits_witness:
  "\<exists>S tcp. agt_step\<^sup>*\<^sup>* sampleAgtSys S \<and> maint S = Serving 0 \<and> handlers S = [FwdWait sampleEnv ''web'' tcp] \<and>
     sem S = 1 \<and> ActiveTCPConnections (ametrics (agt S)) = 1 \<and> ActiveQUICStreams (ametrics (agt S)) = 0 \<and>
     QUICConnections (ametrics (agt S)) = 1 \<and> aconn (agt S) = Some 0"
proof -
  fix tcp
  obtain S where S: "agt_step\<^sup>*\<^sup>* sampleAgtSys S" "maint S = Serving 0" "handlers S = [FwdWait sampleEnv ''web'' tcp]"
      "runner S = RunWaiting"
    using sampleAgtSys_waiting by blast
  from agent_limits [OF sampleAgtSys_init S(1)] S show ?thesis
    by (intro exI [of _ S] exI [of _ tcp]) simp
qed

text \<open>C40: An agent that is shut down can leave its connection open. When the reconnect loop notices the end
  of the context before \<open>Run\<close> does, it clears the connection without closing it, \<open>Run\<close> finds
  nothing to close, and the agent ends with a connection that nobody has closed, so the server
  goes on holding it for a live session.\<close>

theorem agent_shutdown_leaves_connection:
  assumes "agt_init listen config secret l S0"
  shows "\<exists>S. agt_step\<^sup>*\<^sup>* S0 S \<and> runner S = RunReturned \<and> maint S = MaintDone \<and> handlers S = [] \<and>
    nextQuic S = 1 \<and> 0 \<notin> set (ended S) \<and> aconn (agt S) = None"
proof -
  have S0: "maint S0 = LoopHead" "\<not> ctxDone S0" "runner S0 = RunWaiting" "nextQuic S0 = 0" "ended S0 = []" "handlers S0 = []"
    using assms unfolding agt_init_def by (metis agt_sys.select_convs)+
  obtain S1 where 1: "agt_step\<^sup>*\<^sup>* S0 S1" "maint S1 = Serving 0" "nextQuic S1 = 1" "handlers S1 = []" "ended S1 = []"
      "runner S1 = RunWaiting"
    using loop_connects [OF S0(1,2)] S0 by auto
  let ?S2 = "S1\<lparr>ctxDone := True\<rparr>"
  have 2: "agt_step\<^sup>*\<^sup>* S0 ?S2" using 1(1) agt_step.cancel by (rule rtranclp.rtrancl_into_rtrancl)
  have "agtStarts S0" using assms by (auto simp: agtStarts_def)
  from agent.reachable_inv [OF this 2] have "agtInv ?S2" .
  then obtain S3 where 3: "agt_step\<^sup>*\<^sup>* ?S2 S3" "maint S3 = MaintDone" "aconn (agt S3) = None" "ctxDone S3" "nextQuic S3 = 1"
      "handlers S3 = []" "ended S3 = []" "runner S3 = RunWaiting"
    using loop_ends [of ?S2 0] 1 by auto
  obtain S4 where 4: "agt_step\<^sup>*\<^sup>* S3 S4" "runner S4 = RunReturned" "maint S4 = MaintDone" "nextQuic S4 = 1" "handlers S4 = []"
      "ended S4 = []" "aconn (agt S4) = None"
    using run_returns [OF 3(8,4,3)] 3 by auto
  from 2 3(1) 4(1) have "agt_step\<^sup>*\<^sup>* S0 S4" by (meson rtranclp_trans)
  with 4 show ?thesis by auto
qed

theorem agent_shutdown_leaves_connection_witness:
  "\<exists>S. agt_step\<^sup>*\<^sup>* sampleAgtSys S \<and> runner S = RunReturned \<and> nextQuic S = 1 \<and> 0 \<notin> set (ended S)"
  using agent_shutdown_leaves_connection [OF sampleAgtSys_init] by blast

end
