(* ===== verification/Go_Flag.thy ===== *)
theory Go_Flag
  imports Go_Time
begin

text \<open>
  The parts of Go's \<open>flag\<close> and \<open>strconv\<close> packages that the command line uses: \<open>ParseBool\<close>,
  \<open>ParseInt\<close> with base 0, and \<open>FlagSet.Parse\<close> on flags that hold a string, a boolean, an
  integer, a duration or a repeatable mapping.
\<close>

section \<open>Numbers and booleans\<close>

definition ParseBool :: "string \<Rightarrow> bool option" where
  "ParseBool s =
     (if s \<in> set [''1'', ''t'', ''T'', ''TRUE'', ''true'', ''True''] then Some True
      else if s \<in> set [''0'', ''f'', ''F'', ''FALSE'', ''false'', ''False''] then Some False
      else None)"

definition lowerChar :: "char \<Rightarrow> char" where
  "lowerChar c = (let n = (of_char c :: nat) in if 65 \<le> n \<and> n \<le> 90 then char_of (n + 32) else c)"

text \<open>The value of a digit in bases up to 36.\<close>

definition digitIn :: "char \<Rightarrow> int option" where
  "digitIn c = (let n = int (of_char (lowerChar c)) in
     if 48 \<le> n \<and> n \<le> 57 then Some (n - 48) else if 97 \<le> n \<and> n \<le> 122 then Some (n - 87) else None)"

text \<open>The digit loop of \<open>ParseUint\<close>: underscores are skipped, overflow of 64 bits fails.\<close>

fun digitsIn :: "int \<Rightarrow> int \<Rightarrow> string \<Rightarrow> int option" where
  "digitsIn b n [] = Some n"
| "digitsIn b n (c # cs) =
     (if c = CHR ''_'' then digitsIn b n cs
      else case digitIn c of
          None \<Rightarrow> None
        | Some d \<Rightarrow> if d \<ge> b \<or> n * b + d \<ge> 2 ^ 64 then None else digitsIn b (n * b + d) cs)"

text \<open>\<open>underscoreOK\<close>: an underscore stands between digits, or between a base prefix and a digit.\<close>

fun underscores :: "bool \<Rightarrow> char \<Rightarrow> string \<Rightarrow> bool" where
  "underscores hex i [] = (i \<noteq> CHR ''_'')"
| "underscores hex i (c # cs) =
     (let l = lowerChar c in
      if is_digit c \<or> hex \<and> l \<in> set ''abcdef'' then underscores hex (CHR ''0'') cs
      else if c = CHR ''_'' then i = CHR ''0'' \<and> underscores hex (CHR ''_'') cs
      else i \<noteq> CHR ''_'' \<and> underscores hex (CHR ''!'') cs)"

definition basePrefix :: "string \<Rightarrow> char option" where
  "basePrefix s = (case s of
       CHR ''0'' # c # _ \<Rightarrow> if lowerChar c \<in> set ''box'' then Some (lowerChar c) else None
     | _ \<Rightarrow> None)"

definition underscoreOK :: "string \<Rightarrow> bool" where
  "underscoreOK s = (case basePrefix s of
       Some c \<Rightarrow> underscores (c = CHR ''x'') (CHR ''0'') (drop 2 s)
     | None \<Rightarrow> underscores False (CHR ''^'') s)"

definition ParseUint0 :: "string \<Rightarrow> int option" where
  "ParseUint0 s =
     (if s = [] then None
      else
        let (b, ds) =
          (if hd s \<noteq> CHR ''0'' then (10, s)
           else case (if length s \<ge> 3 then basePrefix s else None) of
               Some c \<Rightarrow> (if c = CHR ''b'' then 2 else if c = CHR ''o'' then 8 else 16, drop 2 s)
             | None \<Rightarrow> (8, tl s))
        in case digitsIn b 0 ds of
            None \<Rightarrow> None
          | Some n \<Rightarrow> if CHR ''_'' \<in> set ds \<and> \<not> underscoreOK s then None else Some n)"

definition ParseInt0 :: "string \<Rightarrow> int option" where
  "ParseInt0 s =
     (case s of
        [] \<Rightarrow> None
      | c # cs \<Rightarrow>
          (case ParseUint0 (if c = CHR ''-'' \<or> c = CHR ''+'' then cs else s) of
             None \<Rightarrow> None
           | Some n \<Rightarrow>
               if c = CHR ''-'' then (if n \<le> 2 ^ 63 then Some (- n) else None)
               else (if n < 2 ^ 63 then Some n else None)))"

section \<open>Flag sets\<close>

datatype flag_value = VString string | VBool bool | VInt int | VDuration duration | VMapping "string list"

text \<open>\<open>Value.Set\<close>.\<close>

fun setValue :: "flag_value \<Rightarrow> string \<Rightarrow> flag_value option" where
  "setValue (VString _) s = Some (VString s)"
| "setValue (VBool _) s = map_option VBool (ParseBool s)"
| "setValue (VInt _) s = map_option VInt (ParseInt0 s)"
| "setValue (VDuration _) s = map_option VDuration (ParseDuration s)"
| "setValue (VMapping vs) s = Some (VMapping (vs @ [s]))"

fun isBoolFlag :: "flag_value \<Rightarrow> bool" where
  "isBoolFlag (VBool _) = True"
| "isBoolFlag _ = False"

text \<open>The defined flags with their values, and the names of those that were set.\<close>

record flag_set =
  formal :: "flag_value gomap"
  actual :: "string list"

datatype flag_error =
    ErrHelp
  | BadFlagSyntax string
  | FlagNotDefined string
  | InvalidValue string string
  | NeedsArgument string

definition setFlag :: "string \<Rightarrow> string \<Rightarrow> flag_value \<Rightarrow> flag_set \<Rightarrow> flag_error + flag_set" where
  "setFlag name v old fs =
     (case setValue old v of
        None \<Rightarrow> Inl (InvalidValue v name)
      | Some new \<Rightarrow> Inr \<lparr>formal = AList.update name new (formal fs), actual = List.insert name (actual fs)\<rparr>)"

text \<open>The name and the value of \<open>name=value\<close>; the name has at least one character.\<close>

definition cutFlag :: "string \<Rightarrow> string \<times> string option" where
  "cutFlag s = (case Cut (CHR ''='') (tl s) of
     (before, after, ok) \<Rightarrow> (hd s # before, if ok then Some after else None))"

text \<open>
  \<open>parseOne\<close>: whether a flag was seen, the flags after it and the arguments that are left. A flag
  that is not boolean takes the next argument as its value when none is attached.
\<close>

definition takeValue :: "string \<Rightarrow> flag_value \<Rightarrow> string option \<Rightarrow> string list \<Rightarrow> flag_error + (string \<times> string list)" where
  "takeValue name old given args =
     (case given of
        Some v \<Rightarrow> Inr (v, args)
      | None \<Rightarrow>
          if isBoolFlag old then Inr (''true'', args)
          else (case args of [] \<Rightarrow> Inl (NeedsArgument name) | v # args' \<Rightarrow> Inr (v, args')))"

definition parseFlag :: "string \<Rightarrow> string list \<Rightarrow> flag_set \<Rightarrow> flag_error + (flag_set \<times> string list)" where
  "parseFlag body args fs =
     (case cutFlag body of (name, given) \<Rightarrow>
      case map_of (formal fs) name of
        None \<Rightarrow> if name = ''help'' \<or> name = ''h'' then Inl ErrHelp else Inl (FlagNotDefined name)
      | Some old \<Rightarrow>
          bind_result (takeValue name old given args) (\<lambda>(v, rest).
          bind_result (setFlag name v old fs) (\<lambda>fs'. Inr (fs', rest))))"

fun parseOne :: "string list \<Rightarrow> flag_set \<Rightarrow> flag_error + (bool \<times> flag_set \<times> string list)" where
  "parseOne [] fs = Inr (False, fs, [])"
| "parseOne (s # args) fs =
     (if length s < 2 \<or> hd s \<noteq> CHR ''-'' then Inr (False, fs, s # args)
      else if s = ''--'' then Inr (False, fs, args)
      else
        let body = (if s ! 1 = CHR ''-'' then drop 2 s else drop 1 s) in
        if body = [] \<or> hd body = CHR ''-'' \<or> hd body = CHR ''='' then Inl (BadFlagSyntax s)
        else bind_result (parseFlag body args fs) (\<lambda>(fs', rest). Inr (True, fs', rest)))"

lemma parseFlag_rest: "parseFlag body args fs = Inr (fs', rest) \<Longrightarrow> length rest \<le> length args"
  by (auto simp: parseFlag_def takeValue_def result_iff split: prod.splits option.splits if_splits list.splits)

lemma parseOne_Cons:
  "parseOne (s # args) fs = Inr (True, fs', rest) \<Longrightarrow> \<exists>body. parseFlag body args fs = Inr (fs', rest)"
  by (auto simp: result_iff Let_def split: if_splits)

lemma parseOne_shorter: "parseOne args fs = Inr (True, fs', rest) \<Longrightarrow> length rest < length args"
  by (cases args) (auto dest!: parseOne_Cons parseFlag_rest simp del: parseOne.simps(2))

function Parse :: "string list \<Rightarrow> flag_set \<Rightarrow> flag_error + (flag_set \<times> string list)" where
  "Parse args fs =
     (case parseOne args fs of
        Inl e \<Rightarrow> Inl e
      | Inr (goOn, fs', rest) \<Rightarrow> if goOn then Parse rest fs' else Inr (fs', rest))"
  by pat_completeness auto
termination
  by (relation "measure (\<lambda>(args, fs). length args)") (auto dest: parseOne_shorter)

declare Parse.simps [simp del]

text \<open>Reading a flag; the kinds never change, so each variable keeps the type of its definition.\<close>

definition stringOf :: "flag_set \<Rightarrow> string \<Rightarrow> string" where
  "stringOf fs name = (case map_of (formal fs) name of Some (VString s) \<Rightarrow> s | _ \<Rightarrow> [])"

definition boolOf :: "flag_set \<Rightarrow> string \<Rightarrow> bool" where
  "boolOf fs name = (case map_of (formal fs) name of Some (VBool b) \<Rightarrow> b | _ \<Rightarrow> False)"

definition intOf :: "flag_set \<Rightarrow> string \<Rightarrow> int" where
  "intOf fs name = (case map_of (formal fs) name of Some (VInt i) \<Rightarrow> i | _ \<Rightarrow> 0)"

definition durationOf :: "flag_set \<Rightarrow> string \<Rightarrow> duration" where
  "durationOf fs name = (case map_of (formal fs) name of Some (VDuration d) \<Rightarrow> d | _ \<Rightarrow> 0)"

definition mappingOf :: "flag_set \<Rightarrow> string \<Rightarrow> string list" where
  "mappingOf fs name = (case map_of (formal fs) name of Some (VMapping vs) \<Rightarrow> vs | _ \<Rightarrow> [])"

definition newFlagSet :: "flag_value gomap \<Rightarrow> flag_set" where
  "newFlagSet flags = \<lparr>formal = flags, actual = []\<rparr>"

section \<open>Kinds are kept\<close>

fun sameKind :: "flag_value \<Rightarrow> flag_value \<Rightarrow> bool" where
  "sameKind (VString _) (VString _) = True"
| "sameKind (VBool _) (VBool _) = True"
| "sameKind (VInt _) (VInt _) = True"
| "sameKind (VDuration _) (VDuration _) = True"
| "sameKind (VMapping _) (VMapping _) = True"
| "sameKind _ _ = False"

definition sameFlags :: "flag_set \<Rightarrow> flag_set \<Rightarrow> bool" where
  "sameFlags fs fs' \<longleftrightarrow> (\<forall>name. rel_option sameKind (map_of (formal fs) name) (map_of (formal fs') name))"

lemma sameKind_refl [simp]: "sameKind v v"
  by (cases v) simp_all

lemma sameKind_trans: "sameKind u v \<Longrightarrow> sameKind v w \<Longrightarrow> sameKind u w"
  by (cases u; cases v; cases w) simp_all

lemma sameFlags_refl [simp]: "sameFlags fs fs"
  by (simp add: sameFlags_def option.rel_refl)

lemma sameFlags_trans: "sameFlags fs fs' \<Longrightarrow> sameFlags fs' fs'' \<Longrightarrow> sameFlags fs fs''"
proof -
  assume "sameFlags fs fs'" "sameFlags fs' fs''"
  then have "rel_option sameKind (map_of (formal fs) n) (map_of (formal fs'') n)" for n
    unfolding sameFlags_def using sameKind_trans
    by (cases "map_of (formal fs) n"; cases "map_of (formal fs') n"; cases "map_of (formal fs'') n")
      (metis option.rel_inject(2) option.rel_distinct)+
  then show ?thesis by (simp add: sameFlags_def)
qed

lemma setValue_kind: "setValue old v = Some new \<Longrightarrow> sameKind old new"
  by (cases old) auto

lemma setFlag_kind:
  assumes "map_of (formal fs) name = Some old" "setFlag name v old fs = Inr fs'"
  shows "sameFlags fs fs'"
proof -
  obtain new where "setValue old v = Some new" "fs' = \<lparr>formal = AList.update name new (formal fs), actual = List.insert name (actual fs)\<rparr>"
    using assms(2) by (auto simp: setFlag_def split: option.splits)
  with setValue_kind assms(1) show ?thesis by (auto simp: sameFlags_def option.rel_refl)
qed

lemma parseFlag_kind: "parseFlag body args fs = Inr (fs', rest) \<Longrightarrow> sameFlags fs fs'"
  using setFlag_kind by (auto simp: parseFlag_def result_iff split: prod.splits option.splits if_splits)

lemma parseOne_kind: "parseOne args fs = Inr (goOn, fs', rest) \<Longrightarrow> sameFlags fs fs'"
proof (cases args)
  case (Cons s args')
  assume "parseOne args fs = Inr (goOn, fs', rest)"
  then show ?thesis
    unfolding Cons using parseFlag_kind by (auto simp: result_iff Let_def split: if_splits)
qed simp

lemma Parse_kind: "Parse args fs = Inr (fs', rest) \<Longrightarrow> sameFlags fs fs'"
proof (induction args fs rule: Parse.induct)
  case (1 args fs)
  obtain goOn fs1 rest1 where p: "parseOne args fs = Inr (goOn, fs1, rest1)"
    using 1(2) by (auto simp: Parse.simps [of args] split: sum.splits)
  show ?case
    using 1 p parseOne_kind [OF p] sameFlags_trans
    by (cases goOn) (auto simp: Parse.simps [of args])
qed

end
