(* ===== verification/Go_Net.thy ===== *)
theory Go_Net
  imports Go_Strings
begin

text \<open>
  \<open>net.ParseIP\<close> and \<open>IP.IsLoopback\<close>, which the command line uses to decide whether a metrics
  listener is exposed. An address is the list of its sixteen bytes, as \<open>net.IP\<close> keeps it; an IPv4
  address is mapped into IPv6. The parsers follow \<open>netip.ParseAddr\<close>.
\<close>

section \<open>IPv4\<close>

text \<open>A decimal field: no leading zero, at most 255.\<close>

definition octet :: "string \<Rightarrow> byte option" where
  "octet s = (case parse_digits s of
     None \<Rightarrow> None
   | Some n \<Rightarrow> if length s > 1 \<and> hd s = CHR ''0'' \<or> n > 255 then None else Some (word_of_int n))"

definition parseIPv4 :: "string \<Rightarrow> bytes option" where
  "parseIPv4 s =
     (let fields = map octet (Split (CHR ''.'') s) in
      if length fields = 4 \<and> None \<notin> set fields then Some (map the fields) else None)"

definition mapped :: "bytes \<Rightarrow> bytes" where
  "mapped ip = replicate 10 0 @ [255, 255] @ ip"

section \<open>IPv6\<close>

definition hexValue :: "char \<Rightarrow> int option" where
  "hexValue c = (let n = int (of_char c) in
     if 48 \<le> n \<and> n \<le> 57 then Some (n - 48)
     else if 97 \<le> n \<and> n \<le> 102 then Some (n - 87)
     else if 65 \<le> n \<and> n \<le> 70 then Some (n - 55) else None)"

definition hexSpan :: "string \<Rightarrow> string \<times> string" where
  "hexSpan s = (takeWhile (\<lambda>c. hexValue c \<noteq> None) s, dropWhile (\<lambda>c. hexValue c \<noteq> None) s)"

definition hexNumber :: "string \<Rightarrow> int" where
  "hexNumber s = foldl (\<lambda>acc c. 16 * acc + the (hexValue c)) 0 s"

text \<open>
  The loop over the fields. \<open>ip\<close> holds the bytes read so far, \<open>ellipsis\<close> the position of \<open>::\<close>;
  the result also has the text that was not used.
\<close>

lemma hexSpan_length: "hexSpan s = (ds, rest) \<Longrightarrow> length rest + length ds = length s"
  unfolding hexSpan_def by (metis Pair_inject add.commute length_append takeWhile_dropWhile_id)

function parseFields :: "bytes \<Rightarrow> nat option \<Rightarrow> string \<Rightarrow> (bytes \<times> nat option \<times> string) option" where
  "parseFields ip ellipsis s =
     (if length ip \<ge> 16 then Some (ip, ellipsis, s)
      else (case hexSpan s of (ds, rest) \<Rightarrow>
        if ds = [] \<or> length ds > 4 then None
        else if rest \<noteq> [] \<and> hd rest = CHR ''.'' then
          (if ellipsis = None \<and> length ip \<noteq> 12 \<or> length ip + 4 > 16 then None
           else (case parseIPv4 s of None \<Rightarrow> None | Some ip4 \<Rightarrow> Some (ip @ ip4, ellipsis, [])))
        else
          (let n = hexNumber ds; ip = ip @ [word_of_int (n div 256), word_of_int n] in
           case rest of
            [] \<Rightarrow> Some (ip, ellipsis, [])
          | [_] \<Rightarrow> None
          | c # d # more \<Rightarrow>
              if c \<noteq> CHR '':'' then None
              else if d = CHR '':'' then
                (if ellipsis \<noteq> None then None
                 else if more = [] then Some (ip, Some (length ip), [])
                 else parseFields ip (Some (length ip)) more)
              else parseFields ip ellipsis (d # more))))"
  by pat_completeness auto
termination
  by (relation "measure (\<lambda>(ip, ellipsis, s). length s)") (auto dest!: hexSpan_length [OF sym])

declare parseFields.simps [simp del]

definition expand :: "bytes \<times> nat option \<times> string \<Rightarrow> bytes option" where
  "expand = (\<lambda>(ip, ellipsis, rest).
     if rest \<noteq> [] then None
     else if length ip < 16 then
       (case ellipsis of None \<Rightarrow> None
        | Some e \<Rightarrow> Some (take e ip @ replicate (16 - length ip) 0 @ drop e ip))
     else if ellipsis \<noteq> None then None else Some ip)"

text \<open>\<open>net.ParseIP\<close> refuses an address with a zone, so a percent sign always fails.\<close>

definition parseIPv6 :: "string \<Rightarrow> bytes option" where
  "parseIPv6 s =
     (if CHR ''%'' \<in> set s then None
      else if take 2 s = ''::'' then
        (if drop 2 s = [] then Some (replicate 16 0)
         else Option.bind (parseFields [] (Some 0) (drop 2 s)) expand)
      else Option.bind (parseFields [] None s) expand)"

section \<open>Addresses\<close>

fun firstMark :: "string \<Rightarrow> char option" where
  "firstMark [] = None"
| "firstMark (c # cs) = (if c \<in> set ''.:%'' then Some c else firstMark cs)"

definition ParseIP :: "string \<Rightarrow> bytes option" where
  "ParseIP s = (case firstMark s of
     None \<Rightarrow> None
   | Some c \<Rightarrow>
       if c = CHR ''.'' then map_option mapped (parseIPv4 s)
       else if c = CHR '':'' then parseIPv6 s
       else None)"

definition IsLoopback :: "bytes \<Rightarrow> bool" where
  "IsLoopback ip =
     (if take 12 ip = replicate 10 0 @ [255, 255] then ip ! 12 = 127
      else ip = replicate 15 0 @ [1])"

section \<open>Dotted text\<close>

definition dotted :: "byte \<Rightarrow> byte \<Rightarrow> byte \<Rightarrow> byte \<Rightarrow> string" where
  "dotted a b c d = nat_dec (unat a) @ CHR ''.'' # nat_dec (unat b) @ CHR ''.'' # nat_dec (unat c) @ CHR ''.'' # nat_dec (unat d)"

lemma nat_dec_no_zero: "10 \<le> n \<Longrightarrow> hd (nat_dec n) \<noteq> CHR ''0''"
proof (induction n rule: nat_dec.induct)
  case (1 n)
  show ?case
  proof (cases "n div 10 < 10")
    case True
    then have "nat_dec n = char_of (48 + n div 10) # [char_of (48 + n mod 10)]"
      using 1(2) by (simp add: nat_dec.simps [of n] nat_dec.simps [of "n div 10"])
    moreover have "char_of (48 + n div 10) \<noteq> (CHR ''0'' :: char)"
    proof
      assume "char_of (48 + n div 10) = (CHR ''0'' :: char)"
      then have "of_char (char_of (48 + n div 10) :: char) = (of_char (CHR ''0'') :: nat)" by simp
      then show False using True 1(2) by (simp add: of_char_of)
    qed
    ultimately show ?thesis by simp
  next
    case False
    then show ?thesis
      using 1 nat_dec_digits [of "n div 10"] by (simp add: nat_dec.simps [of n] hd_append)
  qed
qed

lemma octet_nat_dec: "octet (nat_dec (unat w)) = Some w"
proof -
  have "length (nat_dec (unat w)) > 1 \<Longrightarrow> 10 \<le> unat w"
    by (rule ccontr) (simp add: nat_dec.simps [of "unat w"])
  moreover have "int (unat w) < 256" using unsigned_less [of w] by simp
  ultimately show ?thesis
    using nat_dec_no_zero [of "unat w"] by (auto simp: octet_def)
qed

lemma no_dot: "CHR ''.'' \<notin> set (nat_dec n)" "CHR '':'' \<notin> set (nat_dec n)" "CHR ''%'' \<notin> set (nat_dec n)"
  by (auto dest!: nat_dec_chars simp: is_digit_def)

lemma parseIPv4_dotted: "parseIPv4 (dotted a b c d) = Some [a, b, c, d]"
  by (simp add: parseIPv4_def dotted_def Split_append Split_no_sep no_dot octet_nat_dec)

lemma firstMark_append: "CHR ''.'' \<notin> set s \<Longrightarrow> CHR '':'' \<notin> set s \<Longrightarrow> CHR ''%'' \<notin> set s \<Longrightarrow> firstMark (s @ t) = firstMark t"
  by (induction s) auto

text \<open>An IPv4 address reads back from its text, and is a loopback address exactly when it starts with 127.\<close>

lemma ParseIP_dotted: "ParseIP (dotted a b c d) = Some (mapped [a, b, c, d])"
proof -
  have "firstMark (dotted a b c d) = Some (CHR ''.'')"
    by (simp add: dotted_def firstMark_append no_dot)
  then show ?thesis by (simp add: ParseIP_def parseIPv4_dotted)
qed

lemma IsLoopback_mapped: "IsLoopback (mapped [a, b, c, d]) \<longleftrightarrow> a = 127"
  by (simp add: IsLoopback_def mapped_def nth_append)

end
