(* ===== verification/Cli.thy ===== *)
theory Cli
  imports Server Agent Go_Flag Go_Net
begin

text \<open>
  The command line of \<open>cmd/mule/main.go\<close>: the commands with their flags, the parsing of agents and
  mappings, the checks that every command makes before it acts, the configuration check and the
  exchange of a probe. A command that starts the server or the agent is modelled up to the call of
  \<open>Run\<close>: its result is the configuration that \<open>Run\<close> is given. The texts of usage and help are
  not modelled. The YAML decoders and \<open>quic.DialAddr\<close> are parameters.
\<close>

section \<open>Results\<close>

datatype 'y cli_error =
    MissingCommand
  | UnknownCommand string
  | UsageVersion
  | UsageHelp
  | FlagFailed flag_error
  | UnexpectedArguments "string list"
  | MixedFlags "string list"
  | ConfigLoad "'y load_error"
  | BadAgentFlag string
  | BadServerMapping string
  | MappingNeedsAgent string
  | BadServiceMapping string
  | DuplicateForward string string
  | DuplicateReverse string string
  | UnknownAgentID string
  | FieldInvalid config_error
  | ShutdownTimeoutNotPositive
  | SecretInvalidFor string secret_error
  | AgentConfigInvalid agt_config_error
  | ServerConfigInvalid srv_config_error
  | IdentitiesInvalid auth_error
  | FlagRequired "string list"
  | BadRole
  | BadDirection
  | ProbeDialFailed dial_error dial_error
  | ProbeStreamFailed string
  | ProbeIO proto_error
  | ProbeRejected byte

record probe_request =
  pServer :: string
  pAgentID :: string
  pSecret :: bytes
  pService :: string
  pDirection :: byte
  pConnectTimeout :: duration
  pHandshakeTimeout :: duration
  pIdleTimeout :: duration
  pKeepAlive :: duration

datatype action =
    ShowUsage
  | ShowHelp string
  | PrintVersion
  | RunServer SrvConfig Common
  | RunAgent AgtConfig bytes Common
  | SendProbe probe_request
  | PrintOK string

record ('y, 'r) decoders =
  srvDecode1 :: "string \<Rightarrow> 'y yaml_error + (SrvFileConfig \<times> 'r)"
  srvDecode2 :: "'r \<Rightarrow> 'y yaml_error + unit"
  agtDecode1 :: "string \<Rightarrow> 'y yaml_error + (AgtFileConfig \<times> 'r)"
  agtDecode2 :: "'r \<Rightarrow> 'y yaml_error + unit"

section \<open>Flags\<close>

definition commonFlags :: "flag_value gomap" where
  "commonFlags = [(''log-format'', VString ''text''), (''log-level'', VString ''info''),
     (''metrics-listen'', VString []), (''shutdown-timeout'', VDuration (30 * Second))]"

definition serverFlags :: "flag_value gomap" where
  "serverFlags = commonFlags @ [(''config'', VString []), (''listen-udp'', VString []),
     (''agent'', VMapping []), (''forward'', VMapping []), (''reverse'', VMapping []),
     (''dial-timeout'', VDuration (10 * Second)), (''handshake-timeout'', VDuration (10 * Second)),
     (''idle-timeout'', VDuration (5 * Minute)), (''max-streams'', VInt 100), (''max-pending-dials'', VInt 20),
     (''keepalive'', VDuration (20 * Second))]"

definition agentFlags :: "flag_value gomap" where
  "agentFlags = commonFlags @ [(''config'', VString []), (''server'', VString []), (''agent-id'', VString []),
     (''secret-file'', VString []), (''forward'', VMapping []), (''reverse'', VMapping []),
     (''send-client-addr'', VBool False), (''connect-timeout'', VDuration (10 * Second)),
     (''handshake-timeout'', VDuration (10 * Second)), (''idle-timeout'', VDuration (5 * Minute)),
     (''max-connections'', VInt 100), (''keepalive'', VDuration (20 * Second)),
     (''reconnect-delay'', VDuration Second)]"

definition probeFlags :: "flag_value gomap" where
  "probeFlags = [(''server'', VString []), (''agent-id'', VString []), (''secret-file'', VString []),
     (''service'', VString []), (''direction'', VString ''forward''),
     (''connect-timeout'', VDuration (10 * Second)), (''handshake-timeout'', VDuration (10 * Second)),
     (''idle-timeout'', VDuration (30 * Second)), (''keepalive'', VDuration (20 * Second))]"

text \<open>\<open>parseFlags\<close>; help is an outcome of its own, which every command turns into success.\<close>

definition parseFlags :: "flag_value gomap \<Rightarrow> string list \<Rightarrow> 'y cli_error + flag_set" where
  "parseFlags flags args =
     (case Parse args (newFlagSet flags) of
        Inl e \<Rightarrow> Inl (FlagFailed e)
      | Inr (fs, rest) \<Rightarrow> if rest \<noteq> [] then Inl (UnexpectedArguments rest) else Inr fs)"

definition withFlags :: "string \<Rightarrow> flag_value gomap \<Rightarrow> string list \<Rightarrow> (flag_set \<Rightarrow> 'y cli_error + action) \<Rightarrow>
    'y cli_error + action" where
  "withFlags command flags args body =
     (case parseFlags flags args of
        Inl (FlagFailed ErrHelp) \<Rightarrow> Inr (ShowHelp command)
      | Inl e \<Rightarrow> Inl e
      | Inr fs \<Rightarrow> body fs)"

text \<open>\<open>fs.Visit\<close> visits the flags that were set in lexicographical order.\<close>

definition rejectFlagsWithConfig :: "flag_set \<Rightarrow> string \<Rightarrow> string list \<Rightarrow> 'y cli_error + unit" where
  "rejectFlagsWithConfig fs configPath names =
     (if configPath = [] then Inr ()
      else
        let mixed = map (\<lambda>name. ''--'' @ name) (filter (\<lambda>name. name \<in> set names) (sort (actual fs)))
        in if mixed \<noteq> [] then Inl (MixedFlags mixed) else Inr ())"

definition commonOf :: "flag_set \<Rightarrow> Common" where
  "commonOf fs = \<lparr>SecretFile = [], LogFormat = stringOf fs ''log-format'', LogLevel = stringOf fs ''log-level'',
     MetricsListen = stringOf fs ''metrics-listen'', ShutdownTimeout = durationOf fs ''shutdown-timeout''\<rparr>"

definition validateCommon :: "Common \<Rightarrow> 'y cli_error + unit" where
  "validateCommon c =
     bind_result (map_error FieldInvalid (ValidateLogFormat (LogFormat c))) (\<lambda>_.
     bind_result (map_error FieldInvalid (ValidateLogLevel (LogLevel c))) (\<lambda>_.
     bind_result (if MetricsListen c = [] then Inr () else map_error FieldInvalid (ValidateListenAddress (MetricsListen c))) (\<lambda>_.
       if ShutdownTimeout c \<le> 0 then Inl ShutdownTimeoutNotPositive else Inr ())))"

text \<open>A metrics listener that other hosts can reach is reported; the status has no authentication.\<close>

definition warnMetricsExposure :: "string \<Rightarrow> Logger \<Rightarrow> Logger" where
  "warnMetricsExposure addr l =
     (if addr = [] then l
      else (case SplitHostPort addr of
          Inl _ \<Rightarrow> l
        | Inr (host, _) \<Rightarrow>
            let ip = ParseIP host in
            if host \<noteq> ''localhost'' \<and> (ip = None \<or> \<not> IsLoopback (the ip))
            then Warn ''metrics_listener_exposed'' [AString ''listener_address'', AString addr,
              AString ''reason'', AString ''status_and_metrics_have_no_authentication''] l
            else l))"

text \<open>The logger of a role: \<open>logging.New\<close> with the common flags, and the warning.\<close>

definition startLog :: "Common \<Rightarrow> Logger" where
  "startLog c = warnMetricsExposure (MetricsListen c) (NewForWriter (LogFormat c) (LogLevel c) [])"

section \<open>Agents and mappings\<close>

definition parseAgent :: "string \<Rightarrow> 'y cli_error + AgentConfig" where
  "parseAgent raw =
     (case Cut (CHR ''='') raw of (i, path, ok) \<Rightarrow>
        if \<not> ok \<or> i = [] \<or> path = [] then Inl (BadAgentFlag raw)
        else bind_result (map_error FieldInvalid (ValidateClientID i)) (\<lambda>_.
          Inr \<lparr>sAgentID = i, sSecretFile = path, sForward = [], sReverse = []\<rparr>))"

text \<open>The first agent with the id, updated in place.\<close>

fun addToAgent :: "AgentConfig list \<Rightarrow> string \<Rightarrow> string \<Rightarrow> string \<Rightarrow> bool \<Rightarrow> 'y cli_error + AgentConfig list" where
  "addToAgent [] agentID service addr forward = Inl (UnknownAgentID agentID)"
| "addToAgent (agent # agents) agentID service addr forward =
     (if sAgentID agent = agentID then
        if forward then
          bind_result (map_error FieldInvalid (ValidateTCPAddress addr)) (\<lambda>_.
            if has_key service (sForward agent) then Inl (DuplicateForward service agentID)
            else Inr (agent\<lparr>sForward := AList.update service addr (sForward agent)\<rparr> # agents))
        else
          bind_result (map_error FieldInvalid (ValidateListenAddress addr)) (\<lambda>_.
            if has_key service (sReverse agent) then Inl (DuplicateReverse service agentID)
            else Inr (agent\<lparr>sReverse := AList.update service addr (sReverse agent)\<rparr> # agents))
      else bind_result (addToAgent agents agentID service addr forward) (\<lambda>agents'. Inr (agent # agents')))"

definition addServerMapping :: "AgentConfig list \<Rightarrow> string \<Rightarrow> bool \<Rightarrow> 'y cli_error + AgentConfig list" where
  "addServerMapping agents raw forward =
     (case Cut (CHR ''='') raw of (left, addr, ok) \<Rightarrow>
        if \<not> ok \<or> left = [] \<or> addr = [] then Inl (BadServerMapping raw)
        else
          bind_result
            (if CHR '':'' \<in> set left then
               (case Cut (CHR '':'') left of (agentID, service, ok) \<Rightarrow>
                  if \<not> ok \<or> agentID = [] \<or> service = [] then Inl (BadServerMapping raw) else Inr (agentID, service))
             else if length agents \<noteq> 1 then Inl (MappingNeedsAgent raw)
             else Inr (sAgentID (agents ! 0), left)) (\<lambda>(agentID, service).
          bind_result (map_error FieldInvalid (ValidateRouteID service)) (\<lambda>_.
            addToAgent agents agentID service addr forward)))"

definition parseServiceMapping :: "string \<Rightarrow> 'y cli_error + (string \<times> string)" where
  "parseServiceMapping raw =
     (case Cut (CHR ''='') raw of (service, addr, ok) \<Rightarrow>
        if \<not> ok \<or> service = [] \<or> addr = [] then Inl (BadServiceMapping raw)
        else bind_result (map_error FieldInvalid (ValidateRouteID service)) (\<lambda>_. Inr (service, addr)))"

definition parseDirection :: "string \<Rightarrow> 'y cli_error + byte" where
  "parseDirection raw =
     (if raw = ''forward'' then Inr DirectionForward
      else if raw = ''reverse'' then Inr DirectionReverse
      else Inl BadDirection)"

text \<open>The loops over repeated flags.\<close>

fun parseAgents :: "string list \<Rightarrow> 'y cli_error + AgentConfig list" where
  "parseAgents [] = Inr []"
| "parseAgents (raw # raws) =
     bind_result (parseAgent raw) (\<lambda>agent. bind_result (parseAgents raws) (\<lambda>agents. Inr (agent # agents)))"

fun addServerMappings :: "AgentConfig list \<Rightarrow> string list \<Rightarrow> bool \<Rightarrow> 'y cli_error + AgentConfig list" where
  "addServerMappings agents [] forward = Inr agents"
| "addServerMappings agents (raw # raws) forward =
     bind_result (addServerMapping agents raw forward) (\<lambda>agents'. addServerMappings agents' raws forward)"

fun addServices :: "(string \<Rightarrow> 'y cli_error) \<Rightarrow> string gomap \<Rightarrow> string list \<Rightarrow> 'y cli_error + string gomap" where
  "addServices dup services [] = Inr services"
| "addServices dup services (raw # raws) =
     bind_result (parseServiceMapping raw) (\<lambda>(service, addr).
       if has_key service services then Inl (dup service)
       else addServices dup (AList.update service addr services) raws)"

section \<open>Starting the server and the agent\<close>

definition serverOwned :: "string list" where
  "serverOwned = [''agent'', ''dial-timeout'', ''forward'', ''handshake-timeout'', ''idle-timeout'', ''keepalive'',
     ''listen-udp'', ''max-pending-dials'', ''max-streams'', ''reverse'']"

definition serverFromFlags :: "flag_set \<Rightarrow> 'y cli_error + SrvConfig" where
  "serverFromFlags fs =
     bind_result (parseAgents (mappingOf fs ''agent'')) (\<lambda>agents.
     bind_result (addServerMappings agents (mappingOf fs ''forward'') True) (\<lambda>agents.
     bind_result (addServerMappings agents (mappingOf fs ''reverse'') False) (\<lambda>agents.
       Inr (srvApplyDefaults \<lparr>sListenUDP = stringOf fs ''listen-udp'', sAgents = agents,
         sHandshakeTimeout = durationOf fs ''handshake-timeout'', sIdleTimeout = durationOf fs ''idle-timeout'',
         sDialTimeout = durationOf fs ''dial-timeout'', sMaxStreams = intOf fs ''max-streams'',
         sMaxPendingDials = intOf fs ''max-pending-dials'', sKeepAlive = durationOf fs ''keepalive''\<rparr>))))"

definition runServer :: "('y, 'r) decoders \<Rightarrow> os \<Rightarrow> string list \<Rightarrow> 'y cli_error + action" where
  "runServer D env args =
     withFlags ''server'' serverFlags args (\<lambda>fs.
       let configPath = stringOf fs ''config''; common = commonOf fs in
       bind_result (rejectFlagsWithConfig fs configPath serverOwned) (\<lambda>_.
       bind_result
         (if configPath \<noteq> [] then map_error ConfigLoad (srvLoadConfig (srvDecode1 D) (srvDecode2 D) env configPath)
          else serverFromFlags fs) (\<lambda>cfg.
       bind_result (validateCommon common) (\<lambda>_. Inr (RunServer cfg common)))))"

definition agentOwned :: "string list" where
  "agentOwned = [''agent-id'', ''connect-timeout'', ''forward'', ''handshake-timeout'', ''idle-timeout'', ''keepalive'',
     ''max-connections'', ''reconnect-delay'', ''reverse'', ''secret-file'', ''send-client-addr'', ''server'']"

definition agentFromFlags :: "flag_set \<Rightarrow> 'y cli_error + AgtConfig" where
  "agentFromFlags fs =
     bind_result (addServices (\<lambda>service. DuplicateForward service []) [] (mappingOf fs ''forward'')) (\<lambda>forward.
     bind_result (addServices (\<lambda>service. DuplicateReverse service []) [] (mappingOf fs ''reverse'')) (\<lambda>reverse.
       Inr (agtApplyDefaults \<lparr>aServer = stringOf fs ''server'', aAgentID = stringOf fs ''agent-id'',
         aSecretFile = stringOf fs ''secret-file'', aForward = forward, aReverse = reverse,
         aConnectTimeout = durationOf fs ''connect-timeout'', aHandshakeTimeout = durationOf fs ''handshake-timeout'',
         aIdleTimeout = durationOf fs ''idle-timeout'', aMaxConnections = intOf fs ''max-connections'',
         aKeepAlive = durationOf fs ''keepalive'', aReconnectDelay = durationOf fs ''reconnect-delay'',
         aSendClientAddr = boolOf fs ''send-client-addr''\<rparr>)))"

definition runAgent :: "('y, 'r) decoders \<Rightarrow> os \<Rightarrow> string list \<Rightarrow> 'y cli_error + action" where
  "runAgent D env args =
     withFlags ''agent'' agentFlags args (\<lambda>fs.
       let configPath = stringOf fs ''config''; common = commonOf fs in
       bind_result (rejectFlagsWithConfig fs configPath agentOwned) (\<lambda>_.
       bind_result
         (if configPath \<noteq> [] then map_error ConfigLoad (agtLoadConfig (agtDecode1 D) (agtDecode2 D) env configPath)
          else agentFromFlags fs) (\<lambda>cfg.
       bind_result (validateCommon common) (\<lambda>_.
       bind_result (map_error (SecretInvalidFor []) (LoadSecretFile env (aSecretFile cfg))) (\<lambda>secret.
         Inr (RunAgent cfg secret common))))))"

section \<open>Probing\<close>

definition runProbe :: "os \<Rightarrow> string list \<Rightarrow> 'y cli_error + action" where
  "runProbe env args =
     withFlags ''probe'' probeFlags args (\<lambda>fs.
       let serverAddr = stringOf fs ''server''; agentID = stringOf fs ''agent-id'';
           secretFile = stringOf fs ''secret-file''; service = stringOf fs ''service'' in
       if serverAddr = [] \<or> agentID = [] \<or> secretFile = [] \<or> service = []
       then Inl (FlagRequired [''--server'', ''--agent-id'', ''--secret-file'', ''--service''])
       else
         bind_result (map_error FieldInvalid (ValidateUDPAddress serverAddr)) (\<lambda>_.
         bind_result (map_error FieldInvalid (ValidateClientID agentID)) (\<lambda>_.
         bind_result (map_error FieldInvalid (ValidateRouteID service)) (\<lambda>_.
         bind_result (parseDirection (stringOf fs ''direction'')) (\<lambda>direction.
         bind_result (map_error (SecretInvalidFor []) (LoadSecretFile env secretFile)) (\<lambda>secret.
           Inr (SendProbe \<lparr>pServer = serverAddr, pAgentID = agentID, pSecret = secret, pService = service,
             pDirection = direction, pConnectTimeout = durationOf fs ''connect-timeout'',
             pHandshakeTimeout = durationOf fs ''handshake-timeout'', pIdleTimeout = durationOf fs ''idle-timeout'',
             pKeepAlive = durationOf fs ''keepalive''\<rparr>)))))))"

text \<open>The connection of a probe: the dedicated name first, then the name that an agent would use.\<close>

definition dialProbe :: "crypto \<Rightarrow> (string \<Rightarrow> tls_config \<Rightarrow> quic_config \<Rightarrow> string + connection) \<Rightarrow> probe_request \<Rightarrow> string \<Rightarrow>
    dial_error + connection" where
  "dialProbe c quicDial p serverName =
     bind_result (map_error DialTLS (TLSConfigWithServerName c (pSecret p) RoleForward serverName)) (\<lambda>tlsCfg.
     map_error DialQUIC (quicDial (pServer p) tlsCfg
       \<lparr>HandshakeIdleTimeout = pHandshakeTimeout p, MaxIdleTimeout = pIdleTimeout p, KeepAlivePeriod = pKeepAlive p\<rparr>))"

definition connectProbe :: "crypto \<Rightarrow> (string \<Rightarrow> tls_config \<Rightarrow> quic_config \<Rightarrow> string + connection) \<Rightarrow> probe_request \<Rightarrow>
    'y cli_error + connection" where
  "connectProbe c quicDial p =
     (case dialProbe c quicDial p (ProbeServerNameForClient (pAgentID p)) of
        Inr k \<Rightarrow> Inr k
      | Inl probeErr \<Rightarrow>
          map_error (ProbeDialFailed probeErr) (dialProbe c quicDial p (ExitServerNameForClient (pAgentID p))))"

definition probeFrame :: "probe_request \<Rightarrow> Frame" where
  "probeFrame p = zeroFrame\<lparr>Type := TypeProbe, Direction := pDirection p, Service := pService p,
     PeerID := pAgentID p, ConnectionID := ''probe''\<rparr>"

text \<open>The exchange on the stream, which is closed at the end; \<open>Inr ()\<close> prints that the probe is OK.\<close>

definition probeExchange :: "senv \<Rightarrow> probe_request \<Rightarrow> stream \<Rightarrow> ('y cli_error + unit) \<times> stream" where
  "probeExchange env p st =
     (let st = stream_SetDeadline (Some (now env + pHandshakeTimeout p)) st in
      case WriteFrame stream_Write (probeFrame p) st of
        (Some err, st) \<Rightarrow> (Inl (ProbeIO err), stream_Close st)
      | (None, st) \<Rightarrow>
          (case ReadFrame st of
             (Inl err, st) \<Rightarrow> (Inl (ProbeIO err), stream_Close st)
           | (Inr resp, st) \<Rightarrow>
               (if Type resp \<noteq> TypeOK then Inl (ProbeRejected (Code resp)) else Inr (), stream_Close st)))"

text \<open>The whole probe: the connection, the stream (\<open>OpenStreamSync\<close> is a parameter) and the exchange.\<close>

definition directionText :: "byte \<Rightarrow> string" where
  "directionText d = (if d = DirectionForward then ''forward'' else ''reverse'')"

definition sendProbe :: "crypto \<Rightarrow> (string \<Rightarrow> tls_config \<Rightarrow> quic_config \<Rightarrow> string + connection) \<Rightarrow>
    (connection \<Rightarrow> string + stream) \<Rightarrow> senv \<Rightarrow> probe_request \<Rightarrow> ('y cli_error + action) \<times> stream option" where
  "sendProbe c quicDial openStream env p =
     (case connectProbe c quicDial p of
        Inl e \<Rightarrow> (Inl e, None)
      | Inr k \<Rightarrow>
          (case openStream k of
             Inl err \<Rightarrow> (Inl (ProbeStreamFailed err), None)
           | Inr st \<Rightarrow>
               (case probeExchange env p st of
                  (Inl e, st) \<Rightarrow> (Inl e, Some st)
                | (Inr _, st) \<Rightarrow>
                    (Inr (PrintOK (''probe ok: server='' @ pServer p @ '' agent_id='' @ pAgentID p @
                       '' direction='' @ directionText (pDirection p) @ '' service='' @ pService p)), Some st))))"

section \<open>Keys and checks\<close>

definition runKeygen :: "keygen_env \<Rightarrow> os \<Rightarrow> string list \<Rightarrow> ('y cli_error + action) \<times> os" where
  "runKeygen kenv env args =
     (case parseFlags [(''out'', VString [])] args of
        Inl (FlagFailed ErrHelp) \<Rightarrow> (Inr (ShowHelp ''keygen''), env)
      | Inl e \<Rightarrow> (Inl e, env)
      | Inr fs \<Rightarrow>
          if stringOf fs ''out'' = [] then (Inl (FlagRequired [''--out'']), env)
          else (case GenerateSecretFile kenv env (stringOf fs ''out'') of
              (Some err, env') \<Rightarrow> (Inl (SecretInvalidFor [] err), env')
            | (None, env') \<Rightarrow> (Inr (PrintOK []), env')))"

definition runCheck :: "os \<Rightarrow> string list \<Rightarrow> 'y cli_error + action" where
  "runCheck env args =
     withFlags ''check'' [(''secret-file'', VString [])] args (\<lambda>fs.
       if stringOf fs ''secret-file'' = [] then Inl (FlagRequired [''--secret-file''])
       else
         bind_result (map_error (SecretInvalidFor []) (LoadSecretFile env (stringOf fs ''secret-file''))) (\<lambda>_.
           Inr (PrintOK ''secret file ok'')))"

text \<open>The two roles of \<open>check-config\<close>.\<close>

fun checkSecrets :: "os \<Rightarrow> AgentConfig list \<Rightarrow> 'y cli_error + ClientIdentity list" where
  "checkSecrets env [] = Inr []"
| "checkSecrets env (agent # agents) =
     bind_result (map_error (SecretInvalidFor (sAgentID agent)) (LoadSecretFile env (sSecretFile agent))) (\<lambda>secret.
     bind_result (checkSecrets env agents) (\<lambda>clients.
       Inr (\<lparr>ID = sAgentID agent, ClientSecret = secret\<rparr> # clients)))"

definition checkAgentConfig :: "('y, 'r) decoders \<Rightarrow> os \<Rightarrow> bool \<Rightarrow> string \<Rightarrow> 'y cli_error + unit" where
  "checkAgentConfig D env skipSecrets path =
     bind_result (map_error ConfigLoad (agtLoadConfig (agtDecode1 D) (agtDecode2 D) env path)) (\<lambda>cfg.
     bind_result (map_error AgentConfigInvalid (agtValidateConfig cfg)) (\<lambda>_.
       if skipSecrets then Inr ()
       else bind_result (map_error (SecretInvalidFor []) (LoadSecretFile env (aSecretFile cfg))) (\<lambda>_. Inr ())))"

definition checkServerConfig :: "crypto \<Rightarrow> ('y, 'r) decoders \<Rightarrow> os \<Rightarrow> bool \<Rightarrow> string \<Rightarrow> 'y cli_error + unit" where
  "checkServerConfig c D env skipSecrets path =
     bind_result (map_error ConfigLoad (srvLoadConfig (srvDecode1 D) (srvDecode2 D) env path)) (\<lambda>cfg.
     bind_result (map_error ServerConfigInvalid (srvValidateConfig cfg)) (\<lambda>_.
       if skipSecrets then Inr ()
       else
         bind_result (checkSecrets env (sAgents cfg)) (\<lambda>clients.
         bind_result (map_error IdentitiesInvalid (MultiClientTLSConfig c clients)) (\<lambda>_. Inr ()))))"

definition runCheckConfig :: "crypto \<Rightarrow> ('y, 'r) decoders \<Rightarrow> os \<Rightarrow> string list \<Rightarrow> 'y cli_error + action" where
  "runCheckConfig c D env args =
     withFlags ''check-config'' [(''role'', VString []), (''config'', VString []), (''skip-secrets'', VBool False)] args (\<lambda>fs.
       let role = stringOf fs ''role''; path = stringOf fs ''config''; skip = boolOf fs ''skip-secrets'' in
       if role = [] \<or> path = [] then Inl (FlagRequired [''--role'', ''--config''])
       else
         bind_result
           (if role = ''agent'' then checkAgentConfig D env skip path
            else if role = ''server'' then checkServerConfig c D env skip path
            else Inl BadRole) (\<lambda>_.
         Inr (PrintOK (role @ '' config ok: '' @ path))))"

section \<open>Commands\<close>

definition helpArgs :: "string list" where "helpArgs = [''--help'']"

definition runHelp :: "crypto \<Rightarrow> ('y, 'r) decoders \<Rightarrow> keygen_env \<Rightarrow> os \<Rightarrow> string list \<Rightarrow> ('y cli_error + action) \<times> os" where
  "runHelp c D kenv env args =
     (case args of
        [] \<Rightarrow> (Inr ShowUsage, env)
      | [command] \<Rightarrow>
          if command = ''agent'' then (runAgent D env helpArgs, env)
          else if command = ''server'' then (runServer D env helpArgs, env)
          else if command = ''probe'' then (runProbe env helpArgs, env)
          else if command = ''keygen'' then runKeygen kenv env helpArgs
          else if command = ''check'' then (runCheck env helpArgs, env)
          else if command = ''check-config'' then (runCheckConfig c D env helpArgs, env)
          else if command = ''version'' then (Inr (ShowHelp ''version''), env)
          else (Inl (UnknownCommand command), env)
      | _ \<Rightarrow> (Inl UsageHelp, env))"

definition runMain :: "crypto \<Rightarrow> ('y, 'r) decoders \<Rightarrow> keygen_env \<Rightarrow> os \<Rightarrow> string list \<Rightarrow> ('y cli_error + action) \<times> os" where
  "runMain c D kenv env args =
     (case args of
        [] \<Rightarrow> (Inl MissingCommand, env)
      | command # rest \<Rightarrow>
          if command = ''-h'' \<or> command = ''--help'' then (Inr ShowUsage, env)
          else if command = ''help'' then runHelp c D kenv env rest
          else if command = ''server'' then (runServer D env rest, env)
          else if command = ''agent'' then (runAgent D env rest, env)
          else if command = ''probe'' then (runProbe env rest, env)
          else if command = ''keygen'' then runKeygen kenv env rest
          else if command = ''check'' then (runCheck env rest, env)
          else if command = ''check-config'' then (runCheckConfig c D env rest, env)
          else if command = ''version'' then (if rest \<noteq> [] then Inl UsageVersion else Inr PrintVersion, env)
          else (Inl (UnknownCommand command), env))"

section \<open>Running with metrics\<close>

text \<open>
  \<open>runWithMetrics\<close> returns with the first of its goroutines to return, the metrics server (which is
  started only when it has an address) or the role, and after a signal with the first of them or
  the timer that the signal starts. The events are listed in the order in which the two selects
  see them; \<open>None\<close> means that it has not returned.
\<close>

datatype run_signal = MetricsReturned listen_end | RoleReturned "string option" | Signalled | TimedOut

fun afterSignal :: "Common \<Rightarrow> run_signal list \<Rightarrow> string option option" where
  "afterSignal c [] = None"
| "afterSignal c (MetricsReturned e # es) =
     (if MetricsListen c \<noteq> [] then Some (Serve (MetricsListen c) e) else afterSignal c es)"
| "afterSignal c (RoleReturned err # es) = Some err"
| "afterSignal c (TimedOut # es) = Some (Some ''shutdown timed out'')"
| "afterSignal c (Signalled # es) = afterSignal c es"

fun runWithMetrics :: "Common \<Rightarrow> run_signal list \<Rightarrow> string option option" where
  "runWithMetrics c [] = None"
| "runWithMetrics c (MetricsReturned e # es) =
     (if MetricsListen c \<noteq> [] then Some (Serve (MetricsListen c) e) else runWithMetrics c es)"
| "runWithMetrics c (RoleReturned err # es) = Some err"
| "runWithMetrics c (Signalled # es) = afterSignal c es"
| "runWithMetrics c (TimedOut # es) = runWithMetrics c es"

section \<open>Lemmas\<close>

text \<open>A flag that is written \<open>--name value\<close>.\<close>

lemma Parse_value:
  assumes "name \<noteq> []" "hd name \<noteq> CHR ''-''" "CHR ''='' \<notin> set name" "map_of (formal fs) name = Some old" "\<not> isBoolFlag old"
  shows "Parse ((CHR ''-'' # CHR ''-'' # name) # v # args) fs =
    (case setFlag name v old fs of Inl e \<Rightarrow> Inl e | Inr fs' \<Rightarrow> Parse args fs')"
proof -
  obtain c cs where n: "name = c # cs" using assms(1) by (cases name) auto
  have "cutFlag name = (name, None)" using assms(3) by (simp add: n cutFlag_def)
  then have "parseFlag name (v # args) fs = bind_result (setFlag name v old fs) (\<lambda>fs'. Inr (fs', args))"
    using assms(4,5) by (simp add: parseFlag_def takeValue_def)
  then show ?thesis
    using assms(2,3) unfolding n
    by (cases "setFlag (c # cs) v old fs") (auto simp: Parse.simps [of "(CHR ''-'' # CHR ''-'' # c # cs) # v # args"])
qed

lemma Parse_Nil [simp]: "Parse [] fs = Inr (fs, [])"
  by (simp add: Parse.simps)

lemma checkSecrets_iff: "checkSecrets env agents = Inr clients \<longleftrightarrow> loadClients env agents = Inr clients"
  by (induction agents arbitrary: clients) (auto simp: result_iff)

lemma srvApplyDefaults_idem [simp]: "srvApplyDefaults (srvApplyDefaults config) = srvApplyDefaults config"
  by (simp add: srvApplyDefaults_def)

lemma srvLoadConfig_defaults: "srvLoadConfig d1 d2 env path = Inr config \<Longrightarrow> srvApplyDefaults config = config"
  by (auto simp: srvLoadConfig_def result_iff split: option.splits)

lemma agtLoadConfig_defaults: "agtLoadConfig d1 d2 env path = Inr config \<Longrightarrow> agtApplyDefaults config = config"
  by (auto simp: agtLoadConfig_def result_iff split: option.splits)

text \<open>\<open>check-config\<close> for the server makes the checks of the startup part of \<open>Run\<close>.\<close>

lemma checkServerConfig_iff:
  "checkServerConfig c D env False path = Inr () \<longleftrightarrow>
     (\<exists>config. srvLoadConfig (srvDecode1 D) (srvDecode2 D) env path = Inr config \<and> is_ok (startRun c env (newServer config l m)))"
proof -
  have "is_ok (startRun c env (newServer config l m)) \<longleftrightarrow>
      (\<exists>clients a. srvValidateConfig config = Inr () \<and> loadClients env (sAgents config) = Inr clients \<and>
        MultiClientTLSConfig c clients = Inr a)"
    if "srvLoadConfig (srvDecode1 D) (srvDecode2 D) env path = Inr config" for config
    using srvLoadConfig_defaults [OF that] by (auto simp: startRun_def newServer_def Let_def result_iff is_ok_iff)
  then show ?thesis by (auto simp: checkServerConfig_def result_iff checkSecrets_iff)
qed

lemma checkAgentConfig_iff:
  "checkAgentConfig D env False path = Inr () \<longleftrightarrow>
     (\<exists>config. agtLoadConfig (agtDecode1 D) (agtDecode2 D) env path = Inr config \<and>
        agtValidateConfig (agtApplyDefaults config) = Inr () \<and> is_ok (LoadSecretFile env (aSecretFile config)))"
proof -
  have "agtValidateConfig (agtApplyDefaults config) = agtValidateConfig config"
    if "agtLoadConfig (agtDecode1 D) (agtDecode2 D) env path = Inr config" for config
    using agtLoadConfig_defaults [OF that] by simp
  then show ?thesis by (auto simp: checkAgentConfig_def result_iff is_ok_iff)
qed

text \<open>Commands that are given only a configuration file, or a role and a file.\<close>

lemmas flag_eval = parseFlags_def Parse_value setFlag_def newFlagSet_def

lemma serverFlags_config: "map_of serverFlags ''config'' = Some (VString [])" "map_of agentFlags ''config'' = Some (VString [])"
  by (simp_all add: serverFlags_def agentFlags_def commonFlags_def)

definition onlyConfig :: "flag_value gomap \<Rightarrow> string \<Rightarrow> flag_set" where
  "onlyConfig flags path = \<lparr>formal = AList.update ''config'' (VString path) flags, actual = [''config'']\<rparr>"

lemma parseFlags_config:
  assumes "map_of flags ''config'' = Some (VString [])"
  shows "parseFlags flags [''--config'', path] = Inr (onlyConfig flags path)"
  using Parse_value [of "''config''" "newFlagSet flags" "VString []" path "[]"] assms
  by (simp add: parseFlags_def setFlag_def newFlagSet_def onlyConfig_def)

lemma commonOf_onlyConfig:
  "commonOf (onlyConfig serverFlags path) = commonOf (newFlagSet commonFlags)"
  "commonOf (onlyConfig agentFlags path) = commonOf (newFlagSet commonFlags)"
  by (simp_all add: commonOf_def onlyConfig_def newFlagSet_def stringOf_def durationOf_def serverFlags_def agentFlags_def
      commonFlags_def)

lemma validateCommon_default: "validateCommon (commonOf (newFlagSet commonFlags)) = Inr ()"
  by (simp add: validateCommon_def commonOf_def newFlagSet_def stringOf_def durationOf_def commonFlags_def
      ValidateLogFormat_def ValidateLogLevel_def time_defs)

lemma onlyConfig_accepted:
  assumes "''config'' \<notin> set names"
  shows "stringOf (onlyConfig flags path) ''config'' = path"
    "rejectFlagsWithConfig (onlyConfig flags path) path names = (Inr () :: 'y cli_error + unit)"
  using assms by (simp_all add: onlyConfig_def stringOf_def rejectFlagsWithConfig_def)

lemma runServer_config:
  assumes "path \<noteq> []"
  shows "runServer D env [''--config'', path] =
    map_error ConfigLoad (bind_result (srvLoadConfig (srvDecode1 D) (srvDecode2 D) env path)
      (\<lambda>config. Inr (RunServer config (commonOf (newFlagSet commonFlags)))))"
proof -
  have "''config'' \<notin> set serverOwned" by (simp add: serverOwned_def)
  note acc = onlyConfig_accepted [OF this]
  show ?thesis
    using assms
    by (cases "srvLoadConfig (srvDecode1 D) (srvDecode2 D) env path")
      (simp_all add: runServer_def withFlags_def parseFlags_config serverFlags_config acc commonOf_onlyConfig
        validateCommon_default Let_def)
qed

lemma runAgent_config:
  assumes "path \<noteq> []"
  shows "runAgent D env [''--config'', path] =
    bind_result (map_error ConfigLoad (agtLoadConfig (agtDecode1 D) (agtDecode2 D) env path)) (\<lambda>config.
    bind_result (map_error (SecretInvalidFor []) (LoadSecretFile env (aSecretFile config))) (\<lambda>secret.
      Inr (RunAgent config secret (commonOf (newFlagSet commonFlags)))))"
proof -
  have "''config'' \<notin> set agentOwned" by (simp add: agentOwned_def)
  note acc = onlyConfig_accepted [OF this]
  show ?thesis
    using assms
    by (simp add: runAgent_def withFlags_def parseFlags_config serverFlags_config acc commonOf_onlyConfig
        validateCommon_default Let_def)
qed

lemma runCheckConfig_role:
  assumes "path \<noteq> []"
  shows "runCheckConfig c D env [''--role'', ''server'', ''--config'', path] =
      bind_result (checkServerConfig c D env False path) (\<lambda>_. Inr (PrintOK (''server config ok: '' @ path)))"
    and "runCheckConfig c D env [''--role'', ''agent'', ''--config'', path] =
      bind_result (checkAgentConfig D env False path) (\<lambda>_. Inr (PrintOK (''agent config ok: '' @ path)))"
proof -
  let ?flags = "[(''role'', VString []), (''config'', VString []), (''skip-secrets'', VBool False)]"
  have p: "parseFlags ?flags [''--role'', role, ''--config'', path] =
      Inr \<lparr>formal = [(''role'', VString role), (''config'', VString path), (''skip-secrets'', VBool False)],
        actual = [''config'', ''role'']\<rparr>" for role
    using Parse_value [of "''role''" "newFlagSet ?flags" "VString []" role "[''--config'', path]"]
      Parse_value [of "''config''" "\<lparr>formal = [(''role'', VString role), (''config'', VString []), (''skip-secrets'', VBool False)],
        actual = [''role'']\<rparr>" "VString []" path "[]"]
    by (simp add: parseFlags_def setFlag_def newFlagSet_def List.insert_def)
  show "runCheckConfig c D env [''--role'', ''server'', ''--config'', path] =
      bind_result (checkServerConfig c D env False path) (\<lambda>_. Inr (PrintOK (''server config ok: '' @ path)))"
    "runCheckConfig c D env [''--role'', ''agent'', ''--config'', path] =
      bind_result (checkAgentConfig D env False path) (\<lambda>_. Inr (PrintOK (''agent config ok: '' @ path)))"
    using assms by (simp_all add: runCheckConfig_def withFlags_def p stringOf_def boolOf_def)
qed

lemma runProbe_request:
  assumes "runProbe env args = Inr (SendProbe p)"
  shows "clientIDPattern (pAgentID p)" "routeIDPattern (pService p)" "validDirection (pDirection p)"
  using assms
  by (auto simp: runProbe_def withFlags_def result_iff parseDirection_def validDirection_def Let_def
      split: sum.splits if_splits cli_error.splits flag_error.splits)

text \<open>The frame of a probe fits, and the exchange sends it and nothing else.\<close>

lemma probeFrame_wellFormed:
  assumes "clientIDPattern (pAgentID p)" "routeIDPattern (pService p)" "validDirection (pDirection p)"
  shows "wellFormed (probeFrame p)"
  using assms by (simp add: probeFrame_def wellFormed_def opens_def zeroFrame_def length_bodyOf MaxFrameLen_def
      clientIDPattern_def routeIDPattern_def)

lemma probeFrame_fields [simp]:
  "Type (probeFrame p) = TypeProbe" "Direction (probeFrame p) = pDirection p" "Service (probeFrame p) = pService p"
  "wireFrame (probeFrame p) = probeFrame p"
  by (simp_all add: probeFrame_def zeroFrame_def wireFrame_def opens_def)

lemma probeExchange_run:
  assumes "wellFormed (probeFrame p)" "wr_script st = []" "probeExchange env p st = (r, st')"
  shows "tx st' = tx st @ frameBytes (probeFrame p)"
    and "wellFormed reply \<Longrightarrow> wireFrame reply = reply \<Longrightarrow> arriving st = frameBytes reply \<Longrightarrow> r = Inr () \<longleftrightarrow> Type reply = TypeOK"
proof -
  let ?st = "stream_SetDeadline (Some (now env + pHandshakeTimeout p)) st"
  let ?st2 = "?st\<lparr>tx := tx st @ frameBytes (probeFrame p)\<rparr>"
  have w: "WriteFrame stream_Write (probeFrame p) ?st = (None, ?st2)"
    using WriteFrame_accepting [of ?st "probeFrame p"] assms(2) wellFormed_frameBody [OF assms(1)] by simp
  obtain q st3 where q: "ReadFrame ?st2 = (q, st3)" by (cases "ReadFrame ?st2")
  show "tx st' = tx st @ frameBytes (probeFrame p)"
    using assms(3) ReadFrame_sides(1) [OF q] by (cases q) (auto simp: probeExchange_def w q)
  show "r = Inr () \<longleftrightarrow> Type reply = TypeOK"
    if "wellFormed reply" "wireFrame reply = reply" "arriving st = frameBytes reply"
    using assms(3) ReadFrame_reads [OF that(1), of ?st2 "[]"] that(2,3) q
    by (auto simp: probeExchange_def w arriving_more split: if_splits)
qed

lemma sendProbe_connected:
  assumes "sendProbe c quicDial openStream env p = (r :: 'y cli_error + action, Some st')"
  obtains k st q where "connectProbe c quicDial p = (Inr k :: 'y cli_error + connection)" "openStream k = Inr st"
    "probeExchange env p st = (q :: 'y cli_error + unit, st')" "is_ok r \<longleftrightarrow> q = Inr ()"
proof -
  obtain k st where k: "connectProbe c quicDial p = (Inr k :: 'y cli_error + connection)" "openStream k = Inr st"
    using assms by (auto simp: sendProbe_def split: sum.splits)
  obtain q st1 where q: "probeExchange env p st = (q :: 'y cli_error + unit, st1)" by (metis prod.exhaust)
  have "st1 = st'" "is_ok r \<longleftrightarrow> q = Inr ()"
    using assms k q by (auto simp: sendProbe_def is_ok_iff split: sum.splits)
  with that [OF k] q show thesis by blast
qed

text \<open>
  After a signal the process ends with the first event that counts. In particular, when a metrics
  server runs, its return ends the process even though the role has not returned.
\<close>

lemma afterSignal_returns: "afterSignal c es = None \<longleftrightarrow>
    (\<forall>e \<in> set es. e = Signalled \<or> (MetricsListen c = [] \<and> (\<exists>x. e = MetricsReturned x)))"
  by (induction c es rule: afterSignal.induct) auto

lemma signal_abandons_role:
  assumes "MetricsListen c \<noteq> []"
  shows "runWithMetrics c [Signalled, MetricsReturned ErrServerClosed] = Some None"
  using assms by (simp add: Serve_def)

text \<open>Listening on an IPv4 address is reported exactly when it is not a loopback address.\<close>

lemma warnMetricsExposure_dotted:
  assumes "host_port_text addr (dotted a b c d) port"
  shows "warnMetricsExposure addr l =
    (if a = 127 then l
     else Warn ''metrics_listener_exposed'' [AString ''listener_address'', AString addr,
       AString ''reason'', AString ''status_and_metrics_have_no_authentication''] l)"
proof -
  have "addr \<noteq> []" using assms by (auto simp: host_port_text_def)
  moreover have "SplitHostPort addr = Inr (dotted a b c d, port)" using assms by (simp add: SplitHostPort_iff)
  moreover have "dotted a b c d \<noteq> ''localhost''"
  proof
    assume e: "dotted a b c d = ''localhost''"
    have "CHR ''.'' \<in> set (dotted a b c d)" by (simp add: dotted_def)
    then show False unfolding e by simp
  qed
  ultimately show ?thesis
    by (simp add: warnMetricsExposure_def ParseIP_dotted IsLoopback_mapped)
qed

section \<open>Properties\<close>

text \<open>C16: \<open>mule check-config\<close> tells the truth. For a configuration file it reports success exactly when the
  command that runs that role with the same file gets past everything that does not depend on the
  network: the server loads the file, validates it, loads every secret and builds its
  authenticator; the agent loads and validates the file and loads its secret.\<close>

theorem check_config_predicts_start:
  assumes "path \<noteq> []"
  shows "(is_ok (runCheckConfig c D env [''--role'', ''server'', ''--config'', path]) \<longleftrightarrow>
      (\<exists>config common r. runServer D env [''--config'', path] = Inr (RunServer config common) \<and>
        startRun c env (newServer config l m) = Inr r)) \<and>
    (is_ok (runCheckConfig c D env [''--role'', ''agent'', ''--config'', path]) \<longleftrightarrow>
      (\<exists>config secret common. runAgent D env [''--config'', path] = Inr (RunAgent config secret common) \<and>
        agtValidateConfig (agtApplyDefaults config) = Inr ()))"
proof (rule conjI)
  have "is_ok (runCheckConfig c D env [''--role'', ''server'', ''--config'', path]) \<longleftrightarrow>
      checkServerConfig c D env False path = Inr ()"
    by (simp add: runCheckConfig_role [OF assms])
  then show "is_ok (runCheckConfig c D env [''--role'', ''server'', ''--config'', path]) \<longleftrightarrow>
      (\<exists>config common r. runServer D env [''--config'', path] = Inr (RunServer config common) \<and>
        startRun c env (newServer config l m) = Inr r)"
    unfolding checkServerConfig_iff [of c D env path l m] runServer_config [OF assms]
    by (auto simp: result_iff is_ok_iff)
  have "is_ok (runCheckConfig c D env [''--role'', ''agent'', ''--config'', path]) \<longleftrightarrow>
      checkAgentConfig D env False path = Inr ()"
    by (simp add: runCheckConfig_role [OF assms])
  then show "is_ok (runCheckConfig c D env [''--role'', ''agent'', ''--config'', path]) \<longleftrightarrow>
      (\<exists>config secret common. runAgent D env [''--config'', path] = Inr (RunAgent config secret common) \<and>
        agtValidateConfig (agtApplyDefaults config) = Inr ())"
    unfolding checkAgentConfig_iff runAgent_config [OF assms]
    by (auto simp: result_iff is_ok_iff)
qed

definition sampleFileAgt :: AgtFileConfig where
  "sampleFileAgt = \<lparr>afServer = ''s:7000'', afAgentID = ''a'', afSecretFile = ''/etc/mule/a.key'',
     afForward = [(''web'', ''127.0.0.1:8080'')], afReverse = [], afConnectTimeout = [], afHandshakeTimeout = [],
     afIdleTimeout = [], afMaxConnections = 0, afKeepAlive = [], afReconnectDelay = [], afSendClientAddr = False\<rparr>"

definition sampleDecoders :: "(unit, unit) decoders" where
  "sampleDecoders = \<lparr>srvDecode1 = (\<lambda>_. Inl YamlEOF), srvDecode2 = (\<lambda>_. Inl YamlEOF),
     agtDecode1 = (\<lambda>_. Inr (sampleFileAgt, ())), agtDecode2 = (\<lambda>_. Inl YamlEOF)\<rparr>"

theorem check_config_predicts_start_witness:
  "runCheckConfig sample_crypto sampleDecoders sampleOS [''--role'', ''agent'', ''--config'', ''/etc/mule/a.key''] =
     Inr (PrintOK ''agent config ok: /etc/mule/a.key'')"
proof -
  let ?path = "''/etc/mule/a.key''"
  obtain config where load: "agtLoadConfig (agtDecode1 sampleDecoders) (agtDecode2 sampleDecoders) sampleOS ?path = Inr config"
      "aSecretFile config = ?path" "agtValidateConfig (agtApplyDefaults config) = Inr ()"
  proof
    let ?c = "agtApplyDefaults \<lparr>aServer = ''s:7000'', aAgentID = ''a'', aSecretFile = ?path,
      aForward = [(''web'', ''127.0.0.1:8080'')], aReverse = [], aConnectTimeout = 0, aHandshakeTimeout = 0,
      aIdleTimeout = 0, aMaxConnections = 0, aKeepAlive = 0, aReconnectDelay = 0, aSendClientAddr = False\<rparr>"
    show "agtLoadConfig (agtDecode1 sampleDecoders) (agtDecode2 sampleDecoders) sampleOS ?path = Inr ?c"
      by (simp add: agtLoadConfig_def ReadFile_def sampleOS_def sampleDecoders_def DecodeYAMLStrict_def sampleFileAgt_def optDuration_def)
    show "aSecretFile ?c = ?path" by (simp add: agtApplyDefaults_def)
    show "agtValidateConfig (agtApplyDefaults ?c) = Inr ()" by code_simp
  qed
  then have "runAgent sampleDecoders sampleOS [''--config'', ?path] =
      Inr (RunAgent config sampleSecret (commonOf (newFlagSet commonFlags)))"
    by (simp add: runAgent_config sampleOS_loads)
  with load(3) check_config_predicts_start [of ?path sample_crypto sampleDecoders sampleOS]
  have "is_ok (runCheckConfig sample_crypto sampleDecoders sampleOS [''--role'', ''agent'', ''--config'', ?path])" by blast
  then show ?thesis by (auto simp: runCheckConfig_role)
qed

end
