(* ===== verification/Cli_Flags.thy ===== *)
theory Cli_Flags
  imports Cli
begin

text \<open>
  Configurations that are given as command line flags: what the flags produce is valid as far as
  the policy is concerned, and every valid policy can be written as flags.
\<close>

section \<open>Tables built from flags\<close>

text \<open>Agents in the making: valid entries, and tables that are maps.\<close>

definition agentsOK :: "AgentConfig list \<Rightarrow> bool" where
  "agentsOK agents \<longleftrightarrow> (\<forall>agent \<in> set agents. agentOK agent \<and> wf_map (sForward agent) \<and> wf_map (sReverse agent))"

lemma parseAgents_OK: "parseAgents raws = Inr agents \<Longrightarrow> agentsOK agents"
proof (induction raws arbitrary: agents)
  case (Cons raw raws)
  then show ?case
    by (auto simp: result_iff parseAgent_def agentsOK_def agentOK_def split: prod.splits if_splits)
qed (simp add: agentsOK_def)

lemma agentOK_add:
  assumes "agentOK agent" "routeIDPattern service" "\<not> has_key service m"
  shows "m = sForward agent \<Longrightarrow> ValidateTCPAddress addr = Inr () \<Longrightarrow> agentOK (agent\<lparr>sForward := AList.update service addr m\<rparr>)"
    and "m = sReverse agent \<Longrightarrow> ValidateListenAddress addr = Inr () \<Longrightarrow> agentOK (agent\<lparr>sReverse := AList.update service addr m\<rparr>)"
  using assms by (auto simp: agentOK_def has_key_iff update_fresh)

lemma addToAgent_OK:
  "addToAgent agents agentID service addr forward = Inr agents' \<Longrightarrow> agentsOK agents \<Longrightarrow> routeIDPattern service \<Longrightarrow>
     agentsOK agents' \<and> map sAgentID agents' = map sAgentID agents"
proof (induction agents arbitrary: agents')
  case (Cons agent agents)
  show ?case
  proof (cases "sAgentID agent = agentID")
    case True
    with Cons.prems show ?thesis
      using agentOK_add [of agent service] by (cases forward) (auto simp: result_iff agentsOK_def split: if_splits)
  next
    case False
    with Cons.prems Cons.IH show ?thesis by (auto simp: result_iff agentsOK_def)
  qed
qed simp

lemma addServerMapping_OK:
  assumes "addServerMapping agents raw forward = (Inr agents' :: 'y cli_error + AgentConfig list)" "agentsOK agents"
  shows "agentsOK agents' \<and> map sAgentID agents' = map sAgentID agents"
proof -
  obtain agentID service addr where "routeIDPattern service"
      "addToAgent agents agentID service addr forward = (Inr agents' :: 'y cli_error + AgentConfig list)"
    using assms(1) by (auto simp: addServerMapping_def result_iff split: prod.splits if_splits)
  with addToAgent_OK assms(2) show ?thesis by blast
qed

lemma addServerMappings_OK:
  "addServerMappings agents raws forward = Inr agents' \<Longrightarrow> agentsOK agents \<Longrightarrow>
     agentsOK agents' \<and> map sAgentID agents' = map sAgentID agents"
proof (induction raws arbitrary: agents)
  case (Cons raw raws)
  then show ?case by (auto simp: result_iff dest!: addServerMapping_OK)
qed simp

section \<open>Policies as flags\<close>

text \<open>The flags that state a policy: every value of a repeated flag is an argument of its own.\<close>

definition flagArgs :: "string \<Rightarrow> string list \<Rightarrow> string list" where
  "flagArgs name vs = concat (map (\<lambda>v. [''--'' @ name, v]) vs)"

definition tableOf :: "bool \<Rightarrow> AgentConfig \<Rightarrow> string gomap" where
  "tableOf forward agent = (if forward then sForward agent else sReverse agent)"

definition setTable :: "bool \<Rightarrow> string gomap \<Rightarrow> AgentConfig \<Rightarrow> AgentConfig" where
  "setTable forward t agent = (if forward then agent\<lparr>sForward := t\<rparr> else agent\<lparr>sReverse := t\<rparr>)"

definition agentText :: "AgentConfig \<Rightarrow> string" where
  "agentText agent = sAgentID agent @ CHR ''='' # sSecretFile agent"

definition mappingTexts :: "bool \<Rightarrow> AgentConfig \<Rightarrow> string list" where
  "mappingTexts forward agent =
     map (\<lambda>(service, addr). (sAgentID agent @ CHR '':'' # service) @ CHR ''='' # addr) (tableOf forward agent)"

definition serverArgs :: "string \<Rightarrow> AgentConfig list \<Rightarrow> string list" where
  "serverArgs listen agents =
     [''--listen-udp'', listen] @ flagArgs ''agent'' (map agentText agents) @
     flagArgs ''forward'' (concat (map (mappingTexts True) agents)) @
     flagArgs ''reverse'' (concat (map (mappingTexts False) agents))"

text \<open>Parsing a repeated flag appends its values and leaves every other flag alone.\<close>

lemma Parse_mapping:
  assumes "name \<noteq> []" "hd name \<noteq> CHR ''-''" "CHR ''='' \<notin> set name"
  shows "map_of (formal fs) name = Some (VMapping old) \<Longrightarrow>
    \<exists>fs'. Parse (flagArgs name vs @ args) fs = Parse args fs' \<and>
      map_of (formal fs') = (map_of (formal fs))(name \<mapsto> VMapping (old @ vs))"
proof (induction vs arbitrary: old fs)
  case Nil
  then show ?case by (intro exI [of _ fs]) (simp add: flagArgs_def fun_upd_idem)
next
  case (Cons v vs)
  obtain fs1 where f: "setFlag name v (VMapping old) fs = Inr fs1" "map_of (formal fs1) = (map_of (formal fs))(name \<mapsto> VMapping (old @ [v]))"
    by (auto simp: setFlag_def update_conv')
  have "Parse (flagArgs name (v # vs) @ args) fs = Parse (flagArgs name vs @ args) fs1"
    using Parse_value [OF assms Cons.prems, of v "flagArgs name vs @ args"] f(1) by (simp add: flagArgs_def)
  moreover obtain fs' where "Parse (flagArgs name vs @ args) fs1 = Parse args fs'"
      "map_of (formal fs') = (map_of (formal fs1))(name \<mapsto> VMapping ((old @ [v]) @ vs))"
    using Cons.IH [of fs1 "old @ [v]"] unfolding f(2) fun_upd_same by blast
  ultimately show ?case unfolding f(2) fun_upd_upd by (intro exI [of _ fs']) simp
qed

lemma Parse_string:
  assumes "name \<noteq> []" "hd name \<noteq> CHR ''-''" "CHR ''='' \<notin> set name" "map_of (formal fs) name = Some (VString old)"
  shows "\<exists>fs'. Parse ((CHR ''-'' # CHR ''-'' # name) # v # args) fs = Parse args fs' \<and>
    map_of (formal fs') = (map_of (formal fs))(name \<mapsto> VString v)"
  using Parse_value [OF assms] by (auto simp: setFlag_def update_conv')

text \<open>The loops over the values rebuild the agents, their forward and their reverse tables.\<close>

definition bare :: "AgentConfig \<Rightarrow> AgentConfig" where
  "bare agent = agent\<lparr>sForward := [], sReverse := []\<rparr>"

lemma table_simps [simp]:
  "tableOf fw (setTable fw t agent) = t" "setTable fw t (setTable fw t' agent) = setTable fw t agent"
  "sAgentID (setTable fw t agent) = sAgentID agent" "setTable fw (tableOf fw agent) agent = agent"
  "tableOf fw (bare agent) = []" "sAgentID (bare agent) = sAgentID agent"
  by (simp_all add: tableOf_def setTable_def bare_def)

lemma parseAgents_print:
  assumes "\<forall>agent \<in> set agents. clientIDPattern (sAgentID agent) \<and> sSecretFile agent \<noteq> []"
  shows "parseAgents (map agentText agents) = Inr (map bare agents)"
  using assms
proof (induction agents)
  case (Cons agent agents)
  then show ?case
    by (simp add: parseAgent_def agentText_def client_eq.cut_print pattern_nonempty ValidateClientID_def bare_def)
qed simp

text \<open>Which addresses a table may have, and that the text of a mapping is taken apart correctly.\<close>

definition addrOK :: "bool \<Rightarrow> string \<Rightarrow> bool" where
  "addrOK fw addr \<longleftrightarrow> addr \<noteq> [] \<and> (if fw then ValidateTCPAddress addr = Inr () else ValidateListenAddress addr = Inr ())"

lemma addToAgent_entry:
  assumes "sAgentID x \<notin> sAgentID ` set pre" "addrOK fw addr" "service \<notin> fst ` set (tableOf fw x)"
  shows "addToAgent (pre @ x # post) (sAgentID x) service addr fw =
    Inr (pre @ setTable fw (tableOf fw x @ [(service, addr)]) x # post)"
  using assms
proof (induction pre)
  case Nil
  then show ?case
    by (cases fw) (auto simp: addrOK_def tableOf_def setTable_def has_key_iff update_fresh)
qed auto

lemma addServerMapping_entry:
  assumes "sAgentID x \<notin> sAgentID ` set pre" "addrOK fw addr" "service \<notin> fst ` set (tableOf fw x)"
    and "clientIDPattern (sAgentID x)" "routeIDPattern service"
  shows "addServerMapping (pre @ x # post) ((sAgentID x @ CHR '':'' # service) @ CHR ''='' # addr) fw =
    Inr (pre @ setTable fw (tableOf fw x @ [(service, addr)]) x # post)"
proof -
  have "CHR ''='' \<notin> set (sAgentID x @ CHR '':'' # service)"
    using client_eq.sep_free [OF assms(4)] route_eq.sep_free [OF assms(5)] by simp
  moreover have "addr \<noteq> []" using assms(2) by (simp add: addrOK_def)
  ultimately show ?thesis
    unfolding addServerMapping_def Cut_append [OF \<open>CHR ''='' \<notin> set (sAgentID x @ CHR '':'' # service)\<close>]
    using addToAgent_entry [OF assms(1-3), of post] client_colon.cut_print [OF assms(4), of service]
      pattern_nonempty(2) [OF assms(4)] pattern_nonempty(1) [OF assms(5)] assms(5)
    by (simp add: ValidateRouteID_def)
qed

definition tableOK :: "bool \<Rightarrow> AgentConfig \<Rightarrow> bool" where
  "tableOK fw agent \<longleftrightarrow> clientIDPattern (sAgentID agent) \<and> distinct (map fst (tableOf fw agent)) \<and>
     (\<forall>(service, addr) \<in> set (tableOf fw agent). routeIDPattern service \<and> addrOK fw addr)"

lemma addServerMappings_append:
  "addServerMappings agents (xs @ ys) fw = bind_result (addServerMappings agents xs fw) (\<lambda>agents'. addServerMappings agents' ys fw)"
  by (induction xs arbitrary: agents) (simp_all add: bind_result_assoc)

lemma addServerMappings_table:
  assumes "sAgentID x \<notin> sAgentID ` set pre" "clientIDPattern (sAgentID x)"
  shows "distinct (map fst (tableOf fw x @ t)) \<Longrightarrow> \<forall>(service, addr) \<in> set t. routeIDPattern service \<and> addrOK fw addr \<Longrightarrow>
    addServerMappings (pre @ x # post) (map (\<lambda>(service, addr). (sAgentID x @ CHR '':'' # service) @ CHR ''='' # addr) t) fw =
      (Inr (pre @ setTable fw (tableOf fw x @ t) x # post) :: 'y cli_error + AgentConfig list)"
  using assms
proof (induction t arbitrary: x)
  case (Cons e t)
  obtain service addr where e: "e = (service, addr)" by (cases e)
  let ?x = "setTable fw (tableOf fw x @ [(service, addr)]) x"
  have "addServerMapping (pre @ x # post) ((sAgentID x @ CHR '':'' # service) @ CHR ''='' # addr) fw =
      (Inr (pre @ ?x # post) :: 'y cli_error + AgentConfig list)"
    using Cons.prems by (intro addServerMapping_entry) (auto simp: e)
  with Cons.IH [of ?x] Cons.prems show ?case by (simp add: e)
qed simp

lemma addServerMappings_print:
  assumes "distinct (map sAgentID (done_agents @ todo))" "\<forall>agent \<in> set todo. tableOK fw agent"
    and "\<And>agent. tableOf fw (start_of agent) = []" "\<And>agent. sAgentID (start_of agent) = sAgentID agent"
  shows "addServerMappings (done_agents @ map start_of todo) (concat (map (mappingTexts fw) todo)) fw =
    (Inr (done_agents @ map (\<lambda>agent. setTable fw (tableOf fw agent) (start_of agent)) todo) :: 'y cli_error + AgentConfig list)"
  using assms(1,2)
proof (induction todo arbitrary: done_agents)
  case (Cons agent todo)
  let ?x = "setTable fw (tableOf fw agent) (start_of agent)"
  have "addServerMappings (done_agents @ start_of agent # map start_of todo) (mappingTexts fw agent) fw =
      (Inr (done_agents @ ?x # map start_of todo) :: 'y cli_error + AgentConfig list)"
    using addServerMappings_table [of "start_of agent" done_agents fw "tableOf fw agent" "map start_of todo"] Cons.prems assms(3,4)
    by (auto simp: mappingTexts_def tableOK_def)
  with Cons.IH [of "done_agents @ [?x]"] Cons.prems assms(4) show ?case
    by (simp add: addServerMappings_append)
qed simp

lemma addrOK_valid: "ValidateTCPAddress addr = Inr () \<Longrightarrow> addrOK True addr" "ValidateListenAddress addr = Inr () \<Longrightarrow> addrOK False addr"
proof -
  have "ValidateTCPAddress [] \<noteq> Inr ()" "ValidateListenAddress [] \<noteq> Inr ()" by code_simp+
  then show "ValidateTCPAddress addr = Inr () \<Longrightarrow> addrOK True addr" "ValidateListenAddress addr = Inr () \<Longrightarrow> addrOK False addr"
    by (auto simp: addrOK_def)
qed

lemma agentsOK_tables:
  assumes "agentsOK agents"
  shows "\<forall>agent \<in> set agents. tableOK fw agent"
proof
  fix agent assume "agent \<in> set agents"
  then have ok: "agentOK agent" "wf_map (sForward agent)" "wf_map (sReverse agent)" using assms by (simp_all add: agentsOK_def)
  then show "tableOK fw agent"
    by (cases fw) (auto simp: tableOK_def tableOf_def agentOK_def wf_map_def addrOK_valid)
qed

lemma rebuild_agent: "setTable False (tableOf False agent) (setTable True (tableOf True agent) (bare agent)) = agent"
  by (simp add: setTable_def tableOf_def bare_def)

lemma server_tables_print:
  assumes "agentsOK agents" "distinct (map sAgentID agents)" "\<forall>agent \<in> set agents. sSecretFile agent \<noteq> []"
  shows "bind_result (parseAgents (map agentText agents)) (\<lambda>a0.
      bind_result (addServerMappings a0 (concat (map (mappingTexts True) agents)) True) (\<lambda>a1.
      addServerMappings a1 (concat (map (mappingTexts False) agents)) False)) = (Inr agents :: 'y cli_error + AgentConfig list)"
proof -
  define half where "half agent = setTable True (tableOf True agent) (bare agent)" for agent
  have half: "half = (\<lambda>agent. setTable True (tableOf True agent) (bare agent))" by (simp add: half_def fun_eq_iff)
  have 1: "parseAgents (map agentText agents) = (Inr (map bare agents) :: 'y cli_error + AgentConfig list)"
    using assms(1,3) by (intro parseAgents_print) (auto simp: agentsOK_def agentOK_def)
  have 2: "addServerMappings (map bare agents) (concat (map (mappingTexts True) agents)) True =
      (Inr (map half agents) :: 'y cli_error + AgentConfig list)"
    using addServerMappings_print [of "[]" agents True bare] assms(2) agentsOK_tables [OF assms(1), of True]
    unfolding half by simp
  have h: "tableOf False (half agent) = []" "sAgentID (half agent) = sAgentID agent" for agent
    by (simp_all add: half_def tableOf_def setTable_def bare_def)
  have "map (\<lambda>agent. setTable False (tableOf False agent) (half agent)) agents = agents"
    by (rule map_idI) (simp add: half_def rebuild_agent)
  then have "addServerMappings (map half agents) (concat (map (mappingTexts False) agents)) False =
      (Inr agents :: 'y cli_error + AgentConfig list)"
    using addServerMappings_print [of "[]" agents False half] assms(2) agentsOK_tables [OF assms(1), of False] h by simp
  with 1 2 show ?thesis by simp
qed

lemma serverArgs_parsed:
  obtains fs where "parseFlags serverFlags (serverArgs listen agents) = (Inr fs :: 'y cli_error + flag_set)"
    "map_of (formal fs) = (map_of serverFlags)(''listen-udp'' \<mapsto> VString listen, ''agent'' \<mapsto> VMapping (map agentText agents),
       ''forward'' \<mapsto> VMapping (concat (map (mappingTexts True) agents)),
       ''reverse'' \<mapsto> VMapping (concat (map (mappingTexts False) agents)))"
proof -
  have flags: "map_of serverFlags ''listen-udp'' = Some (VString [])" "map_of serverFlags ''agent'' = Some (VMapping [])"
      "map_of serverFlags ''forward'' = Some (VMapping [])" "map_of serverFlags ''reverse'' = Some (VMapping [])"
    by (simp_all add: serverFlags_def commonFlags_def)
  let ?f = "concat (map (mappingTexts True) agents)" and ?r = "concat (map (mappingTexts False) agents)"
  obtain fs1 where 1: "Parse (serverArgs listen agents) (newFlagSet serverFlags) =
        Parse (flagArgs ''agent'' (map agentText agents) @ flagArgs ''forward'' ?f @ flagArgs ''reverse'' ?r) fs1"
      "map_of (formal fs1) = (map_of serverFlags)(''listen-udp'' \<mapsto> VString listen)"
    using Parse_string [of "''listen-udp''" "newFlagSet serverFlags" "[]" listen] flags(1)
    by (auto simp: serverArgs_def newFlagSet_def)
  obtain fs2 where 2: "Parse (flagArgs ''agent'' (map agentText agents) @ flagArgs ''forward'' ?f @ flagArgs ''reverse'' ?r) fs1 =
        Parse (flagArgs ''forward'' ?f @ flagArgs ''reverse'' ?r) fs2"
      "map_of (formal fs2) = (map_of (formal fs1))(''agent'' \<mapsto> VMapping (map agentText agents))"
    using Parse_mapping [of "''agent''" fs1 "[]"] flags(2) unfolding 1(2) by auto
  obtain fs3 where 3: "Parse (flagArgs ''forward'' ?f @ flagArgs ''reverse'' ?r) fs2 = Parse (flagArgs ''reverse'' ?r @ []) fs3"
      "map_of (formal fs3) = (map_of (formal fs2))(''forward'' \<mapsto> VMapping ?f)"
    using Parse_mapping [of "''forward''" fs2 "[]"] flags(3) unfolding 1(2) 2(2) by auto
  obtain fs where 4: "Parse (flagArgs ''reverse'' ?r @ []) fs3 = Parse [] fs"
      "map_of (formal fs) = (map_of (formal fs3))(''reverse'' \<mapsto> VMapping ?r)"
    using Parse_mapping [of "''reverse''" fs3 "[]" ?r "[]"] flags(4) unfolding 1(2) 2(2) 3(2) by auto
  show thesis
    by (rule that [of fs]) (simp_all add: parseFlags_def 1(1) 2(1) 3(1) 4(1)[simplified] 4(2) 3(2) 2(2) 1(2))
qed

section \<open>Properties\<close>

text \<open>C22: Every policy can be given on the command line. For agents with valid ids, services and addresses,
  distinct ids and a secret file each, the flags \<open>--agent id=file\<close>, \<open>--forward id:service=address\<close> and
  \<open>--reverse id:service=address\<close> make \<open>mule server\<close> run with exactly those agents and tables, the
  given listen address and the default limits.\<close>

theorem server_flags_complete:
  assumes "agentsOK agents" "distinct (map sAgentID agents)" "\<forall>agent \<in> set agents. sSecretFile agent \<noteq> []"
  shows "runServer D env (serverArgs listen agents) =
    Inr (RunServer \<lparr>sListenUDP = listen, sAgents = agents, sHandshakeTimeout = 10 * Second, sIdleTimeout = 5 * Minute,
        sDialTimeout = 10 * Second, sMaxStreams = 100, sMaxPendingDials = 20, sKeepAlive = 20 * Second\<rparr>
      \<lparr>SecretFile = [], LogFormat = ''text'', LogLevel = ''info'', MetricsListen = [], ShutdownTimeout = 30 * Second\<rparr>)"
proof -
  obtain fs where fs: "parseFlags serverFlags (serverArgs listen agents) = (Inr fs :: 'a cli_error + flag_set)"
    "map_of (formal fs) = (map_of serverFlags)(''listen-udp'' \<mapsto> VString listen, ''agent'' \<mapsto> VMapping (map agentText agents),
       ''forward'' \<mapsto> VMapping (concat (map (mappingTexts True) agents)),
       ''reverse'' \<mapsto> VMapping (concat (map (mappingTexts False) agents)))"
    by (rule serverArgs_parsed)
  have m: "mappingOf fs ''agent'' = map agentText agents" "mappingOf fs ''forward'' = concat (map (mappingTexts True) agents)"
      "mappingOf fs ''reverse'' = concat (map (mappingTexts False) agents)"
    by (simp_all add: mappingOf_def fs(2))
  obtain a0 a1 where "parseAgents (map agentText agents) = (Inr a0 :: 'a cli_error + AgentConfig list)"
      "addServerMappings a0 (concat (map (mappingTexts True) agents)) True = (Inr a1 :: 'a cli_error + AgentConfig list)"
      "addServerMappings a1 (concat (map (mappingTexts False) agents)) False = (Inr agents :: 'a cli_error + AgentConfig list)"
    using server_tables_print [OF assms] by (auto simp: result_iff)
  then have "serverFromFlags fs = (Inr \<lparr>sListenUDP = listen, sAgents = agents, sHandshakeTimeout = 10 * Second, sIdleTimeout = 5 * Minute,
        sDialTimeout = 10 * Second, sMaxStreams = 100, sMaxPendingDials = 20, sKeepAlive = 20 * Second\<rparr> :: 'a cli_error + SrvConfig)"
    by (simp add: serverFromFlags_def m stringOf_def durationOf_def intOf_def fs(2) serverFlags_def commonFlags_def
        srvApplyDefaults_def orDefault_def time_defs)
  moreover have "commonOf fs = commonOf (newFlagSet commonFlags)" "stringOf fs ''config'' = []"
    by (simp_all add: commonOf_def newFlagSet_def stringOf_def durationOf_def fs(2) serverFlags_def commonFlags_def)
  moreover have "commonOf (newFlagSet commonFlags) = \<lparr>SecretFile = [], LogFormat = ''text'', LogLevel = ''info'',
      MetricsListen = [], ShutdownTimeout = 30 * Second\<rparr>"
    by (simp add: commonOf_def newFlagSet_def stringOf_def durationOf_def commonFlags_def)
  ultimately show ?thesis
    using validateCommon_default [where 'a = 'a]
    by (simp add: runServer_def withFlags_def fs(1) rejectFlagsWithConfig_def Let_def)
qed

theorem server_flags_complete_witness:
  "runServer sampleDecoders sampleOS [''--listen-udp'', '':7000'', ''--agent'', ''a=/etc/mule/a.key'', ''--agent'', ''b=k'',
      ''--forward'', ''a:web=h:80'', ''--forward'', ''b:web=g:81'', ''--reverse'', ''a:ssh=127.0.0.1:22''] =
    Inr (RunServer \<lparr>sListenUDP = '':7000'', sAgents =
        [\<lparr>sAgentID = ''a'', sSecretFile = ''/etc/mule/a.key'', sForward = [(''web'', ''h:80'')], sReverse = [(''ssh'', ''127.0.0.1:22'')]\<rparr>,
         \<lparr>sAgentID = ''b'', sSecretFile = ''k'', sForward = [(''web'', ''g:81'')], sReverse = []\<rparr>],
        sHandshakeTimeout = 10 * Second, sIdleTimeout = 5 * Minute, sDialTimeout = 10 * Second, sMaxStreams = 100,
        sMaxPendingDials = 20, sKeepAlive = 20 * Second\<rparr>
      \<lparr>SecretFile = [], LogFormat = ''text'', LogLevel = ''info'', MetricsListen = [], ShutdownTimeout = 30 * Second\<rparr>)"
proof -
  let ?agents = "[\<lparr>sAgentID = ''a'', sSecretFile = ''/etc/mule/a.key'', sForward = [(''web'', ''h:80'')], sReverse = [(''ssh'', ''127.0.0.1:22'')]\<rparr>,
    \<lparr>sAgentID = ''b'', sSecretFile = ''k'', sForward = [(''web'', ''g:81'')], sReverse = []\<rparr>]"
  have "agentsOK ?agents"
    unfolding agentsOK_def agentOK_def wf_map_def by code_simp
  from server_flags_complete [OF this, of sampleDecoders sampleOS "'':7000''"] show ?thesis
    by (simp add: serverArgs_def flagArgs_def agentText_def mappingTexts_def tableOf_def)
qed

text \<open>C23: A server configuration that was built from command line flags has a valid policy: every agent
  has a valid id, every service a valid name and a valid address, and no table has a service
  twice. What \<open>Run\<close> can still refuse is the listen address, a missing or a repeated agent, and
  limits or timeouts that are not positive.\<close>

theorem flags_give_valid_agents:
  assumes "serverFromFlags fs = (Inr config :: 'y cli_error + SrvConfig)"
  shows "agentsOK (sAgents config) \<and>
    (srvValidateConfig config = Inr () \<longleftrightarrow>
       ValidateUDPAddress (sListenUDP config) = Inr () \<and> sAgents config \<noteq> [] \<and> distinct (map sAgentID (sAgents config)) \<and>
       0 < sHandshakeTimeout config \<and> 0 < sIdleTimeout config \<and> 0 < sDialTimeout config \<and> 0 < sKeepAlive config \<and>
       0 < sMaxStreams config \<and> 0 < sMaxPendingDials config)"
proof -
  obtain agents1 agents2 agents3 where a: "parseAgents (mappingOf fs ''agent'') = (Inr agents1 :: 'y cli_error + AgentConfig list)"
      "addServerMappings agents1 (mappingOf fs ''forward'') True = (Inr agents2 :: 'y cli_error + AgentConfig list)"
      "addServerMappings agents2 (mappingOf fs ''reverse'') False = (Inr agents3 :: 'y cli_error + AgentConfig list)" "sAgents config = agents3"
    using assms by (auto simp: serverFromFlags_def result_iff srvApplyDefaults_def)
  have "agentsOK (sAgents config)"
    using parseAgents_OK [OF a(1)] addServerMappings_OK [OF a(2)] addServerMappings_OK [OF a(3)] a(4) by simp
  then show ?thesis by (auto simp: srvValidateConfig_iff agentsOK_def)
qed

theorem flags_give_valid_agents_witness:
  "\<exists>fs config. parseFlags serverFlags [''--listen-udp'', '':7000'', ''--agent'', ''a=k'', ''--forward'', ''web=h:80''] =
       (Inr fs :: unit cli_error + flag_set) \<and>
     serverFromFlags fs = (Inr config :: unit cli_error + SrvConfig) \<and> agentsOK (sAgents config) \<and>
     srvValidateConfig config = Inr () \<and> forwardTarget config ''a'' ''web'' = Some ''h:80''"
proof -
  let ?args = "[''--listen-udp'', '':7000'', ''--agent'', ''a=k'', ''--forward'', ''web=h:80'']"
  have "(case (parseFlags serverFlags ?args :: unit cli_error + flag_set) of Inl _ \<Rightarrow> False | Inr fs \<Rightarrow>
      (case (serverFromFlags fs :: unit cli_error + SrvConfig) of Inl _ \<Rightarrow> False | Inr config \<Rightarrow>
        ValidateUDPAddress (sListenUDP config) = Inr () \<and> length (sAgents config) = 1 \<and>
        0 < sHandshakeTimeout config \<and> 0 < sIdleTimeout config \<and> 0 < sDialTimeout config \<and> 0 < sKeepAlive config \<and>
        0 < sMaxStreams config \<and> 0 < sMaxPendingDials config \<and> forwardTarget config ''a'' ''web'' = Some ''h:80''))"
    by code_simp
  then obtain fs config where f: "parseFlags serverFlags ?args = (Inr fs :: unit cli_error + flag_set)"
      "serverFromFlags fs = (Inr config :: unit cli_error + SrvConfig)"
      "ValidateUDPAddress (sListenUDP config) = Inr ()" "length (sAgents config) = 1"
      "0 < sHandshakeTimeout config" "0 < sIdleTimeout config" "0 < sDialTimeout config" "0 < sKeepAlive config"
      "0 < sMaxStreams config" "0 < sMaxPendingDials config" "forwardTarget config ''a'' ''web'' = Some ''h:80''"
    by (auto split: sum.splits)
  from f(4) have "sAgents config \<noteq> []" "distinct (map sAgentID (sAgents config))"
    by (auto simp: length_Suc_conv)
  with flags_give_valid_agents [OF f(2)] f show ?thesis by blast
qed

end
