(* ===== verification/Spec2Isabelle.thy ===== *)
theory Spec2Isabelle
  imports Server_Lifecycle Agent_Lifecycle Cli_Flags
begin

text \<open>
  Verification development for mule, an encrypted tunnel for TCP services over QUIC.

  \<^bold>\<open>The program.\<close> An agent keeps one authenticated QUIC connection to a server. A forward service has
  its listener on the agent and its target at the server; a reverse service has its listener on the
  server and its target at the agent. For every TCP connection one side opens a QUIC stream, sends
  an OPEN frame of the control protocol, and copies bytes in both directions once the other side
  has dialled the target and answered OK. Agents and the server authenticate with keys that are
  derived from a secret shared by the two. \<open>mule probe\<close> asks the server whether a service would
  work; \<open>mule check-config\<close> checks a configuration file; counters and the connection status are
  served over HTTP.

  \<^bold>\<open>Conventions.\<close> Go structs are records, a function with an error result returns \<open>error + 'a\<close>
  (\<open>Inl\<close> the error) and is composed with \<open>bind_result\<close>, Go's early return. Maps are association
  lists with distinct keys (\<open>gomap\<close>), so that an iteration order can be named; where the code ranges
  over a map the theorems say whether the order matters. Bytes and unsigned counters are words of
  their width, durations are \<open>int\<close> with the wrap-around of \<open>int64\<close> written out where the code
  multiplies. Field and type names that two packages share carry a prefix (\<open>s\<close> or \<open>srv\<close> for the
  server, \<open>a\<close> or \<open>agt\<close> for the agent, \<open>p\<close> for the probe).

  \<^bold>\<open>Theories, in the order of their imports.\<close>

  \<^item> \<open>Mule_Prelude\<close>: shared types, the result monad, lemmas on maps and words.
  \<^item> \<open>Go_IO\<close>, \<open>Go_Strings\<close>, \<open>Go_Time\<close>, \<open>Go_Encoding\<close>, \<open>Go_Flag\<close>, \<open>Go_Net\<close>: what the program uses of Go's
    library. A \<open>stream\<close> holds the chunks that later reads deliver and a script of how the transport
    answers later writes, so a statement about all streams is one about every fragmentation, short
    write and error. \<open>Parse\<close> of \<open>Go_Flag\<close> is the loop of \<open>flag.Parse\<close>.
  \<^item> \<open>Protocol\<close> (\<open>internal/protocol/control.go\<close>): \<open>Frame\<close>, \<open>WriteFrame\<close>, \<open>ReadFrame\<close>, \<open>writeFull\<close>, the
    length-prefixed strings. Round trip through any fragmentation, canonical encodings, torn frames
    refused, bounds on what is read, every error branch.
  \<^item> \<open>Config\<close> (\<open>internal/config/config.go\<close>): identifiers, addresses, flag values and the normalisation
    of routes. The accepted addresses as a grammar, round trips of the mappings, independence of the
    iteration order.
  \<^item> \<open>Secret\<close> (\<open>internal/auth/secret.go\<close>): loading and generating secret files over a file system
    with modes and failing writes.
  \<^item> \<open>Identity\<close> (\<open>internal/auth/derive.go\<close>, \<open>tls.go\<close>): derived keys, certificates and the two TLS
    configurations. \<open>handshake\<close> states when \<open>crypto/tls\<close> accepts a handshake between them (validity
    periods, the key usage of the CA certificate and protocol versions apart); it succeeds for a
    configured client and authenticates both sides.
  \<^item> \<open>Transport\<close> (\<open>internal/transport/proxy.go\<close>): \<open>Pipe\<close> with its two goroutines as step functions that
    commute (locale \<open>commuting\<close>), so every schedule that ends does so in the same result. Reads block
    while the peer waits; \<open>Pipe\<close> hangs only while both peers wait for each other.
  \<^item> \<open>Metrics\<close>, \<open>Logging\<close> (\<open>internal/metrics/metrics.go\<close>, \<open>internal/logging/logging.go\<close>): counters, the
    status, the HTTP handler, and log lines by level.
  \<^item> \<open>Semaphore\<close>, \<open>Handlers\<close>, \<open>Tunnel\<close>, \<open>Step_Systems\<close>: what the two roles share: buffered channels as
    counting semaphores, replies and the outside of a handler, the contracts of the two ends of a
    tunnel (locales \<open>opener\<close>, \<open>acceptor\<close>, \<open>tunnel\<close>) and of an inductive invariant
    (\<open>invariant_system\<close>).
  \<^item> \<open>File_Config\<close>, \<open>Server_Config\<close>, \<open>Server\<close>, \<open>Server_Streams\<close>, \<open>Server_Lifecycle\<close>
    (\<open>internal/server/server.go\<close>): configuration and policy; the registry and every handler, as a
    composition of parts of which each changes at most one of the shared things (a semaphore, a gauge,
    the registry); the abstract decision \<open>verdict\<close> that the stream handler refines; the running
    server, in which a goroutine takes one part at a time (\<open>gstep\<close>) and waits in a stage of its own
    between them, as a step relation \<open>sys_step\<close> over a list of goroutines.
  \<^item> \<open>Agent_Config\<close>, \<open>Agent\<close>, \<open>Agent_Streams\<close>, \<open>Agent_Lifecycle\<close> (\<open>internal/agent/agent.go\<close>):
    the same for the agent (\<open>hstep\<close>, \<open>agt_step\<close>), with its reconnect loop and backoff.
  \<^item> \<open>Cli\<close>, \<open>Cli_Flags\<close> (\<open>cmd/mule/main.go\<close>): the commands, from the arguments to the configuration
    that a role is started with, key generation, the two checks, the probe and the end of the
    process; what flags can express and that it is valid.
  \<^item> This theory: the properties of agent and server together.

  \<^bold>\<open>What is shown.\<close> Agent and server compose to a transparent tunnel in both directions
  (\<open>forward_tunnel\<close>, \<open>reverse_tunnel\<close>), and an agent with the right secret is admitted unless a
  session of it is still registered (\<open>agent_admitted\<close>). In every reachable state of the server, under
  any interleaving, the limits hold, the gauges agree with the goroutines that raised them, at most
  one session per agent is alive, and an address is dialled for an agent only if that agent's
  configuration names it. The agent keeps its limit, its delays follow the doubling backoff, capped at
  a minute or at a longer base delay, and \<open>getConn\<close> returns in time. \<open>mule probe\<close> and \<open>mule check-config\<close> tell
  the truth, and a probe does not disturb a live session. Four theorems show behaviour that the
  code does not intend: agent ids with a leading hyphen never connect, a reconnect can leave the
  status wrong, a shutdown can leave the agent's connection open, and with a metrics listener the
  process may end before its role has (\<open>signal_abandons_role\<close>).

  \<^bold>\<open>Bounds.\<close> No definition has artificial fuel: the recursions are structural or have a
  termination proof, and loops that wait for the outside recurse over the list of what the outside
  delivers (\<open>getConn\<close> over its polls, \<open>maintainConnection\<close> over its attempts); \<open>None\<close> means that
  the list ended before the loop did, and \<open>getConn_returns\<close> bounds the polls that are needed. The
  tunnel theorems ask that the two address texts of an OPEN frame have at most 3900 bytes together,
  so that the frame fits in 4096 bytes; the program gets them from the operating system.

  \<^bold>\<open>Parameters.\<close> quic-go (dialling, accepting, opening streams), the YAML decoder, HKDF, Ed25519
  and certificate signing are arguments of the definitions that use them; \<open>crypto_ok\<close> states what is
  relied upon of the last three. The step relations leave open what peers send, what dialling
  yields and when connections end. Where a goroutine could only be cancelled at certain points they
  allow more interleavings than the program has, so invariants carry over.

  \<^bold>\<open>Not modelled.\<close> Usage and help texts (\<open>writeUsage\<close>, \<open>setCommandUsage\<close>), the JSON encoding of log
  lines and of the status (the encoded value is kept), the net/http server around the handler, the
  internals of TLS and QUIC, the exit status of \<open>main\<close>, build rules, systemd units and the install
  script.
\<close>

section \<open>A tunnelled connection, end to end\<close>

text \<open>
  Two streams are the two ends of one QUIC stream when each delivers what is written to the other;
  the ends are fresh and the transport accepts every write.
\<close>

definition oneStream :: "stream \<Rightarrow> stream \<Rightarrow> stream \<Rightarrow> stream \<Rightarrow> bool" where
  "oneStream sa sa' ss ss' \<longleftrightarrow> tx sa = [] \<and> tx ss = [] \<and> wr_script sa = [] \<and> wr_script ss = [] \<and>
     arriving ss = tx sa' \<and> arriving sa = tx ss'"

interpretation forward: tunnel "forwardOpens env service listener remote a"
    "forwardServes env' agentID s (openForward env a service listener remote)"
    "openForward env a service listener remote"
    for env service listener remote a env' agentID s ..

interpretation reverse: tunnel "reverseOpens env agentID service listener remote s"
    "reverseServes env' a (openReverse env agentID service listener remote)"
    "openReverse env agentID service listener remote"
    for env agentID service listener remote s env' a ..

text \<open>C1: A forwarded connection is a transparent tunnel. Let an agent with a valid configuration handle a
  client's connection for one of its forward services, over a stream whose other end the server
  handles for that agent, with a free dial slot and a target that answers. Then the target
  receives exactly the bytes that the client sent, the client receives exactly the bytes that the
  target sent, and agent and server count the same bytes in both directions.\<close>

theorem forward_tunnel:
  assumes agent: "agtValidateConfig (acfg a) = Inr ()" "has_key service (aForward (acfg a))"
      "validEnv env" "length listener + length remote \<le> 3900"
      "getConn env polls a = Some (Inr k)" "opened k = Inr sa"
      "handleForwardTCP env polls tcp service listener remote opened a = Some (tcp', Some sa', a')"
    and server: "forwardTarget (cfg s) agentID service = Some target" "dialTCP env' target = Inr c" "\<not> dialsFull s"
      "handleAgentStream env' agentID ss s = (ss', t, s')"
    and wire: "oneStream sa sa' ss ss'" "wr_script (conn tcp) = []" "wr_script (conn c) = []"
  shows "tx (conn tcp') = tx (conn tcp) @ arriving (conn c) \<and>
    (\<exists>c'. t = Some c' \<and> tx (conn c') = tx (conn c) @ arriving (conn tcp)) \<and>
    BytesClientToTarget (metrics s') - BytesClientToTarget (metrics s) =
      BytesClientToTarget (ametrics a') - BytesClientToTarget (ametrics a) \<and>
    BytesTargetToClient (metrics s') - BytesTargetToClient (metrics s) =
      BytesTargetToClient (ametrics a') - BytesTargetToClient (ametrics a)"
proof (rule forward.end_to_end)
  show "forwardOpens env service listener remote a tcp sa tcp' sa'
      (BytesClientToTarget (ametrics a') - BytesClientToTarget (ametrics a))
      (BytesTargetToClient (ametrics a') - BytesTargetToClient (ametrics a))"
    by (rule forwardOpensI [OF agent(5-7)])
  show "forwardServes env' agentID s (openForward env a service listener remote) c ss t ss'
      (BytesClientToTarget (metrics s') - BytesClientToTarget (metrics s))
      (BytesTargetToClient (metrics s') - BytesTargetToClient (metrics s))"
    using server by (simp add: forwardServes_def)
qed (use openForward_wellFormed [OF agent(1-4)] wire in \<open>auto simp: oneStream_def\<close>)

text \<open>The two ends of a stream for a witness: each end is given what the other one will write.\<close>

lemma sampleAgent_valid: "agtValidateConfig (acfg sampleAgent) = Inr ()"
  unfolding sampleAgent_def newAgent_def Agent.select_convs sampleAgtCfg_def by code_simp

lemma sampleEnv_valid: "validEnv sampleEnv"
  by (simp add: sampleEnv_def validEnv_def)

lemma sampleStream_fields [simp]:
  "tx (sampleStream input) = []" "wr_script (sampleStream input) = []" "arriving (sampleStream input) = concat input"
  by (simp_all add: sampleStream_def arriving_def)

lemma sampleEnd_fields [simp]:
  "wr_script (conn (sampleEnd input script w)) = script" "tx (conn (sampleEnd input script w)) = []"
  "arriving (conn (sampleEnd input script w)) = concat input"
  by (simp_all add: sampleEnd_def arriving_def)

theorem forward_tunnel_witness:
  "\<exists>polls opened sa sa' ss ss' tcp' a' t s'.
     handleForwardTCP sampleEnv polls (sampleEnd [[1, 2]] [] True) ''web'' [] [] opened sampleAgent = Some (tcp', Some sa', a') \<and>
     handleAgentStream sampleEnv ''a'' ss sampleServer = (ss', t, s') \<and> oneStream sa sa' ss ss' \<and>
     tx (conn tcp') = [7, 8] \<and> (\<exists>c'. t = Some c' \<and> tx (conn c') = [1, 2])"
proof -
  let ?f = "openForward sampleEnv sampleAgent ''web'' [] []"
  let ?c = "sampleEnd [[7, 8]] [] True" and ?tcp = "sampleEnd [[1, 2]] [] True"
  define sa where "sa = sampleStream [frameBytes okFrame @ [7, 8]]"
  define ss where "ss = sampleStream [frameBytes ?f @ [1, 2]]"
  define polls where "polls = [\<lparr>seen = Some 0, clock = 0, waited = TimerFired\<rparr>]"
  have got: "getConn sampleEnv polls sampleAgent = Some (Inr 0)" by (simp add: getConn_def polls_def)
  have web: "has_key ''web'' (aForward (acfg sampleAgent))"
    by (simp add: sampleAgent_def newAgent_def sampleAgtCfg_def has_key_def)
  have f: "wellFormed ?f" by (rule openForward_wellFormed [OF sampleAgent_valid web sampleEnv_valid]) simp
  obtain tcp' sa' a' where o: "handleForwardTCP sampleEnv polls ?tcp ''web'' [] [] (\<lambda>_. Inr sa) sampleAgent =
      Some (tcp', Some sa', a')"
    using handleForwardTCP_opened [OF got, of "\<lambda>_. Inr sa" sa] by blast
  obtain ss' t s' where h: "handleAgentStream sampleEnv ''a'' ss sampleServer = (ss', t, s')" by (metis prod_cases3)
  have pol: "forwardTarget (cfg sampleServer) ''a'' ''web'' = Some ''h:80''" "\<not> dialsFull sampleServer"
    "dialTCP sampleEnv ''h:80'' = Inr ?c"
    by (simp_all add: sampleServer_def newServer_def sampleCfg_def forwardTarget_def dialsFull_def sampleEnv_def)
  have "tx sa' = frameBytes ?f @ [1, 2]"
    using forward_opener.copies_after_ok [OF forwardOpensI [OF got refl o] f, of "[7, 8]"] by (simp add: sa_def)
  moreover have "tx ss' = frameBytes okFrame @ [7, 8]"
    using forward_acceptor.answers_ok [of sampleEnv "''a''" sampleServer ?f ?c ss t ss' _ _ "[1, 2]"] f h pol
    by (auto simp: forwardServes_def ss_def)
  ultimately have wire: "oneStream sa sa' ss ss'" by (simp add: oneStream_def sa_def ss_def)
  have "tx (conn tcp') = [7, 8] \<and> (\<exists>c'. t = Some c' \<and> tx (conn c') = [1, 2])"
    using forward_tunnel [OF sampleAgent_valid web sampleEnv_valid _ got refl o pol(1,3,2) h wire] by simp
  with o h wire show ?thesis by blast
qed

text \<open>C2: The same holds in the other direction: a client that connects to a listener of the server is
  tunnelled to the target that the agent's configuration names for the service.\<close>

theorem reverse_tunnel:
  assumes server: "srvValidateConfig (cfg s) = Inr ()" "reverseAllowed (cfg s) agentID service"
      "validEnv env" "length listener + length remote \<le> 3900"
      "connOf agentID s = Some k" "opened k = Inr sa"
      "handleReverseTCP env tcp agentID service listener remote opened s = (tcp', Some sa', s')"
    and agent: "map_of (aReverse (acfg a)) service = Some target" "dialTCP env' target = Inr c"
      "handleReverseStream env' ss a = (ss', t, a')"
    and wire: "oneStream sa sa' ss ss'" "wr_script (conn tcp) = []" "wr_script (conn c) = []"
  shows "tx (conn tcp') = tx (conn tcp) @ arriving (conn c) \<and>
    (\<exists>c'. t = Some c' \<and> tx (conn c') = tx (conn c) @ arriving (conn tcp)) \<and>
    BytesClientToTarget (ametrics a') - BytesClientToTarget (ametrics a) =
      BytesClientToTarget (metrics s') - BytesClientToTarget (metrics s) \<and>
    BytesTargetToClient (ametrics a') - BytesTargetToClient (ametrics a) =
      BytesTargetToClient (metrics s') - BytesTargetToClient (metrics s)"
proof (rule reverse.end_to_end)
  show "reverseOpens env agentID service listener remote s tcp sa tcp' sa'
      (BytesClientToTarget (metrics s') - BytesClientToTarget (metrics s))
      (BytesTargetToClient (metrics s') - BytesTargetToClient (metrics s))"
    by (rule reverseOpensI [OF server(5-7)])
  show "reverseServes env' a (openReverse env agentID service listener remote) c ss t ss'
      (BytesClientToTarget (ametrics a') - BytesClientToTarget (ametrics a))
      (BytesTargetToClient (ametrics a') - BytesTargetToClient (ametrics a))"
    using agent by (simp add: reverseServes_def)
qed (use openReverse_wellFormed [OF server(1-4)] wire in \<open>auto simp: oneStream_def\<close>)

definition sampleOnline :: Server where
  "sampleOnline = sampleServer\<lparr>conns := [(''a'', 0)]\<rparr>"

lemma sampleOnline_valid: "srvValidateConfig (cfg sampleOnline) = Inr ()"
  unfolding sampleOnline_def sampleServer_def newServer_def sampleCfg_def by code_simp

theorem reverse_tunnel_witness:
  "\<exists>opened sa sa' ss ss' tcp' a' t s'.
     handleReverseTCP sampleEnv (sampleEnd [[1, 2]] [] True) ''a'' ''ssh'' [] [] opened sampleOnline = (tcp', Some sa', s') \<and>
     handleReverseStream sampleEnv ss sampleAgent = (ss', t, a') \<and> oneStream sa sa' ss ss' \<and>
     tx (conn tcp') = [7, 8] \<and> (\<exists>c'. t = Some c' \<and> tx (conn c') = [1, 2])"
proof -
  let ?f = "openReverse sampleEnv ''a'' ''ssh'' [] []"
  let ?c = "sampleEnd [[7, 8]] [] True" and ?tcp = "sampleEnd [[1, 2]] [] True"
  define sa where "sa = sampleStream [frameBytes okFrame @ [7, 8]]"
  define ss where "ss = sampleStream [frameBytes ?f @ [1, 2]]"
  have on: "connOf ''a'' sampleOnline = Some 0" "reverseAllowed (cfg sampleOnline) ''a'' ''ssh''"
    by (simp_all add: connOf_def sampleOnline_def reverseAllowed_def sampleServer_def newServer_def sampleCfg_def has_key_def)
  have f: "wellFormed ?f" by (rule openReverse_wellFormed [OF sampleOnline_valid on(2) sampleEnv_valid]) simp
  obtain tcp' sa' s' where o: "handleReverseTCP sampleEnv ?tcp ''a'' ''ssh'' [] [] (\<lambda>_. Inr sa) sampleOnline = (tcp', Some sa', s')"
    using handleReverseTCP_opened [OF on(1), of "\<lambda>_. Inr sa" sa] by blast
  obtain ss' t a' where h: "handleReverseStream sampleEnv ss sampleAgent = (ss', t, a')" by (metis prod_cases3)
  have pol: "map_of (aReverse (acfg sampleAgent)) ''ssh'' = Some ''h:80''" "dialTCP sampleEnv ''h:80'' = Inr ?c"
    by (simp_all add: sampleAgent_def newAgent_def sampleAgtCfg_def sampleEnv_def)
  have "tx sa' = frameBytes ?f @ [1, 2]"
    using reverse_opener.copies_after_ok [OF reverseOpensI [OF on(1) refl o] f, of "[7, 8]"] by (simp add: sa_def)
  moreover have "tx ss' = frameBytes okFrame @ [7, 8]"
    using reverse_acceptor.answers_ok [of sampleEnv sampleAgent ?f ?c ss t ss' _ _ "[1, 2]"] f h pol
    by (auto simp: reverseServes_def ss_def)
  ultimately have wire: "oneStream sa sa' ss ss'" by (simp add: oneStream_def sa_def ss_def)
  have "tx (conn tcp') = [7, 8] \<and> (\<exists>c'. t = Some c' \<and> tx (conn c') = [1, 2])"
    using reverse_tunnel [OF sampleOnline_valid on(2) sampleEnv_valid _ on(1) refl o pol h wire] by simp
  with o h wire show ?thesis by blast
qed

section \<open>Bringing up a tunnel\<close>

text \<open>
  A client that presents a configured agent's secret under one of the agent's two server names
  completes the handshake with the started server and is identified as that agent.
\<close>

lemma configured_handshake:
  assumes c: "crypto_ok c" and run: "startRun c env (newServer config l m) = Inr r"
    and x: "x \<in> set (sAgents config)" "hd (sAgentID x) \<noteq> CHR ''-''"
    and secret: "LoadSecretFile env (sSecretFile x) = Inr secret"
    and name: "name = ExitServerNameForClient (sAgentID x) \<or> name = ProbeServerNameForClient (sAgentID x)"
  obtains tlsCfg tls where "TLSConfigWithServerName c secret RoleForward name = Inr tlsCfg" "handshake tlsCfg (authn r) = Inr tls"
    "ClientIDForTLSState (ClientByPublicKey (authn r)) tls = Some (sAgentID x)" "ServerName tls = name"
    "clientIDPattern (sAgentID x)"
proof -
  note s = startRun_Inr [OF run, unfolded newServer_fields]
  obtain clients where cl: "loadClients env (sAgents config) = Inr clients" "MultiClientTLSConfig c clients = Inr (authn r)"
    using s by blast
  have v: "srvValidateConfig (srvApplyDefaults config) = Inr ()" using s by blast
  have agents: "distinct (map sAgentID (sAgents config))" "\<forall>y \<in> set (sAgents config). clientIDPattern (sAgentID y)"
    using v by (simp_all add: srvValidateConfig_iff srvApplyDefaults_def agentOK_def)
  note ids = loadClients_ids [OF cl(1)]
  have pat: "clientIDPattern (ID y)" if "y \<in> set clients" for y
    using agents(2) arg_cong [OF ids, of set] that by (metis imageE imageI list.set_map)
  obtain tlsCfg where t: "TLSConfigWithServerName c secret RoleForward name = Inr tlsCfg" "agentConfig c secret name tlsCfg"
    using TLSConfig_ok [OF c] by blast
  obtain tls where tls: "handshake tlsCfg (authn r) = Inr tls" "ClientIDForTLSState (ClientByPublicKey (authn r)) tls = Some (sAgentID x)"
    using handshake_complete [OF c cl(2) _ ballI [OF pat] loadClients_secret [OF cl(1) x(1) secret], of name tlsCfg]
      agents(1) t(2) x(2) name
    by (auto simp: ids)
  have "ServerName tls = name"
    using handshake_name [OF tls(1)] t(1) by (auto simp: TLSConfigWithServerName_def result_iff Let_def)
  with that [OF t(1) tls] agents(2) x(1) show thesis by blast
qed

text \<open>What becomes of a connection that identifies an agent and does not name a probe.\<close>

lemma admit_free:
  assumes "ClientIDForTLSState (ClientByPublicKey (authn r)) tls = Some agentID" "ServerName tls \<noteq> ProbeServerNameForClient agentID"
    and "connOf agentID (server r1) = None" "authn r1 = authn r"
  shows "\<exists>r'. admit k tls peer r1 = (StartAgent agentID, r') \<and> connOf agentID (server r') = Some k \<and>
    map_of (agentsOf (metrics (server r'))) agentID = Some True"
  using assms by (simp add: admit_def admitConn_def register_def connOf_def markConnected_def countConn_def Let_def)

lemma admit_taken:
  assumes "ClientIDForTLSState (ClientByPublicKey (authn r)) tls = Some agentID" "ServerName tls \<noteq> ProbeServerNameForClient agentID"
    and "connOf agentID (server r1) = Some k'" "authn r1 = authn r"
  shows "\<exists>r'. admit k tls peer r1 = ((case trySend (sMaxPendingDials (cfg (server r1))) (probes r1) of
       None \<Rightarrow> Closed 2 | Some _ \<Rightarrow> StartLegacyProbe agentID), r') \<and>
    conns (server r') = conns (server r1) \<and> metrics (server r') = metrics (server r1)"
  using assms by (auto simp: admit_def admitConn_def register_def connOf_def Let_def split: option.split)

text \<open>C5: An agent and a server that share the agent's secret find each other. Let the server have started
  with a configuration that names the agent, be in any later state, and let the agent hold the secret
  in the file given there and have an id that does not start with a hyphen (such an id never
  connects). Then the agent's dial uses a TLS configuration whose handshake with the server succeeds
  and identifies exactly that agent. If no session of the agent is registered, the server admits the
  connection as its session, registers it and reports the agent as connected. If a session is still
  registered, even a stale one whose end the server has not noticed yet, the connection is not
  admitted as a session: it is taken for a legacy probe, or closed with code 2 when no probe slot is
  free, and registry and status stay as they are.\<close>

theorem agent_admitted:
  assumes c: "crypto_ok c" and run: "startRun c env (newServer config l m) = Inr r"
    and x: "x \<in> set (sAgents config)" "hd (sAgentID x) \<noteq> CHR ''-''"
    and a: "aAgentID (acfg a) = sAgentID x" "LoadSecretFile env (sSecretFile x) = Inr (asecret a)"
    and later: "authn r1 = authn r"
  shows "\<exists>tlsCfg tls outcome r'.
    dial c quicDial a = map_error DialQUIC (quicDial (aServer (acfg a)) tlsCfg \<lparr>HandshakeIdleTimeout = aHandshakeTimeout (acfg a),
      MaxIdleTimeout = aIdleTimeout (acfg a), KeepAlivePeriod = aKeepAlive (acfg a)\<rparr>) \<and>
    handshake tlsCfg (authn r1) = Inr tls \<and> admit k tls peer r1 = (outcome, r') \<and>
    (if connOf (sAgentID x) (server r1) = None
     then outcome = StartAgent (sAgentID x) \<and> connOf (sAgentID x) (server r') = Some k \<and>
       map_of (agentsOf (metrics (server r'))) (sAgentID x) = Some True
     else outcome = (case trySend (sMaxPendingDials (cfg (server r1))) (probes r1) of
         None \<Rightarrow> Closed 2 | Some _ \<Rightarrow> StartLegacyProbe (sAgentID x)) \<and>
       conns (server r') = conns (server r1) \<and> metrics (server r') = metrics (server r1))"
proof -
  obtain tlsCfg tls where t: "TLSConfigWithServerName c (asecret a) RoleForward (ExitServerNameForClient (sAgentID x)) = Inr tlsCfg"
      "handshake tlsCfg (authn r) = Inr tls" "ClientIDForTLSState (ClientByPublicKey (authn r)) tls = Some (sAgentID x)"
      "ServerName tls = ExitServerNameForClient (sAgentID x)" "clientIDPattern (sAgentID x)"
    by (rule configured_handshake [OF c run x a(2) disjI1 [OF refl]])
  have name: "ServerName tls \<noteq> ProbeServerNameForClient (sAgentID x)"
    using t(4) server_names_distinct(3) [OF t(5) t(5)] by simp
  have "dial c quicDial a = map_error DialQUIC (quicDial (aServer (acfg a)) tlsCfg
      \<lparr>HandshakeIdleTimeout = aHandshakeTimeout (acfg a), MaxIdleTimeout = aIdleTimeout (acfg a),
       KeepAlivePeriod = aKeepAlive (acfg a)\<rparr>)"
    using t(1) by (simp add: dial_def a(1))
  then show ?thesis
    using t(2) later admit_free [OF t(3) name _ later, of k peer] admit_taken [OF t(3) name _ later, of _ k peer]
    by (cases "connOf (sAgentID x) (server r1)") auto
qed

text \<open>The sample server, just started, and the same server while an older session is registered.\<close>

theorem agent_admitted_witness:
  "\<exists>tlsCfg tls r'. dial sample_crypto (\<lambda>_ _ _. Inr 5) (newAgent sampleAgtCfg sampleSecret (NewForWriter [] [] []) New) = Inr 5 \<and>
    handshake tlsCfg (authn (run sampleSys)) = Inr tls \<and> admit 0 tls ''p'' (run sampleSys) = (StartAgent ''a'', r') \<and>
    connOf ''a'' (server r') = Some 0 \<and>
    (\<exists>r1 tlsCfg tls r'. connOf ''a'' (server r1) = Some 7 \<and> handshake tlsCfg (authn r1) = Inr tls \<and>
       admit 8 tls ''p'' r1 = (StartLegacyProbe ''a'', r') \<and> connOf ''a'' (server r') = Some 7)"
proof -
  let ?a = "newAgent sampleAgtCfg sampleSecret (NewForWriter [] [] []) New" and ?x = "hd (sAgents sampleCfg)"
  define r1 where "r1 = (run sampleSys)\<lparr>server := (srv sampleSys)\<lparr>conns := [(''a'', 7)]\<rparr>\<rparr>"
  have x: "?x \<in> set (sAgents sampleCfg)" "hd (sAgentID ?x) \<noteq> CHR ''-''" "aAgentID (acfg ?a) = sAgentID ?x" "sAgentID ?x = ''a''"
      "LoadSecretFile sampleOS (sSecretFile ?x) = Inr (asecret ?a)"
    by (simp_all add: sampleCfg_def sampleAgtCfg_def newAgent_def sampleOS_loads)
  note s = startRun_Inr [OF sys_init_fields(4) [OF sampleSys_init], unfolded newServer_fields]
  have free: "connOf ''a'' (srv sampleSys) = None" using s by (simp add: connOf_def)
  have stale: "authn r1 = authn (run sampleSys)" "connOf ''a'' (server r1) = Some 7"
      "trySend (sMaxPendingDials (cfg (server r1))) (probes r1) = Some 1"
    using s by (simp_all add: r1_def connOf_def trySend_def sampleCfg_defaults) (simp add: sampleCfg_def)
  note admitted = agent_admitted [OF sample_crypto_ok sys_init_fields(4) [OF sampleSys_init] x(1,2,3,5), unfolded x(4)]
  have "\<exists>tlsCfg tls r'. handshake tlsCfg (authn r1) = Inr tls \<and> admit 8 tls ''p'' r1 = (StartLegacyProbe ''a'', r') \<and>
      connOf ''a'' (server r') = Some 7"
    using admitted [OF stale(1), of "\<lambda>_ _ _. Inr 5" 8 "''p''"] stale by (fastforce simp: connOf_def)
  with stale(2) have "\<exists>r1 tlsCfg tls r'. connOf ''a'' (server r1) = Some 7 \<and> handshake tlsCfg (authn r1) = Inr tls \<and>
      admit 8 tls ''p'' r1 = (StartLegacyProbe ''a'', r') \<and> connOf ''a'' (server r') = Some 7"
    by blast
  with admitted [OF refl, of "\<lambda>_ _ _. Inr 5" 0 "''p''"] free show ?thesis by fastforce
qed

section \<open>Probing a service\<close>

text \<open>C15: A probe does not disturb the agent it stands for. When the server runs with a configuration that
  names the agent, in whatever state its registry and its counters are, a probe with the agent's
  secret first dials with a TLS configuration whose handshake succeeds; the server takes the
  connection for a probe of that agent if a probe slot is free and closes it otherwise. In both
  cases registry, status and counters stay as they are, so a live session keeps its place.\<close>

theorem probe_admitted:
  assumes c: "crypto_ok c" and run: "startRun c env (newServer config l m) = Inr r"
    and x: "x \<in> set (sAgents config)" "hd (sAgentID x) \<noteq> CHR ''-''"
    and p: "runProbe os_env args = Inr (SendProbe p)" "pAgentID p = sAgentID x" "LoadSecretFile env (sSecretFile x) = Inr (pSecret p)"
    and later: "authn r1 = authn r"
  shows "\<exists>tlsCfg tls outcome r'.
    dialProbe c quicDial p (ProbeServerNameForClient (pAgentID p)) = map_error DialQUIC (quicDial (pServer p) tlsCfg
      \<lparr>HandshakeIdleTimeout = pHandshakeTimeout p, MaxIdleTimeout = pIdleTimeout p, KeepAlivePeriod = pKeepAlive p\<rparr>) \<and>
    handshake tlsCfg (authn r1) = Inr tls \<and> admit k tls peer r1 = (outcome, r') \<and>
    outcome = (case trySend (sMaxPendingDials (cfg (server r1))) (probes r1) of None \<Rightarrow> Closed 2 | Some _ \<Rightarrow> StartProbe (pAgentID p)) \<and>
    conns (server r') = conns (server r1) \<and> metrics (server r') = metrics (server r1) \<and> dials (server r') = dials (server r1)"
proof -
  obtain tlsCfg tls where t: "TLSConfigWithServerName c (pSecret p) RoleForward (ProbeServerNameForClient (sAgentID x)) = Inr tlsCfg"
      "handshake tlsCfg (authn r) = Inr tls" "ClientIDForTLSState (ClientByPublicKey (authn r)) tls = Some (sAgentID x)"
      "ServerName tls = ProbeServerNameForClient (sAgentID x)" "clientIDPattern (sAgentID x)"
    by (rule configured_handshake [OF c run x p(3) disjI2 [OF refl]])
  let ?free = "trySend (sMaxPendingDials (cfg (server r1))) (probes r1)"
  obtain outcome r' where r': "admit k tls peer r1 = (outcome, r')" by (cases "admit k tls peer r1")
  have "outcome = (case ?free of None \<Rightarrow> Closed 2 | Some _ \<Rightarrow> StartProbe (pAgentID p)) \<and>
      conns (server r') = conns (server r1) \<and> metrics (server r') = metrics (server r1) \<and> dials (server r') = dials (server r1)"
    using r' t(3,4) by (cases ?free) (auto simp: admit_def admitConn_def later p(2) Let_def)
  moreover have "dialProbe c quicDial p (ProbeServerNameForClient (pAgentID p)) = map_error DialQUIC (quicDial (pServer p) tlsCfg
      \<lparr>HandshakeIdleTimeout = pHandshakeTimeout p, MaxIdleTimeout = pIdleTimeout p, KeepAlivePeriod = pKeepAlive p\<rparr>)"
    using t(1) by (simp add: dialProbe_def p(2))
  ultimately show ?thesis using t(2) r' later by metis
qed

text \<open>A probe for the service \<open>web\<close> of the sample agent.\<close>

definition sampleProbeArgs :: "string list" where
  "sampleProbeArgs = [''--server'', ''s:7000'', ''--agent-id'', ''a'', ''--secret-file'', ''/etc/mule/a.key'', ''--service'', ''web'']"

definition sampleProbe :: probe_request where
  "sampleProbe = \<lparr>pServer = ''s:7000'', pAgentID = ''a'', pSecret = sampleSecret, pService = ''web'',
     pDirection = DirectionForward, pConnectTimeout = 10 * Second, pHandshakeTimeout = 10 * Second,
     pIdleTimeout = 30 * Second, pKeepAlive = 20 * Second\<rparr>"

lemma sampleProbe_parsed: "runProbe sampleOS sampleProbeArgs = (Inr (SendProbe sampleProbe) :: unit cli_error + action)"
proof -
  have "ValidateUDPAddress ''s:7000'' = Inr ()" "ValidateClientID ''a'' = Inr ()" "ValidateRouteID ''web'' = Inr ()"
    by code_simp+
  then show ?thesis
    by (simp add: sampleProbeArgs_def sampleProbe_def runProbe_def withFlags_def probeFlags_def flag_eval
        stringOf_def durationOf_def parseDirection_def sampleOS_loads)
qed

theorem probe_admitted_witness:
  "\<exists>tlsCfg tls r'. dialProbe sample_crypto (\<lambda>_ _ _. Inr 5) sampleProbe (ProbeServerNameForClient ''a'') = Inr 5 \<and>
    handshake tlsCfg (authn (run sampleSys)) = Inr tls \<and> admit 0 tls ''p'' (run sampleSys) = (StartProbe ''a'', r') \<and>
    conns (server r') = conns (server (run sampleSys))"
proof -
  let ?x = "hd (sAgents sampleCfg)"
  have x: "?x \<in> set (sAgents sampleCfg)" "hd (sAgentID ?x) \<noteq> CHR ''-''" "pAgentID sampleProbe = sAgentID ?x" "sAgentID ?x = ''a''"
      "LoadSecretFile sampleOS (sSecretFile ?x) = Inr (pSecret sampleProbe)"
    by (simp_all add: sampleCfg_def sampleProbe_def sampleOS_loads)
  have "trySend (sMaxPendingDials (cfg (server (run sampleSys)))) (probes (run sampleSys)) \<noteq> None"
    using startRun_Inr [OF sys_init_fields(4) [OF sampleSys_init], unfolded newServer_fields]
    by (simp add: trySend_def sampleCfg_defaults) (simp add: sampleCfg_def)
  with probe_admitted [OF sample_crypto_ok sys_init_fields(4) [OF sampleSys_init] x(1,2) sampleProbe_parsed x(3,5) refl,
      of "\<lambda>_ _ _. Inr 5" 0 "''p''"] show ?thesis
    by (fastforce simp: x(3,4))
qed



end
